(* ===== verification/Smack_Prelude.thy ===== *)
theory Smack_Prelude
  imports
    Main
    "HOL-Library.Char_ord"
    "HOL-Library.List_Lexorder"
    "HOL-Library.Signed_Division"
begin

text \<open>
  Shared vocabulary of the development: how a C++ routine ends (a value, a call of \<open>die\<close>, an
  \<open>exit\<close>, or undefined behaviour), checked machine integers, C strings and character classes,
  checked writes into a fixed array, and splitting a string at a separator, which both dictionary
  loaders turn out to compute.
\<close>

section \<open>How a routine ends\<close>

text \<open>
  The undefined behaviours of C++ that the sources can run into.  Each is a value of the model, so
  that a theorem can say that an operation never runs into one.
\<close>

datatype ub =
    Out_of_bounds
  | Null_deref
  | Signed_overflow
  | Div_by_zero
  | Use_after_free
  | Unterminated
  | Uninitialized
  | Bad_conversion

text \<open>
  \<open>die()\<close> of \<^verbatim>\<open>src/die.cc\<close> prints a message and ends the process.  One constructor per message;
  the arguments are those printed, without the line number of the script.
\<close>

datatype die_msg =
    Datadir_too_long
  | Unknown_dict_type string
  | Template_not_unique
  | Unknown_source_type string
  | Table_client_undefined
  | Data_file_error
  | Barrel_query_undefined string
  | Client_undefined string
  | Param_count string nat nat
  | Run_query_undefined string
  | Unknown_method string string
  | Unknown_client_param string
  | No_such_query_type string
  | Unknown_report_param string
  | No_such_dictionary string
  | Null_type_report nat
  | Report_read_error
  | Incomplete_read
  | Invalid_q_type string
  | Report_overflow
  | Report_write_error
  | Connect_read_error
  | Select_error
  | Semaphore_error
  | Pipe_error
  | Fork_error
  | Rows_or_format_missing

  | Invalid_format_char char
  | Query_failed
  | Database_error
  | Dump_open_error string
  | Compare_open_error string
  | Compare_unsupported
  | Store_result_failed
  | No_count_result
  | Input_open_error string

  | Unknown_db_type string
  | Argument_missing int int
  | Uninitialized_variable string
  | Parse_error
  | Test_dictionary_missing

datatype fault =
    Died die_msg
  | Exited int
  | Undefined ub

type_synonym 'a result = "fault + 'a"

abbreviation undef :: "ub \<Rightarrow> 'a result" where
  "undef u \<equiv> Inl (Undefined u)"

abbreviation die :: "die_msg \<Rightarrow> 'a result" where
  "die m \<equiv> Inl (Died m)"

definition bindR :: "'a result \<Rightarrow> ('a \<Rightarrow> 'b result) \<Rightarrow> 'b result" where
  "bindR m f = (case m of Inl e \<Rightarrow> Inl e | Inr x \<Rightarrow> f x)"

definition mapR :: "('a \<Rightarrow> 'b) \<Rightarrow> 'a result \<Rightarrow> 'b result" where
  "mapR f m = (case m of Inl e \<Rightarrow> Inl e | Inr x \<Rightarrow> Inr (f x))"

definition is_ok :: "'a result \<Rightarrow> bool" where
  "is_ok m = (case m of Inl _ \<Rightarrow> False | Inr _ \<Rightarrow> True)"

lemma bindR_simps [simp]:
  "bindR (Inl e) f = Inl e"
  "bindR (Inr x) f = f x"
  by (simp_all add: bindR_def)

lemma mapR_simps [simp]:
  "mapR f (Inl e) = Inl e"
  "mapR f (Inr x) = Inr (f x)"
  by (simp_all add: mapR_def)

lemma is_ok_simps [simp]: "is_ok (Inr x)" "\<not> is_ok (Inl e)"
  by (simp_all add: is_ok_def)

lemma is_ok_iff: "is_ok m \<longleftrightarrow> (\<exists>x. m = Inr x)"
  by (cases m) simp_all

lemma bindR_eq_Inr: "bindR m f = Inr y \<longleftrightarrow> (\<exists>x. m = Inr x \<and> f x = Inr y)"
  by (cases m) simp_all

lemma bindR_eq_Inl: "bindR m f = Inl e \<longleftrightarrow> m = Inl e \<or> (\<exists>x. m = Inr x \<and> f x = Inl e)"
  by (cases m) simp_all

lemma mapR_eq_Inr: "mapR f m = Inr y \<longleftrightarrow> (\<exists>x. m = Inr x \<and> y = f x)"
  by (cases m) auto

lemma bindR_assoc: "bindR (bindR m f) g = bindR m (\<lambda>x. bindR (f x) g)"
  by (cases m) simp_all

lemma bindR_cong [fundef_cong]:
  assumes "m = m'" and "\<And>x. m' = Inr x \<Longrightarrow> f x = f' x"
  shows "bindR m f = bindR m' f'"
  using assms by (cases m') simp_all

lemma bindR_split:
  "P (bindR m f) \<longleftrightarrow> (\<forall>e. m = Inl e \<longrightarrow> P (Inl e)) \<and> (\<forall>x. m = Inr x \<longrightarrow> P (f x))"
  by (cases m) simp_all

lemmas resultE_simps = bindR_eq_Inr bindR_eq_Inl mapR_eq_Inr

text \<open>Loops: a step repeated, and a step for every element of a vector.\<close>

fun repeatR :: "nat \<Rightarrow> ('s \<Rightarrow> 's result) \<Rightarrow> 's \<Rightarrow> 's result" where
  "repeatR 0 f s = Inr s"
| "repeatR (Suc n) f s = bindR (f s) (repeatR n f)"

fun foldR :: "('a \<Rightarrow> 's \<Rightarrow> 's result) \<Rightarrow> 'a list \<Rightarrow> 's \<Rightarrow> 's result" where
  "foldR f [] s = Inr s"
| "foldR f (x # xs) s = bindR (f x s) (foldR f xs)"

lemma repeatR_invariant:
  assumes "\<And>s s'. P s \<Longrightarrow> f s = Inr s' \<Longrightarrow> P s'"
  shows "P s \<Longrightarrow> repeatR n f s = Inr s' \<Longrightarrow> P s'"
  by (induction n arbitrary: s) (auto simp: bindR_eq_Inr intro: assms)

lemma foldR_invariant:
  assumes "\<And>x s s'. x \<in> set xs \<Longrightarrow> P s \<Longrightarrow> f x s = Inr s' \<Longrightarrow> P s'"
  shows "P s \<Longrightarrow> foldR f xs s = Inr s' \<Longrightarrow> P s'"
  using assms by (induction xs arbitrary: s) (auto simp: bindR_eq_Inr)

lemma foldR_append: "foldR f (xs @ ys) s = bindR (foldR f xs s) (foldR f ys)"
  by (induction xs arbitrary: s) (simp_all add: bindR_def split: sum.split)


section \<open>Outcomes\<close>

text \<open>
  A routine's outcome: its result satisfies \<open>P\<close> when it returns, the fault satisfies \<open>F\<close> when it does not.
  The rules follow the structure of the code; they are collected in \<open>ends_rule\<close>.
\<close>

named_theorems ends_rule

definition ends :: "('s \<Rightarrow> bool) \<Rightarrow> (fault \<Rightarrow> bool) \<Rightarrow> 's result \<Rightarrow> bool" where
  "ends P F r = (case r of Inl e \<Rightarrow> F e | Inr s \<Rightarrow> P s)"

lemma ends_simps [simp]: "ends P F (Inr s) = P s" "ends P F (Inl e) = F e"
  by (simp_all add: ends_def)

lemma ends_weaken: "ends P F r \<Longrightarrow> (\<And>s. P s \<Longrightarrow> P' s) \<Longrightarrow> (\<And>e. F e \<Longrightarrow> F' e) \<Longrightarrow> ends P' F' r"
  by (cases r) simp_all

lemma ends_bind: "ends P F m \<Longrightarrow> (\<And>x. P x \<Longrightarrow> ends Q F (f x)) \<Longrightarrow> ends Q F (bindR m f)"
  by (cases m) simp_all

lemma ends_bind_iff [ends_rule]:
  "ends Q F (bindR m f) \<longleftrightarrow> ends (\<lambda>x. ends Q F (f x)) F m"
  by (cases m) simp_all

lemma ends_map_iff [ends_rule]: "ends Q F (mapR f m) \<longleftrightarrow> ends (\<lambda>x. Q (f x)) F m"
  by (cases m) simp_all

lemma ends_repeat: "P s \<Longrightarrow> (\<And>s. P s \<Longrightarrow> ends P F (f s)) \<Longrightarrow> ends P F (repeatR n f s)"
  by (induction n arbitrary: s) (auto intro: ends_bind)

lemma ends_fold: "P s \<Longrightarrow> (\<And>x s. x \<in> set xs \<Longrightarrow> P s \<Longrightarrow> ends P F (f x s)) \<Longrightarrow> ends P F (foldR f xs s)"
  by (induction xs arbitrary: s) (auto intro: ends_bind)

section \<open>Machine integers\<close>

text
 \<open>
  A C++ \<open>int\<close> is an HOL integer within the 32-bit range.  Signed overflow is undefined in C++, so
  the checked operations return \<open>Undefined Signed_overflow\<close> outside the range.  Conversions to
  \<open>int\<close> wrap (\<open>to_int32\<close>), as the compilers the program is built with define them.
\<close>

definition INT_MAX :: int where "INT_MAX = 2147483647"
definition INT_MIN :: int where "INT_MIN = -2147483648"

definition in_int :: "int \<Rightarrow> bool" where
  "in_int x \<longleftrightarrow> INT_MIN \<le> x \<and> x \<le> INT_MAX"

definition chk :: "int \<Rightarrow> int result" where
  "chk x = (if in_int x then Inr x else undef Signed_overflow)"

definition to_int32 :: "int \<Rightarrow> int" where
  "to_int32 x = (x + 2147483648) mod 4294967296 - 2147483648"

definition to_uint32 :: "int \<Rightarrow> int" where
  "to_uint32 x = x mod 4294967296"

lemmas int_range_defs =
 in_int_def INT_MAX_def INT_MIN_def

lemma chk_in [simp]: "in_int x \<Longrightarrow> chk x = Inr x"
  by (simp add: chk_def)

lemma chk_eq_Inr: "chk x = Inr y \<longleftrightarrow> in_int x \<and> y = x"
  by (auto simp: chk_def)

lemma in_int_to_int32: "in_int (to_int32 x)"
proof -
  have "0 \<le> (x + 2147483648) mod 4294967296" "(x + 2147483648) mod 4294967296 < 4294967296"
    by simp_all
  then show ?thesis by (simp add: to_int32_def int_range_defs)
qed

lemma to_int32_id [simp]: "in_int x \<Longrightarrow> to_int32 x = x"
  by (simp add: to_int32_def int_range_defs)

text \<open>C++ division truncates toward zero: \<open>sdiv\<close> and \<open>smod\<close> of the library.\<close>

lemma sdiv_nonneg: "0 \<le> a \<Longrightarrow> 0 < b \<Longrightarrow> (a::int) sdiv b = a div b"
  by (simp add: signed_divide_int_def sgn_if)

lemma smod_nonneg: "0 \<le> a \<Longrightarrow> 0 < b \<Longrightarrow> (a::int) smod b = a mod b"
  by (cases "a = 0") (simp_all add: signed_modulo_int_def)

lemma sdiv_neg: "a < 0 \<Longrightarrow> 0 < b \<Longrightarrow> (a::int) sdiv b = - ((- a) div b)"
  by (simp add: signed_divide_int_def sgn_if)

section \<open>Characters and C strings\<close>

abbreviation NUL :: char where "NUL \<equiv> CHR 0x00"

text \<open>The C string held by a character array or a \<open>std::string\<close>: what precedes the first NUL.\<close>

definition c_str :: "string \<Rightarrow> string" where
  "c_str s = takeWhile (\<lambda>c. c \<noteq> NUL) s"

lemma c_str_id: "NUL \<notin> set s \<Longrightarrow> c_str s = s"
  unfolding c_str_def takeWhile_eq_all_conv by auto

lemma c_str_no_NUL [simp]: "NUL \<notin> set (c_str s)"
  by (auto simp: c_str_def dest: set_takeWhileD)

lemma length_c_str: "length (c_str s) \<le> length s"
  by (simp add: c_str_def length_takeWhile_le)

lemma c_str_idem [simp]: "c_str (c_str s) = c_str s"
  by (rule c_str_id) simp

definition isdigit :: "char \<Rightarrow> bool" where
  "isdigit c = (let n = (of_char c :: nat) in 48 \<le> n \<and> n \<le> 57)"

definition isupper :: "char \<Rightarrow> bool" where
  "isupper c = (let n = (of_char c :: nat) in 65 \<le> n \<and> n \<le> 90)"

definition islower :: "char \<Rightarrow> bool" where
  "islower c = (let n = (of_char c :: nat) in 97 \<le> n \<and> n \<le> 122)"

definition isalnum :: "char \<Rightarrow> bool" where
  "isalnum c \<longleftrightarrow> isdigit c \<or> isupper c \<or> islower c"

definition isspace :: "char \<Rightarrow> bool" where
  "isspace c = (let n = (of_char c :: nat) in n = 32 \<or> (9 \<le> n \<and> n \<le> 13))"

definition tolower :: "char \<Rightarrow> char" where
  "tolower c = (if isupper c then char_of ((of_char c :: nat) + 32) else c)"

definition digit_val :: "char \<Rightarrow> nat" where
  "digit_val c = (of_char c :: nat) - 48"

lemmas char_class_defs = isdigit_def isupper_def islower_def isalnum_def isspace_def Let_def

section \<open>Checked writes\<close>

text \<open>
  A character array of \<open>cap\<close> bytes filled from the left: the bytes written so far, and a write
  that is undefined when it would leave the array.
\<close>

definition put :: "nat \<Rightarrow> string \<Rightarrow> string \<Rightarrow> string result" where
  "put cap buf s = (if length buf + length s \<le> cap then Inr (buf @ s) else undef Out_of_bounds)"

lemma put_ok [simp]: "length buf + length s \<le> cap \<Longrightarrow> put cap buf s = Inr (buf @ s)"
  by (simp add: put_def)

lemma put_eq_Inr: "put cap buf s = Inr b \<longleftrightarrow> length buf + length s \<le> cap \<and> b = buf @ s"
  by (auto simp: put_def)

section \<open>Splitting at a separator\<close>

fun split_on :: "'a \<Rightarrow> 'a list \<Rightarrow> 'a list list" where
  "split_on d [] = [[]]"
| "split_on d (x # xs) =
     (if x = d then [] # split_on d xs
      else (x # hd (split_on d xs)) # tl (split_on d xs))"

lemma split_on_not_Nil [simp]: "split_on d xs \<noteq> []"
  by (cases xs) simp_all

lemma split_on_none: "d \<notin> set xs \<Longrightarrow> split_on d xs = [xs]"
  by (induction xs) auto

lemma split_on_sep: "d \<notin> set xs \<Longrightarrow> split_on d (xs @ d # ys) = xs # split_on d ys"
  by (induction xs) auto

lemma split_on_parts: "ys \<in> set (split_on d xs) \<Longrightarrow> d \<notin> set ys"
proof (induction xs arbitrary: ys)
  case (Cons x xs)
  have "hd (split_on d xs) \<in> set (split_on d xs)" by simp
  moreover have "z \<in> set (split_on d xs)" if "z \<in> set (tl (split_on d xs))" for z
    using that by (cases "split_on d xs") simp_all
  ultimately show ?case using Cons by (auto split: if_splits)
qed simp

lemma length_split_on: "length (split_on d xs) = Suc (count_list xs d)"
  by (induction xs) auto

text \<open>Splitting undoes joining parts that do not hold the separator.\<close>

fun join :: "'a \<Rightarrow> 'a list list \<Rightarrow> 'a list" where
  "join d [] = []"
| "join d [w] = w"
| "join d (w # v # ws) = w @ d # join d (v # ws)"

lemma split_on_join:
  "ws \<noteq> [] \<Longrightarrow> \<forall>w \<in> set ws. d \<notin> set w \<Longrightarrow> split_on d (join d ws) = ws"
  by (induction d ws rule: join.induct) (auto simp: split_on_none split_on_sep)

lemma not_in_join: "c \<noteq> d \<Longrightarrow> \<forall>w \<in> set ws. c \<notin> set w \<Longrightarrow> c \<notin> set (join d ws)"
  by (induction d ws rule: join.induct) auto

lemma join_split_on:
 "join d (split_on d xs) = xs"
proof (induction xs)
  case (Cons x xs)
  obtain w ws where sp: "split_on d xs = w # ws" by (cases "split_on d xs") auto
  show ?case using Cons.IH by (cases ws) (auto simp: sp)
qed simp

end
