(* ===== verification/Smack_Num.thy ===== *)
theory Smack_Num
  imports Smack_Prelude
begin

text \<open>
  The number routines of the C library that the sources use: \<open>atoi\<close>, and the integer conversions of
  \<open>printf\<close> (\<open>%d\<close>, \<open>%i\<close>, \<open>%u\<close> with the flags \<open>-\<close> and \<open>0\<close> and a width, and \<open>%*d\<close>).  The lemmas show
  that \<open>atoi\<close> reads back what \<open>printf\<close> wrote, whatever the padding, which makes the printed form
  injective.
\<close>

section \<open>Decimal digits\<close>

definition digit_char :: "nat \<Rightarrow> char" where
  "digit_char n = char_of (48 + n)"

fun dec :: "nat \<Rightarrow> string" where
  "dec n = (if n < 10 then [digit_char n] else dec (n div 10) @ [digit_char (n mod 10)])"

declare dec.simps [simp del]

fun digits_from :: "nat \<Rightarrow> string \<Rightarrow> nat" where
  "digits_from acc [] = acc"
| "digits_from acc (c # cs) =
     (if isdigit c then digits_from (10 * acc + digit_val c) cs else acc)"

lemma of_char_digit: "n < 10 \<Longrightarrow> (of_char (digit_char n) :: nat) = 48 + n"
  by (simp add: digit_char_def)

lemma isdigit_digit_char [simp]: "n < 10 \<Longrightarrow> isdigit (digit_char n)"
  by (simp add: isdigit_def of_char_digit)

lemma digit_val_digit_char [simp]: "n < 10 \<Longrightarrow> digit_val (digit_char n) = n"
  by (simp add: digit_val_def of_char_digit)

lemma isspace_not_digit: "isdigit c \<Longrightarrow> \<not> isspace c"
  by (auto simp: char_class_defs)

lemma isdigit_no_sign: "isdigit c \<Longrightarrow> c \<noteq> CHR ''-'' \<and> c \<noteq> CHR ''+'' \<and> c \<noteq> NUL"
  by (auto simp: isdigit_def Let_def)

lemma not_isdigit_space [simp]: "\<not> isdigit (CHR '' '')"
  by (simp add: isdigit_def)

lemma isdigit_zero [simp]: "isdigit (CHR ''0'')" "digit_val (CHR ''0'') = 0"
  by (simp_all add: isdigit_def digit_val_def)

lemma dec_not_Nil [simp]: "dec n \<noteq> []"
  by (subst dec.simps) simp

lemma dec_digits: "list_all isdigit (dec n)"
  by (induction n rule: dec.induct) (subst dec.simps, simp)

lemma digits_from_append:
  "list_all isdigit ds \<Longrightarrow> digits_from acc (ds @ r) = digits_from (digits_from acc ds) r"
  by (induction ds arbitrary: acc) auto

lemma digits_from_dec: "digits_from 0 (dec n) = n"
proof (induction n rule: dec.induct)
  case (1 n)
  show ?case
  proof (cases "n < 10")
    case True
    then show ?thesis by (simp add: dec.simps [of n])
  next
    case False
    then have "dec n = dec (n div 10) @ [digit_char (n mod 10)]" by (simp add: dec.simps [of n])
    with 1 False show ?thesis by (simp add: digits_from_append dec_digits)
  qed
qed

lemma digits_from_stop: "r = [] \<or> \<not> isdigit (hd r) \<Longrightarrow> digits_from acc r = acc"
  by (cases r) auto

lemma digits_from_zeros: "digits_from 0 (replicate k (CHR ''0'') @ r) = digits_from 0 r"
  by (induction k) simp_all

lemma dec_hd: "isdigit (hd (dec n))"
  using dec_digits [of n] by (cases "dec n") auto

section \<open>atoi\<close>

text \<open>
  The C library's \<open>atoi\<close>: leading white space, an optional sign, digits up to the first other
  character; the value saturates at the range of \<open>long\<close> and is then cut to an \<open>int\<close>.
\<close>

definition LONG_MAX :: int where "LONG_MAX = 9223372036854775807"

definition strtol10 :: "string \<Rightarrow> int" where
  "strtol10 s =
     (case dropWhile isspace s of
        [] \<Rightarrow> 0
      | c # cs \<Rightarrow>
          if c = CHR ''-'' then max (- LONG_MAX - 1) (- int (digits_from 0 cs))
          else if c = CHR ''+'' then min LONG_MAX (int (digits_from 0 cs))
          else min LONG_MAX (int (digits_from 0 (c # cs))))"

definition atoi :: "string \<Rightarrow> int" where
  "atoi s = to_int32 (strtol10 (c_str s))"

lemma in_int_atoi [simp]: "in_int (atoi s)"
  by (simp add: atoi_def in_int_to_int32)

section \<open>Integer conversions of printf\<close>

definition dec_int :: "int \<Rightarrow> string" where
  "dec_int i = (if i < 0 then CHR ''-'' # dec (nat (- i)) else dec (nat i))"

text \<open>Padding to a field width: with \<open>-\<close> on the right, with \<open>0\<close> by zeros after the sign, else on
  the left by blanks.\<close>

definition pad_int :: "bool \<Rightarrow> bool \<Rightarrow> nat \<Rightarrow> int \<Rightarrow> string" where
  "pad_int left zero w i =
     (let body = dec_int i; k = w - length body
      in if left then body @ replicate k (CHR '' '')
         else if zero then
           (if i < 0 then CHR ''-'' # replicate k (CHR ''0'') @ dec (nat (- i))
            else replicate k (CHR ''0'') @ body)
         else replicate k (CHR '' '') @ body)"

text \<open>\<open>printf("%*d", width, i)\<close>: a negative width means left-justified.\<close>

definition star_d :: "int \<Rightarrow> int \<Rightarrow> string" where
  "star_d width i = pad_int (width < 0) False (nat \<bar>width\<bar>) i"

text \<open>One conversion specification after its \<open>%\<close>: flags, width, conversion character, the rest.\<close>

definition conv_spec :: "string \<Rightarrow> (string \<times> nat \<times> char \<times> string) option" where
  "conv_spec s =
     (let flags = takeWhile (\<lambda>c. c = CHR ''-'' \<or> c = CHR ''0'') s;
          s1 = dropWhile (\<lambda>c. c = CHR ''-'' \<or> c = CHR ''0'') s;
          width = digits_from 0 (takeWhile isdigit s1)
      in case dropWhile isdigit s1 of
           [] \<Rightarrow> None
         | c # rest \<Rightarrow> Some (flags, width, c, rest))"

lemma conv_spec_shorter: "conv_spec s = Some (fl, w, c, rest) \<Longrightarrow> length rest < length s"
proof -
  assume "conv_spec s = Some (fl, w, c, rest)"
  then have "dropWhile isdigit (dropWhile (\<lambda>c. c = CHR ''-'' \<or> c = CHR ''0'') s) = c # rest"
    by (simp add: conv_spec_def Let_def split: list.splits)
  then have "Suc (length rest) \<le> length (dropWhile (\<lambda>c. c = CHR ''-'' \<or> c = CHR ''0'') s)"
    using length_dropWhile_le [of isdigit "dropWhile (\<lambda>c. c = CHR ''-'' \<or> c = CHR ''0'') s"]
    by simp
  with length_dropWhile_le [of _ s] show ?thesis by (metis Suc_le_lessD order.strict_trans2)
qed

text \<open>
  \<open>snprintf\<close> of a format and one \<open>int\<close> argument, without the size limit.  \<open>None\<close> for the argument
  means that it has been consumed: a second conversion reads an argument that was not passed, which is
  undefined.  Conversions other than \<open>d\<close>, \<open>i\<close>, \<open>u\<close> and a literal percent sign (among them those that do
  not take an \<open>int\<close>, such as \<open>s\<close> and \<open>n\<close>) are \<open>Bad_conversion\<close>.
\<close>

function format1 :: "string \<Rightarrow> int option \<Rightarrow> string result" where
  "format1 [] a = Inr []"
| "format1 (c # cs) a =
     (if c \<noteq> CHR ''%'' then mapR (Cons c) (format1 cs a)
      else case conv_spec cs of
          None \<Rightarrow> undef Bad_conversion
        | Some (flags, width, conv, rest) \<Rightarrow>
            if conv = CHR ''%'' then mapR (Cons (CHR ''%'')) (format1 rest a)
            else (case a of
                None \<Rightarrow> undef Bad_conversion
              | Some i \<Rightarrow>
                  if conv = CHR ''d'' \<or> conv = CHR ''i'' \<or> conv = CHR ''u'' then
                    mapR ((@) (pad_int (CHR ''-'' \<in> set flags) (CHR ''0'' \<in> set flags) width
                           (if conv = CHR ''u'' then i mod 4294967296 else i)))
                      (format1 rest None)
                  else undef Bad_conversion))"
  by pat_completeness auto
termination
  by (relation "measure (\<lambda>(s, a). length s)") (auto dest: conv_spec_shorter)

section \<open>Reading back what was printed\<close>

lemma strtol10_spaces: "strtol10 (replicate k (CHR '' '') @ s) = strtol10 s"
  by (induction k) (simp_all add: strtol10_def isspace_def)

lemma strtol10_digits:
  assumes "ds \<noteq> []" "list_all isdigit ds" "r = [] \<or> \<not> isdigit (hd r)"
    and "int (digits_from 0 ds) \<le> LONG_MAX"
  shows "strtol10 (ds @ r) = int (digits_from 0 ds)"
    and "strtol10 (CHR ''-'' # ds @ r) = - int (digits_from 0 ds)"
proof -
  obtain c cs where ds: "ds = c # cs" using assms(1) by (cases ds) auto
  with assms(2) have "isdigit c" by simp
  then have c: "\<not> isspace c" "c \<noteq> CHR ''-''" "c \<noteq> CHR ''+''"
    using isspace_not_digit isdigit_no_sign by blast+
  have eq: "digits_from 0 (ds @ r) = digits_from 0 ds"
    using assms(2,3) by (simp add: digits_from_append digits_from_stop)
  show "strtol10 (ds @ r) = int (digits_from 0 ds)"
    using c eq assms(4) by (simp add: strtol10_def ds min_def)
  show "strtol10 (CHR ''-'' # ds @ r) = - int (digits_from 0 ds)"
    using eq assms(4) by (simp add: strtol10_def isspace_def max_def LONG_MAX_def)
qed

lemma pad_int_no_NUL: "NUL \<notin> set (pad_int l z w i)"
proof -
  have "NUL \<notin> set (dec n)" for n
    using dec_digits [of n] isdigit_no_sign by (auto simp: list_all_iff)
  then show ?thesis by (auto simp: pad_int_def dec_int_def Let_def)
qed

lemma list_all_zeros [simp]: "list_all isdigit (replicate k (CHR ''0''))"
  by (simp add: list_all_iff)

lemma hd_replicate_space: "replicate k (CHR '' '') = [] \<or> \<not> isdigit (hd (replicate k (CHR '' '')))"
  by (cases k) simp_all

lemma in_int_LONG_MAX: "in_int i \<Longrightarrow> \<bar>i\<bar> \<le> LONG_MAX"
  by (auto simp: int_range_defs LONG_MAX_def)

lemma strtol10_pad_int:
  assumes "in_int i" and "r = [] \<or> \<not> isdigit (hd r)"
  shows "strtol10 (pad_int l z w i @ r) = i"
proof -
  let ?k = "w - length (dec_int i)"
  let ?r = "if l then replicate ?k (CHR '' '') @ r else r"
  let ?zs = "if \<not> l \<and> z then replicate ?k (CHR ''0'') else []"
  let ?ds = "?zs @ dec (nat \<bar>i\<bar>)"
  have val: "int (digits_from 0 ?ds) = \<bar>i\<bar>"
    by (simp add: digits_from_zeros digits_from_dec)
  have r: "?r = [] \<or> \<not> isdigit (hd ?r)"
    using assms(2) hd_replicate_space [of ?k] by (cases ?k) auto
  have ds: "?ds \<noteq> []" "list_all isdigit ?ds" by (simp_all add: dec_digits)
  have bnd: "int (digits_from 0 ?ds) \<le> LONG_MAX"
    using val in_int_LONG_MAX [OF assms(1)] by simp
  have body: "strtol10 ((if i < 0 then CHR ''-'' # ?ds @ ?r else ?ds @ ?r)) = i"
    using strtol10_digits [OF ds r bnd] val by auto
  show ?thesis
  proof (cases "i < 0")
    case True
    then show ?thesis using body
      by (cases l; cases z) (simp_all add: pad_int_def dec_int_def Let_def strtol10_spaces)
  next
    case False
    then show ?thesis using body
      by (cases l; cases z) (simp_all add: pad_int_def dec_int_def Let_def strtol10_spaces)
  qed
qed

lemma atoi_pad_int: "in_int i \<Longrightarrow> atoi (pad_int l z w i) = i"
  using strtol10_pad_int [of i "[]" l z w] pad_int_no_NUL [of l z w i]
  by (simp add: atoi_def c_str_id)

lemma pad_int_inj: "in_int i \<Longrightarrow> in_int j \<Longrightarrow> pad_int l z w i = pad_int l z w j \<longleftrightarrow> i = j"
  using atoi_pad_int by metis

lemma dec_int_pad: "dec_int i = pad_int False False 0 i"
  by (simp add: pad_int_def)

lemma atoi_dec_int: "in_int i \<Longrightarrow> atoi (dec_int i) = i"
  by (simp add: dec_int_pad atoi_pad_int)

lemma length_dec: "n < 10 ^ k \<Longrightarrow> 0 < k \<Longrightarrow> length (dec n) \<le> k"
proof (induction k arbitrary: n)
  case (Suc k)
  show ?case
  proof (cases "n < 10")
    case True
    then show ?thesis by (simp add: dec.simps [of n])
  next
    case False
    have "n div 10 < 10 ^ k" using Suc.prems(1) by (simp add: less_mult_imp_div_less mult.commute)
    moreover from this False have "0 < k" by (cases k) simp_all
    ultimately show ?thesis using Suc.IH [of "n div 10"] False by (simp add: dec.simps [of n])
  qed
qed simp

lemma length_dec_int: "0 \<le> i \<Longrightarrow> i \<le> INT_MAX \<Longrightarrow> length (dec_int i) \<le> 10"
  using length_dec [of "nat i" 10] by (simp add: dec_int_def INT_MAX_def nat_less_iff)

lemma length_pad_int: "length (pad_int l z w i) = max w (length (dec_int i))"
  by (auto simp: pad_int_def dec_int_def Let_def)

end
