(* ===== verification/Smack_Path.thy ===== *)
theory Smack_Path
  imports Smack_Prelude
begin

text \<open>
  \<^verbatim>\<open>src/libsmack.cc\<close>: the path of a data file, built by \<open>mk_data_path\<close> in a fixed array of the
  caller, and the shell command of \<open>populate_data_file\<close>.  The array is modelled byte by byte, so that the
  lemmas can say what is written, that nothing is written outside it, and when the result is a
  terminated string.
\<close>

section \<open>Arrays of bytes\<close>

definition MAX_PATH :: nat where "MAX_PATH = 128"

text \<open>\<open>memcpy\<close> to an offset, and the bytes \<open>strncpy\<close> writes: the source cut or padded with NUL.\<close>

definition write_at :: "nat \<Rightarrow> string \<Rightarrow> string \<Rightarrow> string result" where
  "write_at i s buf =
     (if i + length s \<le> length buf then Inr (take i buf @ s @ drop (i + length s) buf)
      else undef Out_of_bounds)"

definition strncpy_bytes :: "nat \<Rightarrow> string \<Rightarrow> string" where
  "strncpy_bytes n src = take n src @ replicate (n - length src) NUL"

text \<open>Reading a C string from an array runs off its end when there is no NUL in it.\<close>

definition read_cstr :: "string \<Rightarrow> string result" where
  "read_cstr arr = (if NUL \<in> set arr then Inr (c_str arr) else undef Unterminated)"

section \<open>mk_data_path\<close>

text \<open>
  The arguments: the global \<open>datadir\<close> (a pointer, \<open>None\<close> for NULL), the file name and the caller's
  array.  The result: the array afterwards and the array the returned pointer points to.  The byte
  before the end of an empty \<open>datadir\<close> is read at \<open>buf - 1\<close>, outside the array.
\<close>

definition mk_data_path :: "string option \<Rightarrow> string \<Rightarrow> string \<Rightarrow> (string \<times> string) result" where
  "mk_data_path datadir file buf =
     (case datadir of
        None \<Rightarrow> Inr (buf, file @ [NUL])
      | Some dir \<Rightarrow>
          if file \<noteq> [] \<and> hd file = CHR ''/'' then Inr (buf, file @ [NUL])
          else
            let datadir_len = length dir
            in if datadir_len > MAX_PATH - 3 then die Datadir_too_long
               else bindR (write_at 0 dir buf) (\<lambda>buf.
                 if datadir_len = 0 then undef Out_of_bounds
                 else if buf ! (datadir_len - 1) \<noteq> CHR ''/'' then
                   bindR (write_at datadir_len ''/'' buf) (\<lambda>buf.
                     mapR (\<lambda>buf. (buf, buf))
                       (write_at (datadir_len + 1) (strncpy_bytes (MAX_PATH - datadir_len - 1) file) buf))
                 else
                   mapR (\<lambda>buf. (buf, buf))
                     (write_at datadir_len (strncpy_bytes (MAX_PATH - datadir_len - 1) file) buf)))"

definition data_path :: "string option \<Rightarrow> string \<Rightarrow> string \<Rightarrow> string result" where
  "data_path datadir file buf = bindR (mk_data_path datadir file buf) (\<lambda>(_, ret). read_cstr ret)"

text \<open>\<open>populate_data_file\<close>: the command handed to \<open>system\<close>, whose status it returns.\<close>

definition populate_data_file :: "(string \<Rightarrow> 'w \<Rightarrow> int \<times> 'w) \<Rightarrow> string \<Rightarrow> string \<Rightarrow> 'w \<Rightarrow> int \<times> 'w" where
  "populate_data_file system file cmd = system (cmd @ '' > '' @ file)"

text \<open>What the callers expect of \<open>mk_data_path\<close>: the directory and the file with one slash between.\<close>

definition joined_path :: "string \<Rightarrow> string \<Rightarrow> string" where
  "joined_path dir file = (if last dir = CHR ''/'' then dir @ file else dir @ ''/'' @ file)"

section \<open>Lemmas\<close>

lemma length_strncpy [simp]: "length (strncpy_bytes n s) = n"
  by (simp add: strncpy_bytes_def)

lemma c_str_append: "NUL \<notin> set a \<Longrightarrow> c_str (a @ b) = a @ c_str b"
  unfolding c_str_def by (rule takeWhile_append2) auto

lemma c_str_snoc_NUL: "NUL \<notin> set s \<Longrightarrow> c_str (s @ [NUL]) = s"
  by (simp add: c_str_append) (simp add: c_str_def)

lemma c_str_Cons: "c \<noteq> NUL \<Longrightarrow> c_str (c # s) = c # c_str s"
  by (simp add: c_str_def)

lemma read_cstr_short:
  assumes "NUL \<notin> set a" "NUL \<notin> set s" "length s < n"
  shows "read_cstr (a @ strncpy_bytes n s @ r) = Inr (a @ s)"
proof -
  obtain k where k: "replicate (n - length s) NUL = NUL # replicate k NUL"
    using assms(3) by (cases "n - length s") auto
  have bytes: "strncpy_bytes n s = s @ NUL # replicate k NUL"
    using assms(3) k by (simp add: strncpy_bytes_def)
  have "c_str (a @ s @ NUL # replicate k NUL @ r) = a @ s @ c_str (NUL # replicate k NUL @ r)"
    using assms(1,2) by (simp add: c_str_append)
  then show ?thesis by (simp add: read_cstr_def bytes c_str_def)
qed

text \<open>The three writes together, for a directory that is not empty and not too long.\<close>

lemma mk_data_path_buffer:
  assumes "dir \<noteq> []" "length dir \<le> MAX_PATH - 3" "length buf = MAX_PATH"
    and "file = [] \<or> hd file \<noteq> CHR ''/''"
  shows "mk_data_path (Some dir) file buf =
    (let b = (if last dir = CHR ''/'' then dir @ strncpy_bytes (127 - length dir) file @ drop 127 buf
              else dir @ ''/'' @ strncpy_bytes (127 - length dir) file)
     in Inr (b, b))"
proof -
  have len: "length dir \<le> 125" "length buf = 128" using assms(2,3) by (simp_all add: MAX_PATH_def)
  have w0: "write_at 0 dir buf = Inr (dir @ drop (length dir) buf)"
    using len by (simp add: write_at_def)
  have lastd: "(dir @ drop (length dir) buf) ! (length dir - Suc 0) = last dir"
    using assms(1) by (simp add: nth_append last_conv_nth)
  have rel: "\<not> (file \<noteq> [] \<and> hd file = CHR ''/'')" using assms(4) by auto
  show ?thesis
    using assms(1) len rel
    by (auto simp: mk_data_path_def Let_def MAX_PATH_def w0 lastd write_at_def)
qed



text \<open>
  The size check of \<open>mk_data_path\<close> bounds the directory only.  A relative file name that does not
  fit is cut by \<open>strncpy\<close> without a terminator: when the array held no NUL before (it is an
  uninitialised local of the callers), every long enough name makes the callers read past the end of the
  array.  An empty directory is read one byte before the array.
\<close>

lemma mk_data_path_unterminated:
  assumes "dir \<noteq> []" "NUL \<notin> set dir" "length dir \<le> MAX_PATH - 3" "length buf = MAX_PATH"
    and "NUL \<notin> set buf" "hd file \<noteq> CHR ''/''" "NUL \<notin> set file"
    and "MAX_PATH - 1 - length dir \<le> length file"
  shows "data_path (Some dir) file buf = undef Unterminated
    \<and> data_path (Some []) file buf = undef Out_of_bounds"
proof
  have bytes: "strncpy_bytes (127 - length dir) file = take (127 - length dir) file"
    using assms(8) by (simp add: strncpy_bytes_def MAX_PATH_def)
  have "NUL \<notin> set (take (127 - length dir) file)" "NUL \<notin> set (drop 127 buf)"
    using assms(5,7) by (auto dest: in_set_takeD in_set_dropD)
  then show "data_path (Some dir) file buf = undef Unterminated"
    using mk_data_path_buffer [OF assms(1,3,4)] assms(2,6)
    by (auto simp: data_path_def Let_def bytes read_cstr_def)
  show "data_path (Some []) file buf = undef Out_of_bounds"
    using assms(6) by (auto simp: data_path_def mk_data_path_def write_at_def Let_def)
qed

text \<open>An absolute file name, or any name without a data directory, is used as it is.\<close>

lemma data_path_absolute: "NUL \<notin> set fname \<Longrightarrow> data_path (Some dir) (CHR ''/'' # fname) buf = Inr (CHR ''/'' # fname)"
  and data_path_no_datadir: "NUL \<notin> set fname \<Longrightarrow> data_path None fname buf = Inr fname"
  by (simp_all add: data_path_def mk_data_path_def read_cstr_def c_str_Cons c_str_snoc_NUL)

end
