(* ===== verification/Smack_Dict.thy ===== *)
theory Smack_Dict
  imports Smack_Num Smack_Path
begin

text \<open>
  \<^verbatim>\<open>src/dictionary.h\<close> and \<^verbatim>\<open>src/dictionary.cc\<close>: the three kinds of dictionary, how they are filled
  (\<open>load_file\<close>, \<open>load_list\<close>, \<open>set_template\<close>) and how they give out words (\<open>next_word\<close>).  The class
  hierarchy is a record extended by the subclasses; the virtual \<open>next_word\<close> is a case distinction on the
  sum type \<open>dict\<close>.  The random generator \<open>rand()\<close> is a parameter with its own state.
\<close>

section \<open>State\<close>

record dictionary =
  words :: "string list"
  dict_name :: string
  max_field_size :: int
  min_field_size :: int
  delim :: char
  file_size_equiv :: int

record seq_dictionary = dictionary +
  cur_word_ind :: int

record unique_dictionary = dictionary +
  uid :: int
  templ :: string
  buf_size :: int

datatype dict =
    Rand_dictionary dictionary
  | Seq_dictionary seq_dictionary
  | Unique_dictionary unique_dictionary

definition NL :: char where "NL = CHR 0x0A"

text \<open>Lines of text, each ended by \<open>endl\<close>.\<close>

definition unlines :: "string list \<Rightarrow> string" where
  "unlines ls = concat (map (\<lambda>l. l @ [NL]) ls)"

lemma unlines_simps [simp]: "unlines [] = []" "unlines (l # ls) = l @ NL # unlines ls"
  by (simp_all add: unlines_def)

definition MAX_FILE_LINE :: nat where "MAX_FILE_LINE = 512"
definition MAX_UNIQUE :: nat where "MAX_UNIQUE = 512"

definition new_Dictionary :: dictionary where
  "new_Dictionary = \<lparr>words = [], dict_name = '''', max_field_size = 0, min_field_size = 0,
     delim = NL, file_size_equiv = 0\<rparr>"

definition new_Rand_dictionary :: dictionary where
  "new_Rand_dictionary = new_Dictionary"

definition new_Seq_dictionary :: seq_dictionary where
  "new_Seq_dictionary = dictionary.extend new_Dictionary \<lparr>cur_word_ind = 0\<rparr>"

definition new_Unique_dictionary :: unique_dictionary where
  "new_Unique_dictionary =
     dictionary.extend new_Dictionary \<lparr>uid = 0, templ = ''%d'', buf_size = 512\<rparr>"

section \<open>Loading from a file\<close>

text \<open>
  The file system as \<open>stat\<close> and \<open>ifstream\<close> see it, the global \<open>datadir\<close>, and what an uninitialised
  local array of \<open>MAX_PATH\<close> bytes happens to hold.
\<close>

record file_info =
  st_size :: int
  can_open :: bool
  content :: string

record host =
  datadir :: "string option"
  files :: "string \<Rightarrow> file_info option"
  stack_bytes :: string

text \<open>
  \<open>istream::getline(buf, n)\<close>: nothing is read from a stream that is not good.  Otherwise up to \<open>n - 1\<close>
  characters of the line are stored; the end of the file sets \<open>eofbit\<close>, a newline is consumed, and a line
  with more characters leaves the rest in the stream and sets \<open>failbit\<close>.
\<close>

record istream =
  pending :: string
  eofbit :: bool
  failbit :: bool

definition open_stream :: "string \<Rightarrow> istream" where
  "open_stream s = \<lparr>pending = s, eofbit = False, failbit = False\<rparr>"

definition getline :: "nat \<Rightarrow> istream \<Rightarrow> string \<times> istream" where
  "getline n s =
     (if eofbit s \<or> failbit s then ([], s\<lparr>failbit := True\<rparr>)
      else
        let l = takeWhile (\<lambda>c. c \<noteq> NL) (pending s);
            r = dropWhile (\<lambda>c. c \<noteq> NL) (pending s)
        in if length l \<le> n - 1 then
             (case r of
                [] \<Rightarrow> (l, s\<lparr>pending := [], eofbit := True, failbit := l = []\<rparr>)
              | _ # rest \<Rightarrow> (l, s\<lparr>pending := rest\<rparr>))
           else (take (n - 1) l, s\<lparr>pending := drop (n - 1) (pending s), failbit := True\<rparr>))"

text \<open>The line up to its delimiter: \<open>strchr\<close> and a NUL written there.\<close>

definition cut_at :: "char \<Rightarrow> string \<Rightarrow> string" where
  "cut_at d buf = takeWhile (\<lambda>c. c \<noteq> d) (c_str buf)"

function load_lines :: "int \<Rightarrow> char \<Rightarrow> istream \<Rightarrow> int \<Rightarrow> string list \<Rightarrow> string list result" where
  "load_lines step d s line ws =
     (if eofbit s then Inr ws
      else
        let (buf, s') = getline MAX_FILE_LINE s
        in if eofbit s' then Inr ws
           else
             let ws' = (if line smod step \<noteq> 0 then ws else ws @ [cut_at d buf])
             in if in_int (line + 1) then load_lines step d s' (line + 1) ws'
                else undef Signed_overflow)"
  by pat_completeness auto
termination
  by (relation "measure (\<lambda>(step, d, s, line, ws). nat (INT_MAX - line))")
     (auto simp: in_int_def)

declare load_lines.simps [simp del]

definition load_file :: "host \<Rightarrow> string \<Rightarrow> 'a dictionary_scheme \<Rightarrow> (int \<times> 'a dictionary_scheme) result" where
  "load_file h fname dict =
     bindR (data_path (datadir h) fname (stack_bytes h)) (\<lambda>path.
       case files h path of
         None \<Rightarrow> Inr (-1, dict)
       | Some f \<Rightarrow>
           let step = (if file_size_equiv dict \<noteq> 0 then to_int32 (st_size f sdiv file_size_equiv dict) else 1);
               step = (if step = 0 then step + 1 else step)
           in if \<not> can_open f then Inr (-1, dict)
              else mapR (\<lambda>ws. (0, dict\<lparr>words := ws\<rparr>))
                     (load_lines step (delim dict) (open_stream (content f)) 1 (words dict)))"

section \<open>Loading from a list\<close>

text \<open>
  The loop of \<open>load_list\<close>: the words so far, the current word, \<open>escaped\<close>.  The case of the backslash
  falls through to the default case.
\<close>

fun load_list_loop :: "string \<Rightarrow> string list \<Rightarrow> string \<Rightarrow> bool \<Rightarrow> string list" where
  "load_list_loop [] ws word_buf escaped = ws"
| "load_list_loop (c # cs) ws word_buf escaped =
     (if c = CHR '','' then
        (if escaped then load_list_loop cs ws (word_buf @ [c]) False
         else load_list_loop cs (ws @ [word_buf]) [] escaped)
      else
        let (word_buf, escaped) =
          (if c = CHR 0x5C then (if escaped then (word_buf @ [c], escaped) else (word_buf, True))
           else (word_buf, escaped))
        in load_list_loop cs ws (word_buf @ [c]) False)"

definition load_list :: "string \<Rightarrow> 'a dictionary_scheme \<Rightarrow> 'a dictionary_scheme" where
  "load_list list_str dict = dict\<lparr>words := load_list_loop (c_str list_str) (words dict) [] False\<rparr>"

section \<open>Templates\<close>

text \<open>The loop of \<open>fix_template\<close>: the template built so far, \<open>saw_field\<close>, \<open>last_percent\<close>.\<close>

fun fix_template_loop :: "string \<Rightarrow> string \<Rightarrow> bool \<Rightarrow> bool \<Rightarrow> string" where
  "fix_template_loop [] t saw_field last_percent = t"
| "fix_template_loop (c # cs) t saw_field last_percent =
     (if c = CHR ''%'' then fix_template_loop cs t saw_field True
      else if last_percent then
        (if saw_field then t
         else fix_template_loop cs (t @ [CHR ''%'', c]) True False)
      else fix_template_loop cs (t @ [c]) saw_field False)"

definition fix_template :: "string \<Rightarrow> string" where
  "fix_template t = fix_template_loop t [] False False"

definition set_template :: "string \<Rightarrow> unique_dictionary \<Rightarrow> unique_dictionary" where
  "set_template t d = d\<lparr>templ := fix_template t, buf_size := int (length t) + 512\<rparr>"

section \<open>Giving out words\<close>

definition seq_next_word :: "seq_dictionary \<Rightarrow> (string \<times> seq_dictionary) result" where
  "seq_next_word d =
     (let i = cur_word_ind d
      in if 0 \<le> i \<and> i < int (length (words d)) then
           let i' = i + 1
           in Inr (words d ! nat i,
                d\<lparr>cur_word_ind := if i' = int (length (words d)) then 0 else i'\<rparr>)
         else undef Out_of_bounds)"

definition rand_next_word :: "('g \<Rightarrow> nat \<times> 'g) \<Rightarrow> 'a dictionary_scheme \<times> 'g \<Rightarrow>
    (string \<times> 'a dictionary_scheme \<times> 'g) result" where
  "rand_next_word rand = (\<lambda>(d, g).
     let (r, g') = rand g
     in if words d = [] then undef Div_by_zero
        else Inr (words d ! (r mod length (words d)), d, g'))"

definition unique_next_word :: "unique_dictionary \<Rightarrow> (string \<times> unique_dictionary) result" where
  "unique_next_word d =
     bindR (chk (uid d + 1)) (\<lambda>i'.
       mapR (\<lambda>s. (take (MAX_UNIQUE - 1) s, d\<lparr>uid := i'\<rparr>)) (format1 (c_str (templ d)) (Some (uid d))))"

definition next_word :: "('g \<Rightarrow> nat \<times> 'g) \<Rightarrow> dict \<times> 'g \<Rightarrow> (string \<times> dict \<times> 'g) result" where
  "next_word rand = (\<lambda>(dict, g).
     case dict of
       Rand_dictionary d \<Rightarrow> mapR (\<lambda>(w, d', g'). (w, Rand_dictionary d', g')) (rand_next_word rand (d, g))
     | Seq_dictionary d \<Rightarrow> mapR (\<lambda>(w, d'). (w, Seq_dictionary d', g)) (seq_next_word d)
     | Unique_dictionary d \<Rightarrow> mapR (\<lambda>(w, d'). (w, Unique_dictionary d', g)) (unique_next_word d))"

text \<open>Several words in a row.\<close>

fun draws :: "('d \<Rightarrow> (string \<times> 'd) result) \<Rightarrow> nat \<Rightarrow> 'd \<Rightarrow> (string list \<times> 'd) result" where
  "draws f 0 d = Inr ([], d)"
| "draws f (Suc n) d =
     bindR (f d) (\<lambda>(w, d'). mapR (\<lambda>(ws, d''). (w # ws, d'')) (draws f n d'))"

text \<open>What \<open>print()\<close> writes to the standard output.\<close>

definition print_dict :: "dict \<Rightarrow> string" where
  "print_dict dict =
     (case dict of
        Seq_dictionary d \<Rightarrow> ''seq_dictionary '' @ dict_name d @ '' '' @ dec (length (words d)) @ '' words'' @ [NL]
      | Unique_dictionary d \<Rightarrow> ''unique_dictionary '' @ dict_name d @ '' '' @ templ d @ '' template'' @ [NL]
      | Rand_dictionary d \<Rightarrow> ''rand_dictionary '' @ dict_name d @ '' '' @ dec (length (words d)) @ '' words'' @ [NL])"

end
