(* ===== verification/Smack_Dict_Proofs.thy ===== *)
theory Smack_Dict_Proofs
  imports Smack_Dict
begin

text \<open>
  What the dictionaries guarantee: which lines of a file and which entries of a list become words,
  what a template looks like after \<open>fix_template\<close>, and the order in which words are given out.  The
  locales \<open>word_source\<close> and \<open>endless_source\<close> state what the query expansion relies on; they are
  interpreted on the three \<open>next_word\<close> operations.
\<close>

section \<open>Reading lines\<close>

lemma takeWhile_not_in: "d \<notin> set l \<Longrightarrow> takeWhile (\<lambda>c. c \<noteq> d) (l @ d # r) = l"
  by (induction l) auto

lemma dropWhile_not_in: "d \<notin> set l \<Longrightarrow> dropWhile (\<lambda>c. c \<noteq> d) (l @ d # r) = d # r"
  by (induction l) auto

lemma takeWhile_all: "d \<notin> set l \<Longrightarrow> takeWhile (\<lambda>c. c \<noteq> d) l = l"
  by (induction l) auto

lemma dropWhile_all: "d \<notin> set l \<Longrightarrow> dropWhile (\<lambda>c. c \<noteq> d) l = []"
  by (induction l) auto

lemma getline_line:
  "NL \<notin> set l \<Longrightarrow> length l \<le> 511 \<Longrightarrow>
   getline MAX_FILE_LINE (open_stream (l @ NL # r)) = (l, open_stream r)"
  by (simp add: getline_def open_stream_def takeWhile_not_in dropWhile_not_in MAX_FILE_LINE_def)

lemma getline_last:
  "NL \<notin> set l \<Longrightarrow> length l \<le> 511 \<Longrightarrow> eofbit (snd (getline MAX_FILE_LINE (open_stream l)))"
  by (simp add: getline_def open_stream_def takeWhile_all dropWhile_all MAX_FILE_LINE_def)

lemma getline_long:
  assumes "511 < length (takeWhile (\<lambda>c. c \<noteq> NL) s)"
  shows "failbit (snd (getline MAX_FILE_LINE (open_stream s)))
    \<and> \<not> eofbit (snd (getline MAX_FILE_LINE (open_stream s)))"
  using assms by (simp add: getline_def open_stream_def MAX_FILE_LINE_def)

lemma getline_stuck:
  "failbit s \<Longrightarrow> \<not> eofbit s \<Longrightarrow>
   failbit (snd (getline n s)) \<and> \<not> eofbit (snd (getline n s))"
  by (simp add: getline_def)

text \<open>A stream whose \<open>failbit\<close> is set never reaches its end: the loop runs until \<open>line\<close> overflows.\<close>

lemma load_lines_stuck:
  "failbit s \<Longrightarrow> \<not> eofbit s \<Longrightarrow> load_lines step d s line ws = undef Signed_overflow"
proof (induction step d s line ws rule: load_lines.induct)
  case (1 step d s line ws)
  obtain buf s' where g: "getline MAX_FILE_LINE s = (buf, s')" by fastforce
  with getline_stuck [OF 1(2,3), of MAX_FILE_LINE] have s': "failbit s'" "\<not> eofbit s'" by simp_all
  show ?case
    by (subst load_lines.simps)
       (use "1.IH" [OF "1.prems"(2) g [symmetric] refl s'(2) refl] s' "1.prems" g in
          \<open>simp add: Let_def split: if_splits\<close>)
qed

text \<open>The lines that are kept: those whose number, counted from \<open>n\<close>, is a multiple of \<open>step\<close>.\<close>

fun selected :: "int \<Rightarrow> int \<Rightarrow> 'a list \<Rightarrow> 'a list" where
  "selected step n [] = []"
| "selected step n (l # ls) =
     (if n smod step = 0 then l # selected step (n + 1) ls else selected step (n + 1) ls)"

lemma load_lines_first:
  assumes "NL \<notin> set l" "length l \<le> 511" "in_int (line + 1)"
  shows "load_lines step d (open_stream (l @ NL # r)) line ws =
    load_lines step d (open_stream r) (line + 1)
      (if line smod step \<noteq> 0 then ws else ws @ [cut_at d l])"
  using assms by (subst load_lines.simps) (simp add: getline_line, simp add: open_stream_def)

lemma load_lines_last:
  assumes "NL \<notin> set l" "length l \<le> 511"
  shows "load_lines step d (open_stream l) line ws = Inr ws"
  using getline_last [OF assms]
  by (subst load_lines.simps) (simp add: Let_def case_prod_unfold)

lemma split_first_line: "NL \<in> set s \<Longrightarrow> \<exists>l r. s = l @ NL # r \<and> NL \<notin> set l"
  by (metis split_list_first)

lemma load_lines_all:
  assumes "\<forall>l \<in> set (split_on NL s). length l \<le> 511" and "in_int line"
    and "line + int (length (split_on NL s)) \<le> INT_MAX + 1"
  shows "load_lines step d (open_stream s) line ws =
    Inr (ws @ map (cut_at d) (selected step line (butlast (split_on NL s))))"
  using assms
proof (induction "length s" arbitrary: s line ws rule: less_induct)
  case less
  show ?case
  proof (cases "NL \<in> set s")
    case False
    then have sp: "split_on NL s = [s]" by (rule split_on_none)
    with less.prems(1) have "length s \<le> 511" by simp
    from load_lines_last [OF False this] show ?thesis by (simp add: sp)
  next
    case True
    then obtain l r where s: "s = l @ NL # r" and l: "NL \<notin> set l"
      using split_first_line by blast
    have sp: "split_on NL s = l # split_on NL r" unfolding s using l by (rule split_on_sep)
    have len: "1 \<le> int (length (split_on NL r))" using split_on_not_Nil [of NL r]
      by (cases "split_on NL r") auto
    have "line + 1 + int (length (split_on NL r)) \<le> INT_MAX + 1"
      using less.prems(3) by (simp add: sp)
    with len less.prems(2) have nxt: "in_int (line + 1)"
      unfolding in_int_def by linarith
    let ?ws = "if line smod step \<noteq> 0 then ws else ws @ [cut_at d l]"
    have "load_lines step d (open_stream s) line ws =
        load_lines step d (open_stream r) (line + 1) ?ws"
      unfolding s using less.prems(1) sp l nxt by (intro load_lines_first) simp_all
    also have "\<dots> = Inr (?ws @ map (cut_at d) (selected step (line + 1) (butlast (split_on NL r))))"
      using less.prems(1,3) sp nxt by (intro less.hyps) (simp_all add: s)
    finally show ?thesis by (simp add: sp)
  qed
qed

lemma load_lines_overlong:
  assumes "\<exists>l \<in> set (split_on NL s). 511 < length l" and "in_int line"
  shows "load_lines step d (open_stream s) line ws = undef Signed_overflow"
  using assms
proof (induction "length s" arbitrary: s line ws rule: less_induct)
  case less
  let ?l = "takeWhile (\<lambda>c. c \<noteq> NL) s"
  show ?case
  proof (cases "length ?l \<le> 511")
    case long: False
    obtain buf s' where g: "getline MAX_FILE_LINE (open_stream s) = (buf, s')" by fastforce
    with getline_long [of s] long have "failbit s'" "\<not> eofbit s'" by simp_all
    with g show ?thesis
      by (subst load_lines.simps) (simp add: open_stream_def Let_def load_lines_stuck)
  next
    case True
    have "NL \<in> set s"
    proof (rule ccontr)
      assume no: "NL \<notin> set s"
      with less.prems(1) True show False by (simp add: split_on_none takeWhile_all)
    qed
    then obtain l r where s: "s = l @ NL # r" and l: "NL \<notin> set l"
      using split_first_line by blast
    have sp: "split_on NL s = l # split_on NL r" unfolding s using l by (rule split_on_sep)
    have short: "length l \<le> 511" using True l by (simp add: s takeWhile_not_in)
    show ?thesis
    proof (cases "in_int (line + 1)")
      case True
      have "load_lines step d (open_stream s) line ws = load_lines step d (open_stream r) (line + 1)
          (if line smod step \<noteq> 0 then ws else ws @ [cut_at d l])"
        unfolding s using l short True by (intro load_lines_first) simp_all
      also have "\<dots> = undef Signed_overflow"
        using less.prems(1) sp short True by (intro less.hyps) (auto simp: s)
      finally show ?thesis .
    next
      case False
      then show ?thesis
        unfolding s using l short
        by (subst load_lines.simps) (simp add: getline_line, simp add: open_stream_def Let_def)
    qed
  qed
qed

text \<open>How many lines are kept: one in every \<open>step\<close>.\<close>

lemma div_pred:
  assumes "1 \<le> (n::int)" "0 < step"
  shows "n div step = (n - 1) div step + (if n mod step = 0 then 1 else 0)"
proof (cases "n mod step = 0")
  case True
  then obtain q where n: "n = step * q" by auto
  have "(step * q - 1) div step = q - 1"
    using assms(2) by (intro int_div_pos_eq [where r = "step - 1"]) (auto simp: algebra_simps)
  then show ?thesis using True assms(2) by (simp add: n)
next
  case False
  then have "0 < n mod step" using assms(2) pos_mod_sign [of step n] by linarith
  moreover have "n mod step < step" using assms(2) by simp
  moreover have "n - 1 = step * (n div step) + (n mod step - 1)" by simp
  ultimately have "(n - 1) div step = n div step"
    by (intro int_div_pos_eq [where r = "n mod step - 1"]) auto
  then show ?thesis using False by simp
qed

lemma length_selected_from:
  "1 \<le> n \<Longrightarrow> 0 < step \<Longrightarrow>
   int (length (selected step n ls)) = (n - 1 + int (length ls)) div step - (n - 1) div step"
proof (induction ls arbitrary: n)
  case (Cons l ls)
  have "int (length (selected step (n + 1) ls)) = (n + int (length ls)) div step - n div step"
    using Cons.IH [of "n + 1"] Cons.prems by simp
  moreover have "n smod step = n mod step" using Cons.prems by (simp add: smod_nonneg)
  ultimately show ?case
    using div_pred [of n step] Cons.prems by (auto simp: algebra_simps split: if_splits)
qed simp

lemma length_selected:
  "0 < step \<Longrightarrow> int (length (selected step 1 ls)) = int (length ls) div step"
  by (simp add: length_selected_from)

section \<open>load_file\<close>

lemmas load_file_simps = load_file_def Let_def

text \<open>
  C26: \<open>load_file\<close> keeps one line in every \<open>step\<close>, cut at the delimiter.  For a readable file whose lines
  all have at most 511 characters it returns 0, and the words added are the complete lines whose number is
  a multiple of \<open>step\<close>, in the order of the file; \<open>step\<close> is the file size divided by \<open>file_size_equiv\<close>, and
  1 when that is 0 or no equivalent size is set.  Text after the last newline is not a word.
\<close>

theorem load_file_selects:
  assumes "data_path (datadir h) fname (stack_bytes h) = Inr path" "files h path = Some f" "can_open f"
    and "\<forall>l \<in> set (split_on NL (content f)). length l \<le> 511"
    and "int (length (split_on NL (content f))) \<le> INT_MAX"
    and "0 \<le> file_size_equiv d" "0 \<le> st_size f" "st_size f \<le> INT_MAX"
  defines "step \<equiv> if file_size_equiv d = 0 then 1 else max 1 (st_size f div file_size_equiv d)"
  shows "load_file h fname d = Inr (0, d\<lparr>words := words d @
      map (cut_at (delim d)) (selected step 1 (butlast (split_on NL (content f))))\<rparr>)
    \<and> int (length (selected step 1 (butlast (split_on NL (content f)))))
      = int (length (butlast (split_on NL (content f)))) div step"
proof -
  have "st_size f div file_size_equiv d \<le> st_size f"
    using assms(6,7) zdiv_mono2 [of "st_size f" 1 "file_size_equiv d"]
    by (cases "file_size_equiv d = 0") simp_all
  moreover have nn: "0 \<le> st_size f div file_size_equiv d"
    using assms(6,7) by (cases "file_size_equiv d = 0") (simp_all add: pos_imp_zdiv_nonneg_iff)
  ultimately have "in_int (st_size f div file_size_equiv d)"
    using assms(8) unfolding int_range_defs by linarith
  then have eq: "(let s = (if file_size_equiv d \<noteq> 0 then to_int32 (st_size f sdiv file_size_equiv d) else 1)
      in if s = 0 then s + 1 else s) = step"
    using assms(6,7) nn by (auto simp: step_def sdiv_nonneg Let_def max_def)
  have "in_int 1" "0 < step" by (simp_all add: int_range_defs step_def less_max_iff_disj)
  with load_lines_all [OF assms(4), of 1 step "delim d" "words d"] assms(5)
    length_selected [of step "butlast (split_on NL (content f))"]
  show ?thesis
    using assms(1,2,3) eq by (simp add: load_file_simps cong: if_cong)
qed

definition example_host :: "string \<Rightarrow> host" where
  "example_host text =
     \<lparr>datadir = Some ''/data'',
      files = (\<lambda>p. if p = ''/data/words.dat''
                 then Some \<lparr>st_size = int (length text), can_open = True, content = text\<rparr> else None),
      stack_bytes = replicate 128 (CHR ''x'')\<rparr>"

lemma example_path:
  "data_path (datadir (example_host text)) ''words.dat'' (stack_bytes (example_host text))
     = Inr ''/data/words.dat''"
  using mk_data_path_buffer [of "''/data''" "replicate 128 (CHR ''x'')" "''words.dat''"]
  by (simp add: example_host_def data_path_def MAX_PATH_def Let_def read_cstr_def strncpy_bytes_def c_str_def)

theorem load_file_selects_witness:
  "load_file (example_host (''ab,1'' @ [NL] @ ''cd,2'' @ [NL] @ ''ef'')) ''words.dat''
     (new_Rand_dictionary\<lparr>delim := CHR '',''\<rparr>)
   = Inr (0, new_Rand_dictionary\<lparr>delim := CHR '','', words := [''ab'', ''cd'']\<rparr>)"
proof -
  let ?t = "''ab,1'' @ [NL] @ ''cd,2'' @ [NL] @ ''ef''"
  let ?h = "example_host ?t"
  let ?f = "\<lparr>st_size = int (length ?t), can_open = True, content = ?t\<rparr>"
  have parts: "split_on NL ?t = [''ab,1'', ''cd,2'', ''ef'']" by (simp add: NL_def)
  show ?thesis
    using load_file_selects [of ?h "''words.dat''" "''/data/words.dat''" ?f
        "new_Rand_dictionary\<lparr>delim := CHR '',''\<rparr>"]
    by (simp only: example_path parts file_info.simps)
       (simp add: example_host_def INT_MAX_def new_Rand_dictionary_def new_Dictionary_def
          cut_at_def c_str_def smod_nonneg)
qed

text \<open>
  C35: A line of 512 or more characters makes \<open>load_file\<close> hang.  \<open>getline\<close> then sets \<open>failbit\<close>
  without \<open>eofbit\<close>, the loop tests \<open>eof()\<close> only, and every later \<open>getline\<close> fails as well: the loop
  never leaves normally (adding empty words until \<open>line\<close> overflows), wherever in the file the line is.
\<close>

theorem load_file_overlong_hangs:
  assumes "data_path (datadir h) fname (stack_bytes h) = Inr path" "files h path = Some f" "can_open f"
    and "\<exists>l \<in> set (split_on NL (content f)). 511 < length l"
  shows "load_file h fname d = undef Signed_overflow"
proof -
  have "in_int 1" by (simp add: int_range_defs)
  from load_lines_overlong [OF assms(4) this] assms(1-3) show ?thesis
    by (simp add: load_file_simps)
qed

theorem load_file_overlong_hangs_witness:
  "load_file (example_host (replicate 600 (CHR ''a'') @ [NL])) ''words.dat'' new_Rand_dictionary
     = undef Signed_overflow"
proof -
  let ?t = "replicate 600 (CHR ''a'') @ [NL]"
  have "split_on NL ?t = [replicate 600 (CHR ''a''), []]"
    using split_on_sep [of NL "replicate 600 (CHR ''a'')" "[]"] by (simp add: NL_def)
  then have "\<exists>l \<in> set (split_on NL ?t). 511 < length l" by simp
  then show ?thesis
    using load_file_overlong_hangs [OF example_path, of "?t"
        "\<lparr>st_size = int (length ?t), can_open = True, content = ?t\<rparr>" new_Rand_dictionary]
    by (simp add: example_host_def)
qed

section \<open>load_list\<close>

lemma load_list_loop_eq:
  "load_list_loop cs ws buf False
     = ws @ butlast ((buf @ hd (split_on (CHR '','') cs)) # tl (split_on (CHR '','') cs))"
proof (induction cs arbitrary: ws buf)
  case (Cons c cs)
  obtain y ys where sp: "split_on (CHR '','') cs = y # ys" by (cases "split_on (CHR '','') cs") auto
  show ?case using Cons.IH sp by simp
qed simp

lemma load_list_eq:
  "words (load_list s d) = words d @ butlast (split_on (CHR '','') (c_str s))"
proof -
  have "hd (split_on (CHR '','') (c_str s)) # tl (split_on (CHR '','') (c_str s))
      = split_on (CHR '','') (c_str s)" by simp
  then show ?thesis by (simp add: load_list_def load_list_loop_eq)
qed

text \<open>
  C23: \<open>load_list\<close> splits its argument at every comma and loses the last entry.  The words added are all
  entries but the last, so a list joined from \<open>n\<close> entries yields \<open>n - 1\<close> words, and a list without a
  comma yields none; a backslash is an ordinary character, because the case that sets \<open>escaped\<close> falls
  through to the one that clears it, so an escaped comma separates all the same.
\<close>

lemma load_list_words:
  "words (load_list s d) = words d @ butlast (split_on (CHR '','') (c_str s))"
  by (rule load_list_eq)

lemma load_list_joined:
  assumes "ws \<noteq> []" "\<forall>w \<in> set ws. CHR '','' \<notin> set w \<and> NUL \<notin> set w"
  shows "words (load_list (join (CHR '','') ws) d) = words d @ butlast ws"
proof -
  have "NUL \<notin> set (join (CHR '','') ws)"
    using assms(2) by (induction "CHR '',''" ws rule: join.induct) auto
  then show ?thesis
    using assms load_list_eq [of "join (CHR '','') ws" d] by (simp add: c_str_id split_on_join)
qed

section \<open>fix_template\<close>

lemma fix_template_loop_break: "fix_template_loop cs t True True = t"
  by (induction cs) auto

lemma fix_template_loop_saw: "fix_template_loop cs t True False = t @ takeWhile (\<lambda>c. c \<noteq> CHR ''%'') cs"
  by (induction cs arbitrary: t) (auto simp: fix_template_loop_break)

lemma fix_template_loop_percent:
  "fix_template_loop cs t False True =
     t @ (case dropWhile (\<lambda>c. c = CHR ''%'') cs of [] \<Rightarrow> []
      | c # r \<Rightarrow> [CHR ''%'', c] @ takeWhile (\<lambda>c. c \<noteq> CHR ''%'') r)"
  by (induction cs) (auto simp: fix_template_loop_saw)

lemma fix_template_loop_start:
  "fix_template_loop cs t False False = t @ takeWhile (\<lambda>c. c \<noteq> CHR ''%'') cs @
     (case dropWhile (\<lambda>c. c = CHR ''%'') (dropWhile (\<lambda>c. c \<noteq> CHR ''%'') cs) of [] \<Rightarrow> []
      | c # r \<Rightarrow> [CHR ''%'', c] @ takeWhile (\<lambda>c. c \<noteq> CHR ''%'') r)"
proof (induction cs arbitrary: t)
  case (Cons c cs)
  then show ?case
    by (cases "c = CHR ''%''") (simp_all add: fix_template_loop_percent)
qed simp

lemmas fix_template_eq =
  fix_template_loop_start [of _ "[]", folded fix_template_def, unfolded append_Nil]

lemma fix_template_shape:
  "\<exists>p. CHR ''%'' \<notin> set p \<and>
     (fix_template t = p \<or>
      (\<exists>c r. fix_template t = p @ [CHR ''%'', c] @ r \<and> c \<noteq> CHR ''%'' \<and> CHR ''%'' \<notin> set r))"
proof -
  let ?p = "takeWhile (\<lambda>c. c \<noteq> CHR ''%'') t"
  let ?q = "dropWhile (\<lambda>c. c = CHR ''%'') (dropWhile (\<lambda>c. c \<noteq> CHR ''%'') t)"
  have no: "CHR ''%'' \<notin> set (takeWhile (\<lambda>c. c \<noteq> CHR ''%'') s)" for s :: string
    by (auto dest: set_takeWhileD)
  show ?thesis
  proof (cases ?q)
    case Nil
    then have "fix_template t = ?p" by (simp only: fix_template_eq list.case append_Nil2)
    with no show ?thesis by blast
  next
    case (Cons c r)
    then have "c \<noteq> CHR ''%''" by (rule dropWhile_eq_Cons_conv [THEN iffD1, THEN conjunct2])
    moreover have "fix_template t = ?p @ [CHR ''%'', c] @ takeWhile (\<lambda>c. c \<noteq> CHR ''%'') r"
      using Cons by (simp only: fix_template_eq list.case)
    ultimately show ?thesis using no by blast
  qed
qed

lemma fix_template_keep:
  assumes "CHR ''%'' \<notin> set p" "c \<noteq> CHR ''%''" "CHR ''%'' \<notin> set r"
  shows "fix_template (p @ [CHR ''%'', c] @ r) = p @ [CHR ''%'', c] @ r"
proof -
  have "dropWhile (\<lambda>c. c \<noteq> CHR ''%'') (p @ CHR ''%'' # c # r) = CHR ''%'' # c # r"
    "takeWhile (\<lambda>c. c \<noteq> CHR ''%'') (p @ CHR ''%'' # c # r) = p"
    using assms(1) by (simp_all add: takeWhile_not_in dropWhile_not_in)
  then show ?thesis
    using assms(2,3) by (simp add: fix_template_eq takeWhile_all)
qed

lemma fix_template_plain: "CHR ''%'' \<notin> set p \<Longrightarrow> fix_template p = p"
  by (simp add: fix_template_eq takeWhile_all dropWhile_all)

text \<open>
  A fixed template asks for at most one argument.  After \<open>fix_template\<close> at most one percent sign is
  left, it is followed by another character, a template that was already of this form is unchanged, and
  fixing twice is fixing once.  The format string given to \<open>snprintf\<close> with one argument therefore never
  holds a second conversion.
\<close>

lemma fix_template_one_field:
  "count_list (fix_template t) (CHR ''%'') \<le> 1
   \<and> last (CHR '' '' # fix_template t) \<noteq> CHR ''%''
   \<and> fix_template (fix_template t) = fix_template t"
proof -
  obtain p where p: "CHR ''%'' \<notin> set p" and
    sh: "fix_template t = p \<or> (\<exists>c r. fix_template t = p @ [CHR ''%'', c] @ r \<and> c \<noteq> CHR ''%'' \<and> CHR ''%'' \<notin> set r)"
    using fix_template_shape by blast
  from sh show ?thesis
  proof (elim disjE exE conjE)
    assume eq: "fix_template t = p"
    have "p \<noteq> [] \<Longrightarrow> last p \<noteq> CHR ''%''" using p last_in_set by metis
    with p eq show ?thesis by (simp add: fix_template_plain count_list_0_iff)
  next
    fix c r
    assume eq: "fix_template t = p @ [CHR ''%'', c] @ r" and c: "c \<noteq> CHR ''%''" "CHR ''%'' \<notin> set r"
    from p c have "count_list p (CHR ''%'') = 0" "count_list r (CHR ''%'') = 0"
      by (simp_all add: count_list_0_iff)
    moreover have "last (c # r) \<noteq> CHR ''%''" using c last_in_set [of "c # r"] by auto
    ultimately show ?thesis
      using eq c fix_template_keep [OF p c] by simp
  qed
qed

end
