(* ===== verification/Smack_Words.thy ===== *)
theory Smack_Words
  imports Smack_Dict_Proofs
begin

text \<open>
  The contract of \<open>next_word\<close>: the words a dictionary gives out belong to its vocabulary, and the kinds
  that never run dry give out as many as are asked for.  The locales state the contract; the three kinds
  and the virtual \<open>next_word\<close> interpret it.  The order of sequential and generated words is stated for each.
\<close>

section \<open>The contract\<close>

locale word_source =
  fixes draw :: "'d \<Rightarrow> (string \<times> 'd) result"
    and vocab :: "'d \<Rightarrow> string set"
    and ready :: "'d \<Rightarrow> bool"
  assumes draw_sound:
    "ready d \<Longrightarrow> draw d = Inr (w, d') \<Longrightarrow> w \<in> vocab d \<and> ready d' \<and> vocab d' = vocab d"
begin

lemma draws_sound:
  "ready d \<Longrightarrow> draws draw n d = Inr (ws, d') \<Longrightarrow>
   length ws = n \<and> set ws \<subseteq> vocab d \<and> ready d' \<and> vocab d' = vocab d"
proof (induction n arbitrary: d ws)
  case (Suc n)
  from Suc.prems(2) obtain w d1 ws1 where 1: "draw d = Inr (w, d1)"
      "draws draw n d1 = Inr (ws1, d')" "ws = w # ws1"
    by (auto simp: resultE_simps split: prod.splits)
  from draw_sound [OF Suc.prems(1) 1(1)] have d1: "w \<in> vocab d" "ready d1" "vocab d1 = vocab d" by simp_all
  from Suc.IH [OF d1(2) 1(2)] d1 1(3) show ?case by auto
qed simp

end

locale endless_source = word_source +
  assumes draw_total: "ready d \<Longrightarrow> is_ok (draw d)"
begin

lemma draws_total: "ready d \<Longrightarrow> is_ok (draws draw n d)"
proof (induction n arbitrary: d)
  case (Suc n)
  from draw_total [OF Suc.prems] obtain w d' where 1: "draw d = Inr (w, d')"
    by (auto simp: is_ok_iff)
  with draw_sound Suc.prems have "ready d'" by blast
  with Suc.IH [of d'] 1 show ?case by (auto simp: is_ok_iff)
qed simp

lemma draws_ok:
  assumes "ready d"
  obtains ws d' where "draws draw n d = Inr (ws, d')" "length ws = n" "set ws \<subseteq> vocab d"
  using draws_total [OF assms, of n] draws_sound [OF assms] by (fastforce simp: is_ok_iff)

end

section \<open>Sequential and random dictionaries\<close>

definition seq_ready :: "seq_dictionary \<Rightarrow> bool" where
  "seq_ready d \<longleftrightarrow> 0 \<le> cur_word_ind d \<and> cur_word_ind d < int (length (words d))"

definition rand_ready :: "'a dictionary_scheme \<times> 'g \<Rightarrow> bool" where
  "rand_ready = (\<lambda>(d, g). words d \<noteq> [])"

interpretation seq_src: endless_source seq_next_word "\<lambda>d. set (words d)" seq_ready
proof unfold_locales
  fix d w d'
  assume "seq_ready d" "seq_next_word d = Inr (w, d')"
  then show "w \<in> set (words d) \<and> seq_ready d' \<and> set (words d') = set (words d)"
    by (auto simp: seq_next_word_def seq_ready_def Let_def)
next
  fix d assume "seq_ready d"
  then show "is_ok (seq_next_word d)" by (simp add: seq_next_word_def seq_ready_def Let_def)
qed

interpretation rand_src: endless_source "rand_next_word rand" "\<lambda>(d, g). set (words d)" rand_ready
  for rand :: "'g \<Rightarrow> nat \<times> 'g"
proof unfold_locales
  fix d :: "'a dictionary_scheme \<times> 'g" and w d'
  assume "rand_ready d" "rand_next_word rand d = Inr (w, d')"
  then show "w \<in> (case d of (d, g) \<Rightarrow> set (words d)) \<and> rand_ready d'
      \<and> (case d' of (d, g) \<Rightarrow> set (words d)) = (case d of (d, g) \<Rightarrow> set (words d))"
    by (auto simp: rand_next_word_def rand_ready_def split: prod.splits)
next
  fix d :: "'a dictionary_scheme \<times> 'g" assume "rand_ready d"
  then show "is_ok (rand_next_word rand d)"
    by (auto simp: rand_next_word_def rand_ready_def split: prod.splits)
qed

lemma seq_next_word_ready:
  assumes "k < length (words d)" "cur_word_ind d = int k"
  shows "seq_next_word d =
    Inr (words d ! k, d\<lparr>cur_word_ind := int (Suc k mod length (words d))\<rparr>)"
proof (cases "Suc k = length (words d)")
  case True
  then have "int k + 1 = int (length (words d))" "Suc k mod length (words d) = 0" by simp_all
  with assms show ?thesis by (simp add: seq_next_word_def Let_def)
next
  case False
  then have "int k + 1 \<noteq> int (length (words d))" "Suc k < length (words d)" using assms(1) by simp_all
  with assms show ?thesis by (simp add: seq_next_word_def Let_def)
qed

text \<open>
  A sequential dictionary cycles through its words in order: starting at index \<open>k\<close>, the \<open>j\<close>-th
  word given out is \<open>words[(k + j) mod size]\<close>, and no call fails while the dictionary is not empty.
\<close>

lemma seq_dictionary_cycles:
  assumes "k < length (words d)" "cur_word_ind d = int k"
  shows "draws seq_next_word n d =
    Inr (map (\<lambda>j. words d ! ((k + j) mod length (words d))) [0..<n],
         d\<lparr>cur_word_ind := int ((k + n) mod length (words d))\<rparr>)"
  using assms
proof (induction n arbitrary: k d)
  case 0
  then show ?case by simp
next
  case (Suc n)
  let ?L = "length (words d)"
  let ?d = "d\<lparr>cur_word_ind := int (Suc k mod ?L)\<rparr>"
  have "Suc k mod length (words ?d) < length (words ?d)"
    using Suc.prems(1) by (cases "words d") simp_all
  from Suc.IH [of "Suc k mod ?L" ?d] this
  have "draws seq_next_word n ?d =
      Inr (map (\<lambda>j. words d ! ((Suc k + j) mod ?L)) [0..<n],
        d\<lparr>cur_word_ind := int ((Suc k + n) mod ?L)\<rparr>)"
    by (simp add: mod_simps)
  moreover have "map (\<lambda>j. words d ! ((k + j) mod ?L)) [0..<Suc n] =
      words d ! k # map (\<lambda>j. words d ! ((Suc k + j) mod ?L)) [0..<n]"
    using Suc.prems(1) by (simp only: upt_conv_Cons [OF zero_less_Suc] map_Suc_upt [symmetric]) (simp add: comp_def)
  ultimately show ?case
    using seq_next_word_ready [OF Suc.prems] by simp
qed

text \<open>
  A random dictionary gives out any number of words, each of them one of its words, for every
  random generator; an empty one (for example loaded from a list with a single entry) divides by zero.
\<close>

lemma rand_dictionary_words:
  "(words d \<noteq> [] \<longrightarrow> (\<exists>ws s. draws (rand_next_word rand) n (d, g) = Inr (ws, s)
      \<and> length ws = n \<and> set ws \<subseteq> set (words d)))
   \<and> (words d = [] \<longrightarrow> rand_next_word rand (d, g) = undef Div_by_zero)"
proof (intro conjI impI)
  assume "words d \<noteq> []"
  then have "rand_ready (d, g)" by (simp add: rand_ready_def)
  from rand_src.draws_ok [OF this, of rand n]
  show "\<exists>ws s. draws (rand_next_word rand) n (d, g) = Inr (ws, s) \<and> length ws = n \<and> set ws \<subseteq> set (words d)"
    by fastforce
qed (simp add: rand_next_word_def split: prod.splits)

definition lcg :: "nat \<Rightarrow> nat \<times> nat" where
  "lcg g = (let g' = (1103515245 * g + 12345) mod 2147483648 in (g' div 65536, g'))"

section \<open>Unique dictionaries\<close>

text \<open>
  A template with one integer field, as \<open>fix_template\<close> leaves it: text, a conversion \<open>d\<close>, \<open>i\<close> or
  \<open>u\<close> with flags and width, and text.
\<close>

definition int_field :: "string \<Rightarrow> (string \<times> string \<times> nat \<times> char \<times> string) option" where
  "int_field t =
     (case dropWhile (\<lambda>c. c \<noteq> CHR ''%'') t of
        [] \<Rightarrow> None
      | _ # s \<Rightarrow>
          (case conv_spec s of
             None \<Rightarrow> None
           | Some (fl, w, c, post) \<Rightarrow>
               if c \<in> {CHR ''d'', CHR ''i'', CHR ''u''} \<and> CHR ''%'' \<notin> set post
               then Some (takeWhile (\<lambda>c. c \<noteq> CHR ''%'') t, fl, w, c, post) else None))"

lemma format1_plain: "CHR ''%'' \<notin> set s \<Longrightarrow> format1 s a = Inr s"
  by (induction s) auto

lemma format1_prefix:
  "CHR ''%'' \<notin> set p \<Longrightarrow> format1 (p @ s) a = mapR ((@) p) (format1 s a)"
proof (induction p)
  case Nil
  show ?case by (cases "format1 s a") simp_all
next
  case (Cons c p)
  then have "c \<noteq> CHR ''%''" by auto
  with Cons show ?case by (cases "format1 s a") simp_all
qed

lemma format1_int_field:
  assumes "int_field t = Some (pre, fl, w, c, post)" "0 \<le> i" "i \<le> INT_MAX"
  shows "format1 t (Some i) = Inr (pre @ pad_int (CHR ''-'' \<in> set fl) (CHR ''0'' \<in> set fl) w i @ post)"
proof -
  let ?P = "\<lambda>c. c \<noteq> CHR ''%''"
  obtain x s where s: "dropWhile ?P t = x # s" and cs: "conv_spec s = Some (fl, w, c, post)"
    and c: "c = CHR ''d'' \<or> c = CHR ''i'' \<or> c = CHR ''u''" and post: "CHR ''%'' \<notin> set post"
    and pre: "pre = takeWhile ?P t"
    using assms(1) by (auto simp: int_field_def split: list.splits option.splits if_splits)
  have x: "x = CHR ''%''" using s [THEN dropWhile_eq_Cons_conv [THEN iffD1, THEN conjunct2]] by simp
  have t: "t = pre @ CHR ''%'' # s"
    unfolding pre x [symmetric] s [symmetric] by simp
  have "CHR ''%'' \<notin> set pre" unfolding pre by (auto dest: set_takeWhileD)
  then have "format1 t (Some i) = mapR ((@) pre) (format1 (CHR ''%'' # s) (Some i))"
    unfolding t by (rule format1_prefix)
  moreover have "i mod 4294967296 = i" using assms(2,3) by (simp add: INT_MAX_def)
  ultimately show ?thesis using c cs post by (auto simp: format1_plain)
qed

text \<open>The word for each number, before it is cut to the buffer.\<close>

lemma unique_next_word_int_field:
  assumes "int_field (c_str (templ d)) = Some (pre, fl, w, c, post)" "0 \<le> uid d" "uid d < INT_MAX"
  shows "unique_next_word d =
    Inr (take 511 (pre @ pad_int (CHR ''-'' \<in> set fl) (CHR ''0'' \<in> set fl) w (uid d) @ post),
         d\<lparr>uid := uid d + 1\<rparr>)"
proof -
  have "in_int (uid d + 1)" using assms(2,3) by (simp add: int_range_defs)
  then show ?thesis
    using format1_int_field [OF assms(1,2)] assms(3) by (simp add: unique_next_word_def MAX_UNIQUE_def)
qed

lemma unique_draws:
  assumes "int_field (c_str (templ d)) = Some (pre, fl, w, c, post)" "0 \<le> uid d"
    and "uid d + int n \<le> INT_MAX"
  shows "draws unique_next_word n d =
    Inr (map (\<lambda>j. take 511 (pre @ pad_int (CHR ''-'' \<in> set fl) (CHR ''0'' \<in> set fl) w (uid d + int j) @ post))
           [0..<n], d\<lparr>uid := uid d + int n\<rparr>)"
  using assms
proof (induction n arbitrary: d)
  case (Suc n)
  let ?d = "d\<lparr>uid := uid d + 1\<rparr>"
  let ?w = "\<lambda>i. take 511 (pre @ pad_int (CHR ''-'' \<in> set fl) (CHR ''0'' \<in> set fl) w i @ post)"
  have "draws unique_next_word n ?d = Inr (map (\<lambda>j. ?w (uid d + 1 + int j)) [0..<n],
      d\<lparr>uid := uid d + 1 + int n\<rparr>)"
    using Suc.IH [of ?d] Suc.prems by simp
  moreover have "map (\<lambda>j. ?w (uid d + int j)) [0..<Suc n] =
      ?w (uid d) # map (\<lambda>j. ?w (uid d + 1 + int j)) [0..<n]"
    by (simp only: upt_conv_Cons [OF zero_less_Suc] map_Suc_upt [symmetric]) (simp add: comp_def add.assoc)
  moreover have "uid d < INT_MAX" using Suc.prems by simp
  ultimately show ?case
    using unique_next_word_int_field [OF Suc.prems(1,2)] by (simp add: add.assoc)
qed simp



section \<open>The virtual next_word\<close>

definition dict_ready :: "dict \<times> 'g \<Rightarrow> bool" where
  "dict_ready = (\<lambda>(dict, g). case dict of
     Rand_dictionary d \<Rightarrow> words d \<noteq> [] | Seq_dictionary d \<Rightarrow> seq_ready d | Unique_dictionary d \<Rightarrow> True)"

definition dict_vocab :: "dict \<times> 'g \<Rightarrow> string set" where
  "dict_vocab = (\<lambda>(dict, g). case dict of
     Rand_dictionary d \<Rightarrow> set (words d)
   | Seq_dictionary d \<Rightarrow> set (words d)
   | Unique_dictionary d \<Rightarrow> {w. \<exists>i s. format1 (c_str (templ d)) (Some i) = Inr s \<and> w = take 511 s})"

interpretation dict_src: word_source "next_word rand" dict_vocab dict_ready
  for rand :: "'g \<Rightarrow> nat \<times> 'g"
proof unfold_locales
  fix d :: "dict \<times> 'g" and w d'
  assume "dict_ready d" "next_word rand d = Inr (w, d')"
  then show "w \<in> dict_vocab d \<and> dict_ready d' \<and> dict_vocab d' = dict_vocab d"
    using seq_src.draw_sound rand_src.draw_sound [where rand = rand]
    by (cases d; cases "fst d")
       (fastforce simp: next_word_def dict_ready_def dict_vocab_def rand_ready_def resultE_simps
          unique_next_word_def MAX_UNIQUE_def split: prod.splits)+
qed

end
