(* ===== verification/Smack_Map.thy ===== *)
theory Smack_Map
  imports Smack_Prelude
begin

text \<open>
  \<open>std::map<string, T*, less<string> >\<close>, the container of every pool and report of the program, as
  an association list in strictly increasing key order (the order in which iteration visits it).
  The values are pointers: an \<open>option\<close>, with \<open>None\<close> for NULL, because \<open>operator[]\<close> inserts NULL for a
  missing key.  The locale \<open>keyed_store\<close> states what the clients rely on; it is interpreted on these
  operations.
\<close>

type_synonym 'v smap = "(string \<times> 'v) list"

section \<open>Operations\<close>

definition smap_find :: "'v smap \<Rightarrow> string \<Rightarrow> 'v option" where
  "smap_find m k = map_of m k"

fun smap_put :: "string \<Rightarrow> 'v \<Rightarrow> 'v smap \<Rightarrow> 'v smap" where
  "smap_put k v [] = [(k, v)]"
| "smap_put k v ((k', v') # m) =
     (if k = k' then (k, v) # m
      else if k < k' then (k, v) # (k', v') # m
      else (k', v') # smap_put k v m)"

definition smap_ok :: "'v smap \<Rightarrow> bool" where
  "smap_ok m = sorted_wrt (<) (map fst m)"

text \<open>\<open>m[k]\<close> as an expression: the pointer stored, with NULL stored first for a missing key.\<close>

definition smap_index :: "string \<Rightarrow> 'v option smap \<Rightarrow> 'v option \<times> 'v option smap" where
  "smap_index k m =
     (case smap_find m k of Some p \<Rightarrow> (p, m) | None \<Rightarrow> (None, smap_put k None m))"

lemma smap_find_put: "smap_ok m \<Longrightarrow> smap_find (smap_put k v m) = (smap_find m)(k \<mapsto> v)"
proof (induction m)
  case Nil
  then show ?case by (auto simp: smap_find_def fun_eq_iff)
next
  case (Cons p m)
  obtain k' v' where p: "p = (k', v')" by (cases p)
  have "smap_ok m" using Cons.prems by (simp add: smap_ok_def)
  from Cons.IH [OF this] have "map_of (smap_put k v m) x = ((map_of m)(k \<mapsto> v)) x" for x
    by (simp add: smap_find_def fun_eq_iff)
  then show ?case by (auto simp: smap_find_def fun_eq_iff p)
qed

lemma set_keys_put: "set (map fst (smap_put k v m)) = insert k (set (map fst m))"
  by (induction k v m rule: smap_put.induct) auto

lemma smap_ok_put: "smap_ok m \<Longrightarrow> smap_ok (smap_put k v m)"
proof (induction m)
  case Nil
  then show ?case by (simp add: smap_ok_def)
next
  case (Cons p m)
  obtain k' v' where p: "p = (k', v')" by (cases p)
  from Cons.prems have ok: "smap_ok m" and lt: "\<forall>x \<in> set (map fst m). k' < x"
    by (simp_all add: smap_ok_def p)
  have IH: "smap_ok (smap_put k v m)" using Cons.IH ok by simp
  show ?case
  proof (cases "k = k'")
    case True
    with Cons.prems show ?thesis by (simp add: smap_ok_def p)
  next
    case neq: False
    show ?thesis
    proof (cases "k < k'")
      case True
      with lt have "\<forall>x \<in> set (map fst m). k < x" using less_trans by blast
      with True neq Cons.prems show ?thesis by (simp add: smap_ok_def p)
    next
      case False
      with neq have "k' < k" by simp
      with lt have "\<forall>x \<in> set (map fst (smap_put k v m)). k' < x"
        unfolding set_keys_put by simp
      with False neq IH show ?thesis by (simp add: smap_ok_def p)
    qed
  qed
qed

lemma smap_ok_distinct: "smap_ok m \<Longrightarrow> distinct (map fst m)"
  by (simp add: smap_ok_def strict_sorted_iff)

lemma smap_entries: "smap_ok m \<Longrightarrow> (k, v) \<in> set m \<longleftrightarrow> smap_find m k = Some v"
  using smap_ok_distinct [of m] by (simp add: smap_find_def)

text \<open>Overwriting the value of a present key keeps the keys, hence the iteration order.\<close>

lemma keys_put_present: "k \<in> set (map fst m) \<Longrightarrow> smap_ok m \<Longrightarrow> map fst (smap_put k v m) = map fst m"
proof (induction m)
  case (Cons p m)
  obtain k' v' where p: "p = (k', v')" by (cases p)
  show ?case
  proof (cases "k = k'")
    case False
    with Cons.prems(1) have "k \<in> set (map fst m)" by (simp add: p)
    moreover from this Cons.prems(2) have "\<not> k < k'"
      by (fastforce simp: smap_ok_def p)
    moreover have "smap_ok m" using Cons.prems(2) by (simp add: smap_ok_def p)
    ultimately show ?thesis using Cons.IH False by (simp add: p)
  qed (simp add: p)
qed simp

lemma smap_eqI: "smap_ok m \<Longrightarrow> smap_ok m' \<Longrightarrow> smap_find m = smap_find m' \<Longrightarrow> m = m'"
proof -
  assume ok: "smap_ok m" "smap_ok m'" and eq: "smap_find m = smap_find m'"
  have "set m = set m'" using smap_entries [OF ok(1)] smap_entries [OF ok(2)] eq by auto
  moreover have "sorted (map fst m)" "sorted (map fst m')"
    using ok by (simp_all add: smap_ok_def strict_sorted_iff)
  moreover have d: "distinct (map fst m)" "distinct (map fst m')"
    using ok smap_ok_distinct by blast+
  moreover have "inj_on fst (set m \<union> set m')"
    using d(1) calculation(1) by (simp add: distinct_map)
  ultimately show "m = m'" by (intro map_sorted_distinct_set_unique [of fst])
qed

section \<open>The interface\<close>

text \<open>
  What the components rely on: a store of values under string keys whose lookup after an update is
  the updated map, with an invariant every update keeps and a list of entries in key order.
\<close>

locale keyed_store =
  fixes empty :: "'m"
    and find :: "'m \<Rightarrow> string \<Rightarrow> 'v option"
    and put :: "string \<Rightarrow> 'v \<Rightarrow> 'm \<Rightarrow> 'm"
    and entries :: "'m \<Rightarrow> (string \<times> 'v) list"
    and invar :: "'m \<Rightarrow> bool"
  assumes find_empty: "find empty k = None"
    and find_put: "invar m \<Longrightarrow> find (put k v m) = (find m)(k \<mapsto> v)"
    and entries_find: "invar m \<Longrightarrow> (k, v) \<in> set (entries m) \<longleftrightarrow> find m k = Some v"
    and entries_sorted: "invar m \<Longrightarrow> sorted_wrt (<) (map fst (entries m))"
    and invar_empty: "invar empty"
    and invar_put: "invar m \<Longrightarrow> invar (put k v m)"
begin

lemma find_put_same: "invar m \<Longrightarrow> find (put k v m) k = Some v"
  by (simp add: find_put)

lemma find_put_other: "invar m \<Longrightarrow> k \<noteq> k' \<Longrightarrow> find (put k v m) k' = find m k'"
  by (simp add: find_put)

lemma dom_put: "invar m \<Longrightarrow> dom (find (put k v m)) = insert k (dom (find m))"
  by (simp add: find_put)

lemma entries_distinct: "invar m \<Longrightarrow> distinct (map fst (entries m))"
  using entries_sorted by (simp add: strict_sorted_iff)

lemma map_of_entries: "invar m \<Longrightarrow> map_of (entries m) k = find m k"
  using entries_find [of m k] entries_distinct [of m]
  by (cases "find m k") (auto simp: map_of_eq_None_iff dest: map_of_SomeD)

text \<open>A store filled by a sequence of updates holds the last value given for each key.\<close>

lemma invar_fold_put: "invar m \<Longrightarrow> invar (foldl (\<lambda>m (k, v). put k v m) m kvs)"
  by (induction kvs arbitrary: m) (auto simp: invar_put)

lemma find_fold_put:
  "invar m \<Longrightarrow> find (foldl (\<lambda>m (k, v). put k v m) m kvs) k
     = (case map_of (rev kvs) k of Some v \<Rightarrow> Some v | None \<Rightarrow> find m k)"
proof (induction kvs arbitrary: m)
  case (Cons p kvs)
  obtain k' v' where "p = (k', v')" by (cases p)
  with Cons show ?case
    by (auto simp: invar_put find_put map_add_def split: option.splits)
qed simp

end

interpretation sm: keyed_store "[]" smap_find smap_put "\<lambda>m. m" smap_ok
proof unfold_locales
  show "smap_find [] k = None" for k by (simp add: smap_find_def)
  show "smap_ok []" by (simp add: smap_ok_def)
  show "smap_find (smap_put k v m) = (smap_find m)(k \<mapsto> v)" if "smap_ok m" for m k v
    using that by (rule smap_find_put)
  show "(k, v) \<in> set m \<longleftrightarrow> smap_find m k = Some v" if "smap_ok m" for m k v
    using that by (rule smap_entries)
  show "sorted_wrt (<) (map fst m)" if "smap_ok m" for m
    using that by (simp add: smap_ok_def)
  show "smap_ok (smap_put k v m)" if "smap_ok m" for m k v
    using that by (rule smap_ok_put)
qed

lemma smap_index_present: "smap_find m k = Some p \<Longrightarrow> smap_index k m = (p, m)"
  by (simp add: smap_index_def)

lemma smap_ok_index: "smap_ok m \<Longrightarrow> smap_ok (snd (smap_index k m))"
  by (auto simp: smap_index_def sm.invar_put split: option.splits)

lemma fst_smap_index: "fst (smap_index k m) = (case smap_find m k of Some p \<Rightarrow> p | None \<Rightarrow> None)"
  by (simp add: smap_index_def split: option.splits)

end
