(* ===== verification/Smack_Text.thy ===== *)
theory Smack_Text
  imports Smack_Words Smack_Map
begin

text \<open>
  The text of a parsed query: \<open>Client::escape_string\<close> and the loop of \<open>Client::safe_parsed_query\<close>
  (\<^verbatim>\<open>src/client.cc\<close>), which replaces \<open>$name\<close> by the next word of the dictionary \<open>name\<close> in a buffer of
  fixed size.  Every write into the buffer is checked against that size.  The loop is compared with a
  reference expansion that works on whole variables and has no buffer.
\<close>

section \<open>Escaping\<close>

abbreviation BSLASH :: char where "BSLASH \<equiv> CHR 0x5C"
abbreviation SQUOTE :: char where "SQUOTE \<equiv> CHR 0x27"
abbreviation DQUOTE :: char where "DQUOTE \<equiv> CHR 0x22"

text \<open>The bytes \<open>Client::escape_string\<close> writes; it returns their number and adds no terminator.\<close>

fun escape_string :: "string \<Rightarrow> string" where
  "escape_string [] = []"
| "escape_string (c # cs) =
     (if c = SQUOTE \<or> c = DQUOTE \<or> c = BSLASH then BSLASH # c # escape_string cs
      else c # escape_string cs)"

section \<open>safe_parsed_query\<close>

text \<open>
  The dictionaries of a client: a pointer to a map of pointers.  The expansion runs with the generator
  \<open>rand()\<close>, the escaping function of the client class and the number of bytes that function writes after
  the ones it counts (its terminating NUL, if any).
\<close>

type_synonym dicts = "dict option smap option"

record ('g) expander =
  x_rand :: "'g \<Rightarrow> nat \<times> 'g"
  x_escape :: "string \<Rightarrow> string"
  x_extra :: nat

record 'g pq =
  parsed_query :: string
  var_buf :: string
  in_var :: bool
  escaped :: bool
  pq_dicts :: dicts
  pq_gen :: 'g

definition MAX_VAR_BUF :: nat where "MAX_VAR_BUF = 512"

definition is_ident :: "char \<Rightarrow> bool" where
  "is_ident c \<longleftrightarrow> isalnum c \<or> c = CHR ''_''"

text \<open>\<open>if(offset < max_query - 1) parsed_query[offset++] = c;\<close>\<close>

definition emit :: "nat \<Rightarrow> char \<Rightarrow> 'g pq \<Rightarrow> 'g pq result" where
  "emit max_query c s =
     (if length (parsed_query s) + 1 < max_query
      then mapR (\<lambda>b. s\<lparr>parsed_query := b\<rparr>) (put max_query (parsed_query s) [c])
      else Inr s)"

text \<open>The word for a variable: \<open>(*dictionaries)[var_buf]\<close> and \<open>d->next_word()\<close>.\<close>

definition var_word :: "('g \<Rightarrow> nat \<times> 'g) \<Rightarrow> string \<Rightarrow> dicts \<Rightarrow> 'g \<Rightarrow> (string \<times> dicts \<times> 'g) result" where
  "var_word rand name ds g =
     (case ds of
        None \<Rightarrow> undef Null_deref
      | Some m \<Rightarrow>
          (let (p, m) = smap_index name m
           in case p of
                None \<Rightarrow> die (No_such_dictionary name)
              | Some d \<Rightarrow>
                  mapR (\<lambda>(w, d', g'). (c_str w, Some (smap_put name (Some d') m), g'))
                    (next_word rand (d, g))))"

text \<open>\<open>escape_string(parsed_query + offset, word, word_len)\<close>: what it writes must fit the buffer.\<close>

definition put_escaped :: "'g expander \<Rightarrow> nat \<Rightarrow> string \<Rightarrow> string \<Rightarrow> string result" where
  "put_escaped x max_query buf word =
     (if length buf + length (x_escape x word) + x_extra x \<le> max_query
      then Inr (buf @ x_escape x word) else undef Out_of_bounds)"

definition end_var :: "'g expander \<Rightarrow> nat \<Rightarrow> char \<Rightarrow> 'g pq \<Rightarrow> 'g pq result" where
  "end_var x max_query c s =
     bindR (var_word (x_rand x) (var_buf s) (pq_dicts s) (pq_gen s)) (\<lambda>(word, ds, g).
     bindR (if 2 * length word + length (parsed_query s) + 2 < max_query
            then put_escaped x max_query (parsed_query s) word
            else Inr (parsed_query s)) (\<lambda>buf.
     mapR (\<lambda>s. s\<lparr>var_buf := [], in_var := False\<rparr>)
       (emit max_query c (s\<lparr>parsed_query := buf, pq_dicts := ds, pq_gen := g\<rparr>))))"

definition pq_step :: "'g expander \<Rightarrow> nat \<Rightarrow> char \<Rightarrow> 'g pq \<Rightarrow> 'g pq result" where
  "pq_step x max_query c s =
     (if \<not> in_var s then
        (if \<not> escaped s then
           (if c = BSLASH then Inr (s\<lparr>escaped := True\<rparr>)
            else if c = CHR ''$'' then Inr (s\<lparr>in_var := True, var_buf := []\<rparr>)
            else emit max_query c s)
         else emit max_query c s)
      else if is_ident c then
        Inr (if length (var_buf s) < MAX_VAR_BUF - 1 then s\<lparr>var_buf := var_buf s @ [c]\<rparr> else s)
      else end_var x max_query c s)"

fun pq_run :: "'g expander \<Rightarrow> nat \<Rightarrow> string \<Rightarrow> 'g pq \<Rightarrow> 'g pq result" where
  "pq_run x max_query [] s = Inr s"
| "pq_run x max_query (c # cs) s = bindR (pq_step x max_query c s) (pq_run x max_query cs)"

definition pq_start :: "dicts \<Rightarrow> 'g \<Rightarrow> 'g pq" where
  "pq_start ds g = \<lparr>parsed_query = [], var_buf = [], in_var = False, escaped = False,
     pq_dicts = ds, pq_gen = g\<rparr>"

text \<open>The text passed to \<open>safe_query\<close>, after the terminator has been written.\<close>

definition parse_query :: "'g expander \<Rightarrow> nat \<Rightarrow> string \<Rightarrow> dicts \<Rightarrow> 'g \<Rightarrow> (string \<times> dicts \<times> 'g) result" where
  "parse_query x max_query query ds g =
     bindR (pq_run x max_query (c_str query) (pq_start ds g)) (\<lambda>s.
     mapR (\<lambda>b. (c_str b, pq_dicts s, pq_gen s)) (put max_query (parsed_query s) [NUL]))"

section \<open>Reference expansion\<close>

text \<open>
  The meaning of a query text: a backslash makes the rest literal; a variable is a maximal run of
  identifier characters after a dollar sign, replaced by an escaped word when some other character follows,
  which is copied; a variable at the very end stands for nothing.
\<close>

function expand_ref :: "('g \<Rightarrow> nat \<times> 'g) \<Rightarrow> (string \<Rightarrow> string) \<Rightarrow> string \<Rightarrow> dicts \<Rightarrow> 'g \<Rightarrow>
    (string \<times> dicts \<times> 'g) result" where
  "expand_ref rand esc [] ds g = Inr ([], ds, g)"
| "expand_ref rand esc (c # cs) ds g =
     (if c = BSLASH then Inr (cs, ds, g)
      else if c = CHR ''$'' then
        (case dropWhile is_ident cs of
           [] \<Rightarrow> Inr ([], ds, g)
         | t # rest \<Rightarrow>
             bindR (var_word rand (take (MAX_VAR_BUF - 1) (takeWhile is_ident cs)) ds g)
               (\<lambda>(word, ds, g).
                  mapR (\<lambda>(s, r). (esc word @ t # s, r)) (expand_ref rand esc rest ds g)))
      else mapR (\<lambda>(s, r). (c # s, r)) (expand_ref rand esc cs ds g))"
  by pat_completeness auto
termination
proof (relation "measure (\<lambda>(rand, esc, s, ds, g). length s)", goal_cases)
  case (2 rand esc c cs ds g t rest)
  have "length (dropWhile is_ident cs) \<le> length cs" by (rule length_dropWhile_le)
  with 2 show ?case by simp
qed simp_all

declare expand_ref.simps(2) [simp del]

end
