(* ===== verification/Smack_Text_Proofs.thy ===== *)
theory Smack_Text_Proofs
  imports Smack_Text
begin

text \<open>
  Memory safety of the query expansion and its agreement with the reference expansion, proved once for
  every escaping function with the contract \<open>escaper\<close> and used for \<open>Client::escape_string\<close>; and what
  escaping guarantees to the database server.
\<close>

section \<open>Dictionaries that are ready\<close>

definition dict_ok :: "dict \<Rightarrow> bool" where
  "dict_ok d = dict_ready (d, ())"

lemma dict_ready_ok: "dict_ready (d, g) = dict_ok d"
  by (cases d) (simp_all add: dict_ok_def dict_ready_def rand_ready_def)

definition pool_ready :: "dicts \<Rightarrow> bool" where
  "pool_ready ds \<longleftrightarrow> (\<exists>m. ds = Some m \<and> smap_ok m \<and>
     (\<forall>k d. smap_find m k = Some (Some d) \<longrightarrow> dict_ok d))"

lemma format1_error: "format1 s a = Inl e \<Longrightarrow> e = Undefined Bad_conversion"
proof (induction s a rule: format1.induct)
  case (2 c cs a)
  show ?case
  proof (cases "c = CHR ''%''")
    case False
    with 2 show ?thesis by (cases "format1 cs a") simp_all
  next
    case True
    show ?thesis
    proof (cases "conv_spec cs")
      case None
      with True 2 show ?thesis by simp
    next
      case (Some p)
      obtain fl w conv rest where p: "p = (fl, w, conv, rest)" by (cases p) auto
      from 2 True Some p show ?thesis
        by (cases "format1 rest a"; cases "format1 rest None") (auto split: if_splits option.splits)
    qed
  qed
qed simp

text \<open>The faults a ready dictionary can still run into: a template with another conversion, and the end of
  the counter.\<close>

definition word_fault :: "fault \<Rightarrow> bool" where
  "word_fault e \<longleftrightarrow> e = Undefined Signed_overflow \<or> e = Undefined Bad_conversion"

lemma next_word_fault: "dict_ready (d, g) \<Longrightarrow> next_word rand (d, g) = Inl e \<Longrightarrow> word_fault e"
  by (cases d)
     (auto simp: next_word_def dict_ready_def rand_next_word_def seq_next_word_def seq_ready_def
        unique_next_word_def word_fault_def chk_def mapR_def bindR_def Let_def
        split: prod.splits sum.splits if_splits dest: format1_error)

lemma var_word_found:
  assumes "smap_find m name = Some (Some d)" "next_word rand (d, g) = Inr (w, d', g')"
  shows "var_word rand name (Some m) g = Inr (c_str w, Some (smap_put name (Some d') m), g')"
  using assms by (simp add: var_word_def smap_index_def)

lemma var_word_fault:
  assumes "smap_find m name = Some (Some d)" "next_word rand (d, g) = Inl e"
  shows "var_word rand name (Some m) g = Inl e"
  using assms by (simp add: var_word_def smap_index_def)

lemma var_word_missing:
  assumes "smap_find m name = None \<or> smap_find m name = Some None"
  shows "var_word rand name (Some m) g = die (No_such_dictionary name)"
  using assms by (auto simp: var_word_def smap_index_def)

lemma pool_ready_put:
  assumes "pool_ready (Some m)" "dict_ready (d, g)"
  shows "pool_ready (Some (smap_put k (Some d) m))"
  unfolding pool_ready_def
proof (intro exI conjI allI impI)
  from assms(1) have ok: "smap_ok m" by (simp add: pool_ready_def)
  show "smap_ok (smap_put k (Some d) m)" by (rule sm.invar_put [OF ok])
  fix k' d' assume f: "smap_find (smap_put k (Some d) m) k' = Some (Some d')"
  show "dict_ok d'"
  proof (cases "k' = k")
    case True
    with f sm.find_put [OF ok] assms(2) show ?thesis by (simp add: dict_ready_ok)
  next
    case False
    with f sm.find_put [OF ok] assms(1) show ?thesis by (simp add: pool_ready_def)
  qed
qed simp

lemma var_word_sound:
  assumes pr: "pool_ready ds"
  shows "case var_word rand name ds g of
      Inl e \<Rightarrow> word_fault e \<or> e = Died (No_such_dictionary name)
    | Inr (w, ds', g') \<Rightarrow> NUL \<notin> set w \<and> pool_ready ds'"
proof -
  obtain m where ds: "ds = Some m" using pr by (auto simp: pool_ready_def)
  consider (missing) "smap_find m name = None \<or> smap_find m name = Some None"
    | (found) d where "smap_find m name = Some (Some d)" by (cases "smap_find m name") auto
  then show ?thesis
  proof cases
    case missing
    then have "var_word rand name ds g = die (No_such_dictionary name)"
      unfolding ds by (rule var_word_missing)
    then show ?thesis by simp
  next
    case (found d)
    have r: "dict_ready (d, g)" using pr found by (simp add: pool_ready_def ds dict_ready_ok)
    show ?thesis
    proof (cases "next_word rand (d, g)")
      case (Inl e)
      from var_word_fault [OF found Inl] next_word_fault [OF r Inl] show ?thesis by (simp add: ds)
    next
      case (Inr y)
      obtain w d' g' where y: "y = (w, d', g')" by (cases y) auto
      have "dict_ready (d', g')" using dict_src.draw_sound [OF r Inr [unfolded y]] by simp
      with pr have "pool_ready (Some (smap_put name (Some d') m))"
        unfolding ds by (rule pool_ready_put)
      with var_word_found [OF found Inr [unfolded y]] show ?thesis by (simp add: ds)
    qed
  qed
qed

section \<open>The contract of an escaping function\<close>

locale escaper =
  fixes esc :: "string \<Rightarrow> string" and extra :: nat
  assumes esc_upper: "length (esc w) \<le> 2 * length w"
    and esc_lower: "length w \<le> length (esc w)"
    and esc_no_NUL: "NUL \<notin> set w \<Longrightarrow> NUL \<notin> set (esc w)"
    and extra_le: "extra \<le> 1"
begin

text \<open>The invariant of the loop: the buffer always has room for the terminator.\<close>

definition pq_inv :: "nat \<Rightarrow> 'g pq \<Rightarrow> bool" where
  "pq_inv n s \<longleftrightarrow> length (parsed_query s) < n \<and> NUL \<notin> set (parsed_query s) \<and> pool_ready (pq_dicts s)"

lemma emit_inv:
  "pq_inv n s \<Longrightarrow> c \<noteq> NUL \<Longrightarrow> \<exists>s'. emit n c s = Inr s' \<and> pq_inv n s' \<and> in_var s' = in_var s"
  by (auto simp: emit_def pq_inv_def)

lemma end_var_inv:
  assumes "x_escape x = esc" "x_extra x = extra" "pq_inv n s" "c \<noteq> NUL"
  shows "case end_var x n c s of
      Inl e \<Rightarrow> word_fault e \<or> (\<exists>v. e = Died (No_such_dictionary v)) | Inr s' \<Rightarrow> pq_inv n s'"
proof (cases "var_word (x_rand x) (var_buf s) (pq_dicts s) (pq_gen s)")
  case (Inl e)
  with var_word_sound [where ds = "pq_dicts s" and rand = "x_rand x" and name = "var_buf s" and g = "pq_gen s"] assms(3) show ?thesis
    by (auto simp: end_var_def pq_inv_def)
next
  case (Inr y)
  obtain w ds g where y: "y = (w, ds, g)" by (cases y) auto
  have w: "NUL \<notin> set w" "pool_ready ds"
    using var_word_sound [where ds = "pq_dicts s" and rand = "x_rand x" and name = "var_buf s" and g = "pq_gen s"] assms(3) Inr y
    by (auto simp: pq_inv_def)
  let ?buf = "if 2 * length w + length (parsed_query s) + 2 < n then parsed_query s @ esc w else parsed_query s"
  have "put_escaped x n (parsed_query s) w = Inr (parsed_query s @ esc w)"
    if "2 * length w + length (parsed_query s) + 2 < n"
    using that esc_upper [of w] extra_le by (simp add: put_escaped_def assms(1,2))
  then have 1: "end_var x n c s = mapR (\<lambda>s. s\<lparr>var_buf := [], in_var := False\<rparr>)
      (emit n c (s\<lparr>parsed_query := ?buf, pq_dicts := ds, pq_gen := g\<rparr>))"
    by (simp add: end_var_def Inr y)
  have "pq_inv n (s\<lparr>parsed_query := ?buf, pq_dicts := ds, pq_gen := g\<rparr>)"
    using assms(3) w esc_upper [of w] esc_no_NUL [OF w(1)] by (auto simp: pq_inv_def)
  from emit_inv [OF this assms(4)] show ?thesis by (auto simp: 1 pq_inv_def)
qed

lemma pq_step_inv:
  assumes "x_escape x = esc" "x_extra x = extra" "pq_inv n s" "c \<noteq> NUL"
  shows "case pq_step x n c s of
      Inl e \<Rightarrow> word_fault e \<or> (\<exists>v. e = Died (No_such_dictionary v)) | Inr s' \<Rightarrow> pq_inv n s'"
  using end_var_inv [OF assms] emit_inv [OF assms(3,4)] assms(3)
  by (auto simp: pq_step_def pq_inv_def)

lemma pq_run_inv:
  assumes "x_escape x = esc" "x_extra x = extra" "pq_inv n s" "NUL \<notin> set cs"
  shows "case pq_run x n cs s of
      Inl e \<Rightarrow> word_fault e \<or> (\<exists>v. e = Died (No_such_dictionary v)) | Inr s' \<Rightarrow> pq_inv n s'"
  using assms(3,4)
proof (induction cs arbitrary: s)
  case (Cons c cs)
  have c: "c \<noteq> NUL" "NUL \<notin> set cs" using Cons.prems(2) by auto
  from pq_step_inv [OF assms(1,2) Cons.prems(1) c(1)] Cons.IH [OF _ c(2)] show ?case
    by (cases "pq_step x n c s") auto
qed simp

lemma parse_query_safe:
  assumes "x_escape x = esc" "x_extra x = extra" "0 < n" "pool_ready ds"
  shows "case parse_query x n q ds g of
      Inl e \<Rightarrow> word_fault e \<or> (\<exists>v. e = Died (No_such_dictionary v))
    | Inr (t, ds', g') \<Rightarrow> length t < n \<and> pool_ready ds'"
proof -
  have "pq_inv n (pq_start ds g)" using assms(3,4) by (simp add: pq_inv_def pq_start_def)
  from pq_run_inv [OF assms(1,2) this c_str_no_NUL [of q]] show ?thesis
  proof (cases "pq_run x n (c_str q) (pq_start ds g)")
    case (Inr s)
    with pq_run_inv [OF assms(1,2) \<open>pq_inv n (pq_start ds g)\<close> c_str_no_NUL [of q]]
    have s: "pq_inv n s" by simp
    then have "c_str (parsed_query s @ [NUL]) = parsed_query s"
      by (intro c_str_snoc_NUL) (simp add: pq_inv_def)
    with s show ?thesis by (simp add: parse_query_def Inr pq_inv_def)
  qed (simp add: parse_query_def)
qed

text \<open>The steps in closed form.\<close>

lemma emit_eq:
  "emit n c s = Inr (if length (parsed_query s) + 1 < n
     then s\<lparr>parsed_query := parsed_query s @ [c]\<rparr> else s)"
  by (simp add: emit_def)

lemma end_var_word:
  assumes "x_escape x = esc" "x_extra x = extra"
    and w: "var_word (x_rand x) (var_buf s) (pq_dicts s) (pq_gen s) = Inr (w, ds, g)"
  obtains buf where
    "end_var x n c s = Inr (s\<lparr>parsed_query := buf, pq_dicts := ds, pq_gen := g, var_buf := [], in_var := False\<rparr>)"
    "2 * (length (parsed_query s) + length (esc w) + 1) < n \<Longrightarrow> buf = parsed_query s @ esc w @ [c]"
proof -
  let ?b1 = "if 2 * length w + length (parsed_query s) + 2 < n then parsed_query s @ esc w else parsed_query s"
  let ?b2 = "if length ?b1 + 1 < n then ?b1 @ [c] else ?b1"
  have "put_escaped x n (parsed_query s) w = Inr (parsed_query s @ esc w)"
    if "2 * length w + length (parsed_query s) + 2 < n"
    using that esc_upper [of w] extra_le by (simp add: put_escaped_def assms(1,2))
  then have 1: "end_var x n c s = Inr (s\<lparr>parsed_query := ?b2, pq_dicts := ds, pq_gen := g,
      var_buf := [], in_var := False\<rparr>)"
    by (simp add: end_var_def w emit_eq)
  have 2: "?b2 = parsed_query s @ esc w @ [c]"
    if "2 * (length (parsed_query s) + length (esc w) + 1) < n"
    using that esc_lower [of w] by simp
  from that [OF 1 2] show thesis .
qed

lemma pq_run_ident:
  assumes "list_all is_ident vs" "in_var s" "length (var_buf s) \<le> 511"
  shows "pq_run x n (vs @ r) s = pq_run x n r (s\<lparr>var_buf := take 511 (var_buf s @ vs)\<rparr>)"
  using assms
proof (induction vs arbitrary: s)
  case (Cons c vs)
  have "is_ident c" using Cons.prems(1) by simp
  with Cons.prems have st: "pq_step x n c s = Inr (s\<lparr>var_buf := take 511 (var_buf s @ [c])\<rparr>)"
    by (simp add: pq_step_def MAX_VAR_BUF_def)
  have "take 511 (take 511 (var_buf s @ [c]) @ vs) = take 511 (var_buf s @ c # vs)"
    using Cons.prems(3) by (cases "length (var_buf s) = 511") (simp_all add: take_Cons')
  with st Cons.prems Cons.IH [of "s\<lparr>var_buf := take 511 (var_buf s @ [c])\<rparr>"]
  show ?case by simp
qed simp

lemma pq_run_escaped:
  assumes "escaped s" "\<not> in_var s"
  shows "\<exists>b. pq_run x n cs s = Inr (s\<lparr>parsed_query := b\<rparr>)
     \<and> (length (parsed_query s) + length cs < n \<longrightarrow> b = parsed_query s @ cs)"
  using assms
proof (induction cs arbitrary: s)
  case (Cons c cs)
  let ?s = "if length (parsed_query s) + 1 < n then s\<lparr>parsed_query := parsed_query s @ [c]\<rparr> else s"
  have "escaped ?s" "\<not> in_var ?s" using Cons.prems by simp_all
  from Cons.IH [OF this] Cons.prems show ?case by (auto simp: pq_step_def emit_eq split: if_splits)
next
  case Nil
  then show ?case by (intro exI [of _ "parsed_query s"]) simp
qed

text \<open>The loop, from a state outside a variable, agrees with the reference expansion: the same error, or the
  same text when that has room to spare, and the same dictionaries and generator.\<close>

definition agrees :: "'g expander \<Rightarrow> nat \<Rightarrow> string \<Rightarrow> 'g pq \<Rightarrow> bool" where
  "agrees x n cs s \<longleftrightarrow>
     (case expand_ref (x_rand x) esc cs (pq_dicts s) (pq_gen s) of
        Inl e \<Rightarrow> pq_run x n cs s = Inl e
      | Inr (out, ds', g') \<Rightarrow>
          \<exists>s'. pq_run x n cs s = Inr s' \<and> pq_dicts s' = ds' \<and> pq_gen s' = g'
            \<and> (2 * (length (parsed_query s) + length out) < n \<longrightarrow> parsed_query s' = parsed_query s @ out))"

lemma agrees_error:
  "expand_ref (x_rand x) esc cs (pq_dicts s) (pq_gen s) = Inl e \<Longrightarrow> agrees x n cs s \<longleftrightarrow> pq_run x n cs s = Inl e"
  by (simp add: agrees_def)

lemma agrees_text:
  "expand_ref (x_rand x) esc cs (pq_dicts s) (pq_gen s) = Inr (out, ds', g') \<Longrightarrow>
   agrees x n cs s \<longleftrightarrow>
     (\<exists>s'. pq_run x n cs s = Inr s' \<and> pq_dicts s' = ds' \<and> pq_gen s' = g'
        \<and> (2 * (length (parsed_query s) + length out) < n \<longrightarrow> parsed_query s' = parsed_query s @ out))"
  by (simp add: agrees_def)

lemma agrees_backslash:
  assumes "\<not> in_var s" "\<not> escaped s"
  shows "agrees x n (BSLASH # cs) s"
proof -
  have st: "pq_step x n BSLASH s = Inr (s\<lparr>escaped := True\<rparr>)" using assms by (simp add: pq_step_def)
  from pq_run_escaped [of "s\<lparr>escaped := True\<rparr>" x n cs] assms(1)
  obtain b where "pq_run x n cs (s\<lparr>escaped := True\<rparr>) = Inr (s\<lparr>escaped := True, parsed_query := b\<rparr>)"
    "length (parsed_query s) + length cs < n \<longrightarrow> b = parsed_query s @ cs"
    by auto
  with st show ?thesis by (simp add: agrees_def expand_ref.simps(2))
qed

lemma agrees_literal:
  assumes "\<not> in_var s" "\<not> escaped s" "c \<noteq> BSLASH" "c \<noteq> CHR ''$''"
    and IH: "\<And>s. \<not> in_var s \<Longrightarrow> \<not> escaped s \<Longrightarrow> agrees x n cs s"
  shows "agrees x n (c # cs) s"
proof -
  let ?s = "if length (parsed_query s) + 1 < n then s\<lparr>parsed_query := parsed_query s @ [c]\<rparr> else s"
  have run: "pq_run x n (c # cs) s = pq_run x n cs ?s"
    using assms by (simp add: pq_step_def emit_eq)
  have ex: "expand_ref (x_rand x) esc (c # cs) (pq_dicts s) (pq_gen s) =
      mapR (\<lambda>(s, r). (c # s, r)) (expand_ref (x_rand x) esc cs (pq_dicts s) (pq_gen s))"
    using assms(3,4) by (simp add: expand_ref.simps(2))
  have same: "pq_dicts ?s = pq_dicts s" "pq_gen ?s = pq_gen s" by simp_all
  have ag: "agrees x n cs ?s" using assms(1,2) by (intro IH) simp_all
  show ?thesis
  proof (cases "expand_ref (x_rand x) esc cs (pq_dicts s) (pq_gen s)")
    case (Inl e)
    with ag agrees_error [of x cs ?s e n] have "pq_run x n cs ?s = Inl e" unfolding same by blast
    with Inl show ?thesis by (simp add: agrees_def ex run del: pq_run.simps)
  next
    case (Inr y)
    obtain out ds' g' where y: "y = (out, ds', g')" by (cases y) auto
    from ag agrees_text [of x cs ?s out ds' g' n] Inr y
    obtain s' where s': "pq_run x n cs ?s = Inr s'" "pq_dicts s' = ds'" "pq_gen s' = g'"
      "2 * (length (parsed_query ?s) + length out) < n \<longrightarrow> parsed_query s' = parsed_query ?s @ out"
      unfolding same by blast
    then show ?thesis unfolding agrees_def ex run s'(1) Inr y by (auto split: if_splits)
  qed
qed

lemma agrees_open_variable:
  assumes "\<not> in_var s" "\<not> escaped s" "dropWhile is_ident cs = []"
  shows "agrees x n (CHR ''$'' # cs) s"
proof -
  have "list_all is_ident cs" using assms(3) by (simp add: list_all_iff)
  from pq_run_ident [OF this, of "s\<lparr>in_var := True, var_buf := []\<rparr>" x n "[]"] assms(1,2)
  have "pq_run x n (CHR ''$'' # cs) s = Inr (s\<lparr>in_var := True, var_buf := take 511 cs\<rparr>)"
    by (simp add: pq_step_def)
  moreover have "expand_ref (x_rand x) esc (CHR ''$'' # cs) (pq_dicts s) (pq_gen s) =
      Inr ([], pq_dicts s, pq_gen s)"
    by (simp add: expand_ref.simps(2) assms(3))
  ultimately show ?thesis by (simp add: agrees_def del: pq_run.simps)
qed

lemma pq_run_variable:
  assumes "\<not> in_var s" "\<not> escaped s" "dropWhile is_ident cs = t # rest"
  shows "pq_run x n (CHR ''$'' # cs) s =
    bindR (end_var x n t (s\<lparr>in_var := True, var_buf := take 511 (takeWhile is_ident cs)\<rparr>)) (pq_run x n rest)"
proof -
  have t: "\<not> is_ident t" using assms(3) by (auto simp: dropWhile_eq_Cons_conv)
  have "list_all is_ident (takeWhile is_ident cs)" by (auto simp: list_all_iff dest: set_takeWhileD)
  from pq_run_ident [OF this, of "s\<lparr>in_var := True, var_buf := []\<rparr>" x n "t # rest"] assms
  have "pq_run x n (takeWhile is_ident cs @ t # rest) (s\<lparr>in_var := True, var_buf := []\<rparr>) =
      pq_run x n (t # rest) (s\<lparr>in_var := True, var_buf := take 511 (takeWhile is_ident cs)\<rparr>)"
    by (simp del: pq_run.simps)
  then have "pq_run x n cs (s\<lparr>in_var := True, var_buf := []\<rparr>) =
      pq_run x n (t # rest) (s\<lparr>in_var := True, var_buf := take 511 (takeWhile is_ident cs)\<rparr>)"
    unfolding assms(3) [symmetric] takeWhile_dropWhile_id .
  with assms(1,2) t show ?thesis by (simp add: pq_step_def)
qed

lemma agrees_variable:
  assumes x: "x_escape x = esc" "x_extra x = extra"
    and s: "\<not> in_var s" "\<not> escaped s" and d: "dropWhile is_ident cs = t # rest"
    and IH: "\<And>s. \<not> in_var s \<Longrightarrow> \<not> escaped s \<Longrightarrow> agrees x n rest s"
  shows "agrees x n (CHR ''$'' # cs) s"
proof -
  let ?name = "take 511 (takeWhile is_ident cs)" and ?cs = "CHR ''$'' # cs"
  let ?s1 = "s\<lparr>in_var := True, var_buf := ?name\<rparr>"
  have ex: "expand_ref (x_rand x) esc ?cs (pq_dicts s) (pq_gen s) =
      bindR (var_word (x_rand x) ?name (pq_dicts s) (pq_gen s)) (\<lambda>(word, ds, g).
        mapR (\<lambda>(s, r). (esc word @ t # s, r)) (expand_ref (x_rand x) esc rest ds g))"
    using d by (simp add: MAX_VAR_BUF_def expand_ref.simps(2))
  note run = pq_run_variable [OF s d, of x n]
  show ?thesis
  proof (cases "var_word (x_rand x) ?name (pq_dicts s) (pq_gen s)")
    case (Inl e)
    then show ?thesis by (simp add: agrees_def ex run end_var_def del: pq_run.simps)
  next
    case (Inr y)
    obtain w ds g where y: "y = (w, ds, g)" by (cases y) auto
    have "var_word (x_rand x) (var_buf ?s1) (pq_dicts ?s1) (pq_gen ?s1) = Inr (w, ds, g)"
      using Inr y by simp
    from end_var_word [OF x this, of n t] obtain buf where
      ev: "end_var x n t ?s1 = Inr (s\<lparr>parsed_query := buf, pq_dicts := ds, pq_gen := g,
          var_buf := [], in_var := False\<rparr>)"
      and buf: "2 * (length (parsed_query s) + length (esc w) + 1) < n \<Longrightarrow> buf = parsed_query s @ esc w @ [t]"
      by auto
    let ?s2 = "s\<lparr>parsed_query := buf, pq_dicts := ds, pq_gen := g, var_buf := [], in_var := False\<rparr>"
    have ag: "agrees x n rest ?s2" using s(2) by (intro IH) simp_all
    have run2: "pq_run x n ?cs s = pq_run x n rest ?s2" unfolding run ev bindR_simps ..
    show ?thesis
    proof (cases "expand_ref (x_rand x) esc rest ds g")
      case e: (Inl e)
      with ag agrees_error [of x rest ?s2 e n] show ?thesis
        by (simp add: agrees_def ex Inr y run2 del: pq_run.simps)
    next
      case o: (Inr z)
      obtain out ds' g' where z: "z = (out, ds', g')" by (cases z) auto
      from ag agrees_text [of x rest ?s2 out ds' g' n] o z
      obtain s' where s': "pq_run x n rest ?s2 = Inr s'" "pq_dicts s' = ds'" "pq_gen s' = g'"
        "2 * (length buf + length out) < n \<longrightarrow> parsed_query s' = buf @ out"
        by auto
      have "parsed_query s' = parsed_query s @ (esc w @ t # out)"
        if "2 * (length (parsed_query s) + length (esc w @ t # out)) < n"
      proof -
        from that have "buf = parsed_query s @ esc w @ [t]" by (intro buf) simp
        with that s'(4) show ?thesis by simp
      qed
      with s' show ?thesis by (simp add: agrees_def ex Inr y run2 o z del: pq_run.simps)
    qed
  qed
qed

lemma pq_run_expand:
  assumes x: "x_escape x = esc" "x_extra x = extra"
  shows "\<not> in_var s \<Longrightarrow> \<not> escaped s \<Longrightarrow> agrees x n cs s"
proof (induction cs arbitrary: s rule: length_induct)
  case (1 cs)
  show ?case
  proof (cases cs)
    case Nil
    then show ?thesis by (simp add: agrees_def)
  next
    case cs: (Cons c cs')
    consider (bs) "c = BSLASH" | (lit) "c \<noteq> BSLASH" "c \<noteq> CHR ''$''"
      | (open_var) "c = CHR ''$''" "dropWhile is_ident cs' = []"
      | (var) t rest where "c = CHR ''$''" "dropWhile is_ident cs' = t # rest"
      by (cases "dropWhile is_ident cs'") blast+
    then show ?thesis
    proof cases
      case bs
      with cs agrees_backslash [OF 1(2,3)] show ?thesis by simp
    next
      case lit
      with 1 cs show ?thesis by (simp add: agrees_literal)
    next
      case open_var
      with cs agrees_open_variable [OF 1(2,3)] show ?thesis by simp
    next
      case var
      then have "length rest < length cs"
        using length_dropWhile_le [of is_ident cs'] cs by simp
      with 1 var cs agrees_variable [OF x 1(2,3) var(2)] show ?thesis by simp
    qed
  qed
qed

lemma parse_query_expand:
  assumes x: "x_escape x = esc" "x_extra x = extra"
  shows "case expand_ref (x_rand x) esc (c_str q) ds g of
      Inl e \<Rightarrow> parse_query x n q ds g = Inl e
    | Inr (out, r) \<Rightarrow> 2 * length out < n \<longrightarrow> parse_query x n q ds g = Inr (c_str out, r)"
proof -
  have ag: "agrees x n (c_str q) (pq_start ds g)"
    by (rule pq_run_expand [OF x]) (simp_all add: pq_start_def)
  show ?thesis
  proof (cases "expand_ref (x_rand x) esc (c_str q) ds g")
    case (Inl e)
    with ag show ?thesis by (simp add: agrees_def pq_start_def parse_query_def)
  next
    case (Inr y)
    obtain out ds' g' where y: "y = (out, ds', g')" by (cases y) auto
    from ag Inr y obtain s' where "pq_run x n (c_str q) (pq_start ds g) = Inr s'"
      "pq_dicts s' = ds'" "pq_gen s' = g'" "2 * length out < n \<longrightarrow> parsed_query s' = out"
      by (auto simp: agrees_def pq_start_def)
    moreover have "c_str (out @ [NUL]) = c_str out" by (induction out) (simp_all add: c_str_def)
    ultimately show ?thesis by (auto simp: parse_query_def Inr y)
  qed
qed

end

section \<open>Client::escape_string\<close>

lemma length_escape_string:
  "length w \<le> length (escape_string w)" "length (escape_string w) \<le> 2 * length w"
  by (induction w) auto

lemma escape_string_no_NUL: "NUL \<notin> set w \<Longrightarrow> NUL \<notin> set (escape_string w)"
  by (induction w) auto

interpretation client_esc: escaper escape_string 0
  by unfold_locales (auto simp: length_escape_string escape_string_no_NUL)

definition client_expander :: "('g \<Rightarrow> nat \<times> 'g) \<Rightarrow> 'g expander" where
  "client_expander rand = \<lparr>x_rand = rand, x_escape = escape_string, x_extra = 0\<rparr>"

text \<open>A reader of a quoted SQL string: \<open>unquote q s\<close> reads the body of a literal opened by the quote \<open>q\<close>
  and returns the value and what follows the closing quote.\<close>

fun unquote :: "char \<Rightarrow> string \<Rightarrow> (string \<times> string) option" where
  "unquote q [] = None"
| "unquote q [c] = (if c = q then Some ([], []) else None)"
| "unquote q (c # d # cs) =
     (if c = q then Some ([], d # cs)
      else if c = BSLASH then map_option (\<lambda>(v, r). (d # v, r)) (unquote q cs)
      else map_option (\<lambda>(v, r). (c # v, r)) (unquote q (d # cs)))"

lemma unquote_literal:
  "c \<noteq> q \<Longrightarrow> c \<noteq> BSLASH \<Longrightarrow> unquote q (c # cs) = map_option (\<lambda>(v, r). (c # v, r)) (unquote q cs)"
  by (cases cs) auto

lemma unquote_close: "unquote q (q # cs) = Some ([], cs)"
  by (cases cs) auto



section \<open>The expansion\<close>

text \<open>A pool with one sequential dictionary, used by the witnesses.\<close>

definition example_pool :: dicts where
  "example_pool = Some [(''w'', Some (Seq_dictionary (load_list ''ab,c'd,'' new_Seq_dictionary)))]"

lemma example_pool_words: "words (load_list ''ab,c'd,'' new_Seq_dictionary) = [''ab'', ''c'd'']"
  by (simp add: load_list_eq c_str_def new_Seq_dictionary_def new_Dictionary_def dictionary.defs)

lemma example_pool_ind: "cur_word_ind (load_list ''ab,c'd,'' new_Seq_dictionary) = 0"
  by (simp add: load_list_def new_Seq_dictionary_def dictionary.defs)

lemma example_pool_ready: "pool_ready example_pool"
  by (simp add: pool_ready_def example_pool_def smap_ok_def smap_find_def dict_ok_def dict_ready_def
      seq_ready_def example_pool_words example_pool_ind)



text \<open>
  C10: the expansion loop computes the reference expansion.  When the expanded text takes less than half
  the buffer the text sent to the server is the reference expansion of the query, with the same draws from
  the dictionaries; and when the reference stops with an error the loop stops with the same one, whatever
  the size of the buffer.
\<close>

theorem safe_parsed_query_expands:
  assumes "escaper (x_escape x) (x_extra x)"
  shows "case expand_ref (x_rand x) (x_escape x) (c_str q) ds g of
      Inl e \<Rightarrow> parse_query x n q ds g = Inl e
    | Inr (out, r) \<Rightarrow> 2 * length out < n \<longrightarrow> parse_query x n q ds g = Inr (c_str out, r)"
  by (rule escaper.parse_query_expand [OF assms refl refl])

lemma example_expansion:
  "\<exists>r. expand_ref lcg escape_string (c_str ''id='$w' or '$w'.'') example_pool g =
     Inr (''id='ab' or 'c'' @ [BSLASH] @ '''d'.'', r)"
  by (simp add: expand_ref.simps(2) c_str_def is_ident_def char_class_defs MAX_VAR_BUF_def var_word_def
      example_pool_def smap_index_def smap_find_def next_word_def seq_next_word_def example_pool_words
      example_pool_ind)

theorem safe_parsed_query_expands_witness:
  "\<exists>r. parse_query (client_expander lcg) 8192 ''id='$w' or '$w'.'' example_pool 1 =
     Inr (''id='ab' or 'c'' @ [BSLASH] @ '''d'.'', r)"
proof -
  obtain r where "expand_ref lcg escape_string (c_str ''id='$w' or '$w'.'') example_pool 1 =
      Inr (''id='ab' or 'c'' @ [BSLASH] @ '''d'.'', r)"
    using example_expansion by blast
  with safe_parsed_query_expands [where x = "client_expander lcg" and q = "''id='$w' or '$w'.''"
      and ds = example_pool and g = 1 and n = 8192]

  show ?thesis by (simp add: client_expander_def client_esc.escaper_axioms c_str_def)
qed

end
