(* ===== verification/Smack_Float.thy ===== *)
theory Smack_Float
  imports Complex_Main "HOL-Library.Log_Nat" Smack_Num
begin

text \<open>
  The floating-point arithmetic the sources use, on rationals: rounding to the nearest \<open>float\<close> or
  \<open>double\<close> (ties to even), \<open>atof\<close>, and the conversions \<open>%.2f\<close> and \<open>%f\<close> of \<open>printf\<close>.  A value beyond the
  largest float is kept as the rational it is: the sources only convert such values to \<open>int\<close>, which is
  undefined for every value outside the range of \<open>int\<close>.
\<close>

section \<open>Rounding\<close>

definition rnd_even :: "rat \<Rightarrow> int" where
  "rnd_even x =
     (let n = \<lfloor>x\<rfloor>; f = x - of_int n
      in if f < 1 / 2 then n else if 1 / 2 < f then n + 1 else if even n then n else n + 1)"

text \<open>The exponent of the binade of a positive rational.\<close>

definition ilog2 :: "rat \<Rightarrow> int" where
  "ilog2 x =
     (let (n, d) = quotient_of x; k = bitlen n - bitlen d
      in if x < 2 powi k then k - 1 else k)"

text \<open>The spacing of the floats around \<open>x\<close>, for \<open>p\<close> bits of precision and the least exponent \<open>emin\<close>.\<close>

definition ulp :: "int \<Rightarrow> int \<Rightarrow> rat \<Rightarrow> rat" where
  "ulp p emin x = 2 powi (max (ilog2 \<bar>x\<bar> - p + 1) emin)"

definition fl :: "int \<Rightarrow> int \<Rightarrow> rat \<Rightarrow> rat" where
  "fl p emin x = (if x = 0 then 0 else of_int (rnd_even (x / ulp p emin x)) * ulp p emin x)"

abbreviation to_float :: "rat \<Rightarrow> rat" where "to_float \<equiv> fl 24 (- 149)"
abbreviation to_double :: "rat \<Rightarrow> rat" where "to_double \<equiv> fl 53 (- 1074)"

lemma rnd_even_of_int [simp]: "rnd_even (of_int n) = n"
  by (simp add: rnd_even_def)

lemma rnd_even_le: "x \<le> of_int k \<Longrightarrow> rnd_even x \<le> k"
proof -
  assume x: "x \<le> of_int k"
  show ?thesis
  proof (cases "\<lfloor>x\<rfloor> < k")
    case True
    then show ?thesis by (simp add: rnd_even_def Let_def)
  next
    case False
    with x have "x = of_int k" by linarith
    then show ?thesis by simp
  qed
qed

lemma rnd_even_ge: "of_int k \<le> x \<Longrightarrow> k \<le> rnd_even x"
proof -
  assume "of_int k \<le> x"
  then have "k \<le> \<lfloor>x\<rfloor>" by (simp add: le_floor_iff)
  then show ?thesis by (simp add: rnd_even_def Let_def)
qed

lemma ulp_pos [simp]: "0 < ulp p emin x"
  by (simp add: ulp_def)

lemma fl_le:
  assumes "x \<le> of_int k * ulp p emin x"
  shows "fl p emin x \<le> of_int k * ulp p emin x"
proof (cases "x = 0")
  case True
  with assms show ?thesis by (simp add: fl_def)
next
  case False
  have "x / ulp p emin x \<le> of_int k" using assms by (simp add: pos_divide_le_eq)
  from rnd_even_le [OF this] have "rnd_even (x / ulp p emin x) \<le> k" .
  then have "(of_int (rnd_even (x / ulp p emin x)) :: rat) \<le> of_int k" by simp
  with False show ?thesis by (simp add: fl_def mult_right_mono less_imp_le)
qed

lemma fl_nonneg: "0 \<le> x \<Longrightarrow> 0 \<le> fl p emin x"
proof -
  assume "0 \<le> x"
  then have "of_int 0 \<le> x / ulp p emin x" by (simp add: less_imp_le)
  from rnd_even_ge [OF this] show ?thesis by (simp add: fl_def less_imp_le)
qed

lemma fl_multiple: "x = of_int k * ulp p emin x \<Longrightarrow> fl p emin x = x"
proof -
  assume x: "x = of_int k * ulp p emin x"
  then have "x / ulp p emin x = of_int k"
    using ulp_pos [of p emin x] by (simp add: divide_eq_eq del: ulp_pos)
  with x show ?thesis by (simp add: fl_def)
qed

lemma ilog2_bounds:
  assumes "0 < x"
  shows "2 powi ilog2 x \<le> x \<and> x < 2 powi (ilog2 x + 1)"
proof -
  obtain n d where q: "quotient_of x = (n, d)" by (cases "quotient_of x") auto
  have x: "x = of_int n / of_int d" and d: "0 < d"
    using q quotient_of_div quotient_of_denom_pos by auto
  with assms have n: "0 < n" by (simp add: zero_less_divide_iff)
  have pw: "(2::rat) powi bitlen i = 2 * 2 powi (bitlen i - 1)" for i
    by (subst power_int_add_1' [symmetric]) simp_all
  have b: "2 powi (bitlen i - 1) \<le> (of_int i :: rat) \<and> (of_int i :: rat) < 2 powi bitlen i" if "0 < i" for i
  proof -
    from bitlen_bounds [OF that] have "2 ^ nat (bitlen i - 1) \<le> i" "i < 2 ^ nat (bitlen i)" by auto
    then have "(of_int (2 ^ nat (bitlen i - 1)) :: rat) \<le> of_int i"
      "(of_int i :: rat) < of_int (2 ^ nat (bitlen i))"
      by (simp_all only: of_int_le_iff of_int_less_iff)
    moreover have "1 \<le> bitlen i" using that bitlen_eq_zero_iff [of i] bitlen_nonneg [of i] by auto
    ultimately show ?thesis by (simp add: power_int_def)
  qed
  let ?k = "bitlen n - bitlen d"
  have lo: "2 powi (?k - 1) \<le> x"
  proof -
    have "(2::rat) powi (?k - 1) = 2 powi (bitlen n - 1) / 2 powi bitlen d"
      by (simp add: power_int_diff [symmetric] algebra_simps)
    also have "\<dots> \<le> of_int n / of_int d"
      using b [OF n] b [OF d] d n by (intro frac_le) simp_all

    finally show ?thesis by (simp add: x)
  qed
  have hi: "x < 2 powi (?k + 1)"
  proof -
    have "of_int n / of_int d < (2 powi bitlen n / 2 powi (bitlen d - 1) :: rat)"
      using b [OF n] b [OF d] n by (intro frac_less) simp_all
    also have "\<dots> = 2 powi (?k + 1)"
      by (simp add: power_int_diff [symmetric] algebra_simps)
    finally show ?thesis by (simp add: x)
  qed
  show ?thesis using lo hi by (auto simp: ilog2_def q Let_def)
qed

lemma ulp_int:
  assumes "\<bar>n\<bar> < 2 ^ nat p" "0 \<le> p" "emin \<le> 0" "n \<noteq> 0"
  shows "ulp p emin (of_int n) = 2 powi (max (ilog2 \<bar>of_int n\<bar> - p + 1) emin)
    \<and> max (ilog2 \<bar>of_int n\<bar> - p + 1) emin \<le> 0"
proof -
  have "2 powi ilog2 \<bar>of_int n\<bar> \<le> (\<bar>of_int n\<bar> :: rat)"
    using ilog2_bounds [of "\<bar>of_int n\<bar>"] assms(4) by simp
  also have "\<dots> < 2 powi p"
  proof -
    have "(of_int \<bar>n\<bar> :: rat) < of_int (2 ^ nat p)" using assms(1) by (simp only: of_int_less_iff)
    with assms(2) show ?thesis by (simp add: power_int_def)
  qed
  finally have "(2::rat) powi ilog2 \<bar>of_int n\<bar> < 2 powi p" .
  then have "ilog2 \<bar>of_int n\<bar> < p"
    using power_int_increasing [of p "ilog2 \<bar>of_int n\<bar>" "2::rat"] by force

  with assms(3) show ?thesis by (simp add: ulp_def)
qed

text \<open>Integers with at most \<open>p\<close> bits are floats.\<close>

lemma fl_int:
  assumes "\<bar>n\<bar> < 2 ^ nat p" "0 \<le> p" "emin \<le> 0"
  shows "fl p emin (of_int n) = of_int n"
proof (cases "n = 0")
  case False
  let ?q = "max (ilog2 \<bar>of_int n\<bar> - p + 1) emin"
  from ulp_int [OF assms False] have u: "ulp p emin (of_int n) = 2 powi ?q" and q: "?q \<le> 0" by blast+
  have "(2::rat) powi (- ?q) * 2 powi ?q = 1" by (simp add: power_int_minus)
  moreover have "(2::rat) powi (- ?q) = of_int (2 ^ nat (- ?q))" using q by (simp add: power_int_def)
  ultimately have "of_int n = of_int (n * 2 ^ nat (- ?q)) * (2::rat) powi ?q"
    by (metis (no_types, lifting) mult.assoc mult.right_neutral of_int_mult)
  from fl_multiple [of "of_int n" "n * 2 ^ nat (- ?q)" p emin, unfolded u, OF this] show ?thesis .
qed (simp add: fl_def)

text \<open>Rounding does not go past an integer with at most \<open>p\<close> bits.\<close>

lemma fl_le_int:
  assumes "0 \<le> x" "x \<le> of_int k" "k < 2 ^ nat p" "0 \<le> p" "emin \<le> 0"
  shows "fl p emin x \<le> of_int k"
proof (cases "x = 0")
  case True
  with assms(1,2) show ?thesis by (simp add: fl_def)
next
  case False
  with assms(1) have x: "0 < x" by simp
  have "2 powi ilog2 x \<le> x" using ilog2_bounds [OF x] by simp
  also have "\<dots> \<le> of_int k" by (rule assms(2))
  also have "(of_int k :: rat) < of_int (2 ^ nat p)" using assms(3) by (simp only: of_int_less_iff)
  also have "\<dots> = 2 powi p" using assms(4) by (simp add: power_int_def)
  finally have "(2::rat) powi ilog2 x < 2 powi p" .
  then have "ilog2 x < p" using power_int_increasing [of p "ilog2 x" "2::rat"] by force
  let ?q = "max (ilog2 x - p + 1) emin"
  have q: "?q \<le> 0" using \<open>ilog2 x < p\<close> assms(5) by simp
  have "(2::rat) powi (- ?q) * 2 powi ?q = 1" by (simp add: power_int_minus)
  moreover have "(2::rat) powi (- ?q) = of_int (2 ^ nat (- ?q))" using q by (simp add: power_int_def)
  ultimately have k: "of_int k = of_int (k * 2 ^ nat (- ?q)) * (2::rat) powi ?q"
    by (metis (no_types, lifting) mult.assoc mult.right_neutral of_int_mult)
  have u: "ulp p emin x = 2 powi ?q" using x by (simp add: ulp_def)
  from assms(2) have "x \<le> of_int (k * 2 ^ nat (- ?q)) * ulp p emin x" unfolding u k [symmetric] .
  from fl_le [OF this] show ?thesis unfolding u k [symmetric] .
qed

section \<open>atof\<close>

datatype fval = Fin rat | Inf bool | NaN

definition is_base_digit :: "nat \<Rightarrow> char \<Rightarrow> bool" where
  "is_base_digit base c \<longleftrightarrow>
     isdigit c \<or> (base = 16 \<and> of_char (tolower c) \<ge> (97::nat) \<and> of_char (tolower c) \<le> (102::nat))"

definition base_digit :: "char \<Rightarrow> nat" where
  "base_digit c = (if isdigit c then digit_val c else of_char (tolower c) - 87)"

definition base_value :: "nat \<Rightarrow> string \<Rightarrow> nat" where
  "base_value base s = foldl (\<lambda>a c. base * a + base_digit c) 0 s"

text \<open>The exponent after the mantissa: a letter, an optional sign and at least one digit, else none.\<close>

definition exponent :: "char \<Rightarrow> string \<Rightarrow> int" where
  "exponent letter s =
     (case s of
        [] \<Rightarrow> 0
      | c # cs \<Rightarrow>
          if tolower c \<noteq> letter then 0
          else if cs \<noteq> [] \<and> hd cs = CHR ''-'' then - int (digits_from 0 (tl cs))
          else if cs \<noteq> [] \<and> hd cs = CHR ''+'' then int (digits_from 0 (tl cs))
          else int (digits_from 0 cs))"

text \<open>A mantissa with an optional point and the exponent, in base 10 or 16; no digits mean zero.\<close>

definition scan_float :: "nat \<Rightarrow> char \<Rightarrow> rat \<Rightarrow> string \<Rightarrow> rat" where
  "scan_float base letter ebase s =
     (let ip = takeWhile (is_base_digit base) s; r = dropWhile (is_base_digit base) s;
          point = r \<noteq> [] \<and> hd r = CHR ''.'';
          fp = (if point then takeWhile (is_base_digit base) (tl r) else []);
          r = (if point then dropWhile (is_base_digit base) (tl r) else r)
      in if ip @ fp = [] then 0
         else of_nat (base_value base (ip @ fp)) / of_nat base ^ length fp * ebase powi exponent letter r)"

definition starts_hex :: "string \<Rightarrow> bool" where
  "starts_hex s =
     (case s of
        a # b # c # r \<Rightarrow> a = CHR ''0'' \<and> tolower b = CHR ''x'' \<and>
          (is_base_digit 16 c \<or> (c = CHR ''.'' \<and> r \<noteq> [] \<and> is_base_digit 16 (hd r)))
      | _ \<Rightarrow> False)"

definition atof :: "string \<Rightarrow> fval" where
  "atof str =
     (let s = dropWhile isspace (c_str str);
          neg = (s \<noteq> [] \<and> hd s = CHR ''-'');
          s = (if s \<noteq> [] \<and> (hd s = CHR ''-'' \<or> hd s = CHR ''+'') then tl s else s);
          low = map tolower (take 3 s)
      in if low = ''inf'' then Inf neg
         else if low = ''nan'' then NaN
         else
           let v = (if starts_hex s then scan_float 16 (CHR ''p'') 2 (drop 2 s)
                    else scan_float 10 (CHR ''e'') 10 s)
           in Fin (to_double (if neg then - v else v)))"

section \<open>Fixed-point conversions of printf\<close>

text \<open>\<open>%.kf\<close> of a finite value: the nearest multiple of \<open>10\<close> to the \<open>- k\<close>, ties to even.\<close>

definition fmt_fixed :: "nat \<Rightarrow> rat \<Rightarrow> string" where
  "fmt_fixed k x =
     (let n = nat (rnd_even (\<bar>x\<bar> * 10 ^ k)); frac = dec (n mod 10 ^ k)
      in (if x < 0 then ''-'' else '''') @ dec (n div 10 ^ k) @
         (if k = 0 then '''' else CHR ''.'' # replicate (k - length frac) (CHR ''0'') @ frac))"

lemma fmt_fixed_int: "0 \<le> n \<Longrightarrow> 0 < k \<Longrightarrow>
  fmt_fixed k (of_int n) = dec (nat n) @ CHR ''.'' # replicate k (CHR ''0'')"
proof -
  assume n: "0 \<le> n" and k: "0 < k"
  have 1: "\<bar>of_int n\<bar> * 10 ^ k = (of_int (n * 10 ^ k) :: rat)" using n by simp
  have "nat (n * 10 ^ k) = nat n * 10 ^ k" using n by (simp add: nat_mult_distrib nat_power_eq)
  moreover have "dec 0 = ''0''" by (simp add: dec.simps digit_char_def char_of_def bit_iff_odd)
  moreover have "replicate (k - 1) (CHR ''0'') @ ''0'' = replicate k (CHR ''0'')"
    using k by (metis Suc_diff_1 replicate_Suc replicate_append_same)
  ultimately show ?thesis
    using n k unfolding fmt_fixed_def 1 rnd_even_of_int by (simp add: Let_def)
qed

end
