(* ===== verification/Smack_Report.thy ===== *)
theory Smack_Report
  imports Smack_Map Smack_Num Smack_Float
begin

text \<open>
  \<^verbatim>\<open>src/query.h\<close> and \<^verbatim>\<open>src/query.cc\<close>: queries, the statistics kept per query type, and the byte format
  in which a smacker process sends its statistics to the reporting process (\<open>Query_report::fd_send\<close> and
  \<open>Query_report::update_from_fd\<close>).
\<close>

section \<open>Queries and statistics\<close>

record query =
  query_text :: string
  query_name :: string
  type_name :: string
  has_result_set :: int
  parsed :: int

definition new_Query :: query where
  "new_Query = \<lparr>query_text = '''', query_name = '''', type_name = '''', has_result_set = 0, parsed = 0\<rparr>"

definition query_print :: "query \<Rightarrow> string" where
  "query_print q =
     ''Query:'' @ ''query='' @ query_text q @ '',name='' @ query_name q @ '',has_result_set='' @
     dec_int (has_result_set q) @ '',type_name='' @ type_name q @ '',parsed='' @ dec_int (parsed q) @
     [CHR 0x0A]"

text \<open>\<open>struct timeval\<close>, ordered by seconds and then microseconds.\<close>

datatype timeval = Timeval

 (tv_sec: int) (tv_usec: int)

instantiation timeval :: linorder
begin

definition less_eq_timeval :: "timeval \<Rightarrow> timeval \<Rightarrow> bool" where
  "less_eq_timeval s t \<longleftrightarrow> tv_sec s < tv_sec t \<or> (tv_sec s = tv_sec t \<and> tv_usec s \<le> tv_usec t)"

definition less_timeval :: "timeval \<Rightarrow> timeval \<Rightarrow> bool" where
  "less_timeval s t \<longleftrightarrow> tv_sec s < tv_sec t \<or> (tv_sec s = tv_sec t \<and> tv_usec s < tv_usec t)"

instance
  by intro_classes (auto simp: less_eq_timeval_def less_timeval_def timeval.expand)

end

record qtr =
  num_queries :: int
  min_time :: int
  max_time :: int

definition new_qtr :: qtr where
  "new_qtr = \<lparr>num_queries = 0, min_time = 0, max_time = 0\<rparr>"

text \<open>\<open>Query_type_report::update(int q_time)\<close>.\<close>

definition qtr_update :: "int \<Rightarrow> qtr \<Rightarrow> qtr result" where
  "qtr_update q_time r =
     (let r' = (if num_queries r \<noteq> 0 then r\<lparr>min_time := q_time, max_time := q_time\<rparr>
                else r\<lparr>min_time := if min_time r > q_time then q_time else min_time r,
                       max_time := if max_time r < q_time then q_time else max_time r\<rparr>)
      in mapR (\<lambda>n. r'\<lparr>num_queries := n\<rparr>) (chk (num_queries r + 1)))"

text \<open>\<open>Query_type_report::update(int num_queries, int max_q_time, int min_q_time)\<close>.\<close>

definition qtr_merge :: "int \<Rightarrow> int \<Rightarrow> int \<Rightarrow> qtr \<Rightarrow> qtr result" where
  "qtr_merge n max_q_time min_q_time r =
     mapR (\<lambda>k. r\<lparr>num_queries := k,
                 max_time := if max_time r < max_q_time then max_q_time else max_time r,
                 min_time := if min_time r > min_q_time then min_q_time else min_time r\<rparr>)
       (chk (num_queries r + n))"

type_synonym tmap = "qtr option smap"

record query_report =
  type_reports :: tmap
  clock_start :: timeval
  clock_end :: timeval

definition new_Query_report :: query_report where
  "new_Query_report = \<lparr>type_reports = [], clock_start = Timeval 0 0, clock_end = Timeval 0 0\<rparr>"

text \<open>\<open>Query_report::update(const char* type_name, int q_time)\<close>: a missing type inserts a NULL entry.\<close>

definition report_update :: "string \<Rightarrow> int \<Rightarrow> query_report \<Rightarrow> query_report result" where
  "report_update tname q_time qr =
     (let (p, m) = smap_index tname (type_reports qr)
      in case p of
           None \<Rightarrow> Inr (qr\<lparr>type_reports := m\<rparr>)
         | Some r \<Rightarrow> mapR (\<lambda>r'. qr\<lparr>type_reports := smap_put tname (Some r') m\<rparr>) (qtr_update q_time r))"

definition report_start_clock :: "timeval \<Rightarrow> query_report \<Rightarrow> query_report" where
  "report_start_clock now qr = qr\<lparr>clock_start := now\<rparr>"

definition report_stop_clock :: "timeval \<Rightarrow> query_report \<Rightarrow> query_report" where
  "report_stop_clock now qr = qr\<lparr>clock_end := now\<rparr>"

text \<open>\<open>Query_report::get_run_time\<close>, in double.\<close>

definition run_time :: "query_report \<Rightarrow> rat" where
  "run_time qr =
     to_double (to_double (of_int (tv_sec (clock_end qr) - tv_sec (clock_start qr)))
       + to_double (to_double (of_int (tv_usec (clock_end qr) - tv_usec (clock_start qr))) / 1000000))"

section \<open>The printed report\<close>

text \<open>
  The printed rate: \<open>(float)num_queries / (float)(t_s + (float)t_us/1000000.0)\<close> with two decimals, the
  addition in double.
\<close>

definition q_per_s_text :: "int \<Rightarrow> int \<Rightarrow> int \<Rightarrow> string result" where
  "q_per_s_text n t_s t_us =
     (let t = to_float (to_double (of_int t_s + to_double (to_float (of_int t_us) / 1000000)))
      in if t = 0 then undef Div_by_zero
         else Inr (fmt_fixed 2 (to_float (to_float (of_int n) / t))))"

abbreviation TAB :: char where "TAB \<equiv> CHR 0x09"

definition qtr_print :: "int \<Rightarrow> int \<Rightarrow> qtr \<Rightarrow> string result" where
  "qtr_print t_s t_us r =
     mapR (\<lambda>q_per_s. dec_int (num_queries r) @ [TAB] @ dec_int (max_time r) @ [TAB] @
             dec_int (min_time r) @ [TAB] @ q_per_s @ [CHR 0x0A])
       (if t_s = 0 \<and> t_us = 0 then Inr ''n/a'' else q_per_s_text (num_queries r) t_s t_us)"

fun report_lines :: "(qtr \<Rightarrow> string result) \<Rightarrow> nat \<Rightarrow> tmap \<Rightarrow> string result" where
  "report_lines pr sz [] = Inr []"
| "report_lines pr sz ((k, p) # m) =
     (case p of
        None \<Rightarrow> die (Null_type_report sz)
      | Some r \<Rightarrow>
          bindR (pr r) (\<lambda>line. mapR (\<lambda>s. k @ [TAB] @ line @ s) (report_lines pr sz m)))"

definition report_print :: "query_report \<Rightarrow> string result" where
  "report_print qr =
     mapR (\<lambda>s. ''Query_type'' @ [TAB] @ ''num_queries'' @ [TAB] @ ''max_time'' @ [TAB] @ ''min_time'' @
               [TAB] @ ''q_per_s'' @ [CHR 0x0A] @ s)
       (report_lines
          (qtr_print (to_int32 (tv_sec (clock_end qr) - tv_sec (clock_start qr)))
             (to_int32 (tv_usec (clock_end qr) - tv_usec (clock_start qr))))

          (length (type_reports qr)) (type_reports qr))"

section \<open>The wire format\<close>

text \<open>An \<open>int\<close> in memory: four bytes, least significant first.\<close>

definition int_bytes :: "int \<Rightarrow> string" where
  "int_bytes i =
     (let n = i mod 4294967296
      in [char_of n, char_of (n div 256), char_of (n div 65536), char_of (n div 16777216)])"

definition int_of_bytes :: "string \<Rightarrow> int" where
  "int_of_bytes bs =
     to_int32 (of_char (bs ! 0) + 256 * of_char (bs ! 1) + 65536 * of_char (bs ! 2)
       + 16777216 * of_char (bs ! 3))"

definition MAX_REPORT_LEN :: nat where "MAX_REPORT_LEN = 1024"

text \<open>
  The loop of \<open>fd_send\<close>: the buffer written so far (its first byte is reserved) and \<open>num_recs\<close>.  Every
  write into the buffer is checked against its size.
\<close>

fun fd_send_loop :: "tmap \<Rightarrow> string \<Rightarrow> nat \<Rightarrow> (string \<times> nat) result" where
  "fd_send_loop [] buf num_recs = Inr (buf, num_recs)"
| "fd_send_loop ((k, p) # m) buf num_recs =
     (let str_len = length k
      in if length buf + str_len + 12 < MAX_REPORT_LEN then
           (case p of
              None \<Rightarrow> undef Null_deref
            | Some r \<Rightarrow>
                bindR (put MAX_REPORT_LEN buf [char_of str_len]) (\<lambda>buf.
                bindR (put MAX_REPORT_LEN buf k) (\<lambda>buf.
                bindR (put MAX_REPORT_LEN buf (int_bytes (num_queries r))) (\<lambda>buf.
                bindR (put MAX_REPORT_LEN buf (int_bytes (max_time r))) (\<lambda>buf.
                bindR (put MAX_REPORT_LEN buf (int_bytes (min_time r))) (\<lambda>buf.
                fd_send_loop m buf (num_recs + 1)))))))
         else die Report_overflow)"

definition fd_send_bytes :: "query_report \<Rightarrow> string result" where
  "fd_send_bytes qr =
     mapR (\<lambda>(buf, num_recs). char_of num_recs # tl buf) (fd_send_loop (type_reports qr) [NUL] 0)"

text \<open>\<open>write\<close> and \<open>read\<close> on a descriptor are parameters: the count written; the bytes read, or an error.\<close>

definition fd_send :: "(string \<Rightarrow> 'fd \<Rightarrow> int \<times> 'fd) \<Rightarrow> query_report \<Rightarrow> 'fd \<Rightarrow> 'fd result" where
  "fd_send write qr fd =
     bindR (fd_send_bytes qr) (\<lambda>bs.
       let (n, fd') = write bs fd in if n \<noteq> int (length bs) then die Report_write_error else Inr fd')"

type_synonym 'fd reader = "nat \<Rightarrow> 'fd \<Rightarrow> string option \<times> 'fd"

text \<open>
  One round of the loop of \<open>update_from_fd\<close>: the report and the descriptor afterwards, and whether the
  function goes on (it returns at the end of the input).
\<close>

definition recv_step :: "'fd reader \<Rightarrow> 'fd \<Rightarrow> tmap \<Rightarrow> (tmap \<times> 'fd \<times> bool) result" where
  "recv_step rd fd m =
     (case rd 1 fd of
        (None, _) \<Rightarrow> die Report_read_error
      | (Some b, fd) \<Rightarrow>
          if b = [] then Inr (m, fd, False)
          else
            let q_type_len = of_char (hd b); bytes_to_read = q_type_len + 12
            in (case rd bytes_to_read fd of
                  (None, _) \<Rightarrow> die Report_read_error
                | (Some b, fd) \<Rightarrow>
                    if length b < bytes_to_read then die Incomplete_read
                    else
                      let read_num = int_of_bytes (take 4 (drop q_type_len b));
                          read_max = int_of_bytes (take 4 (drop (q_type_len + 4) b));
                          read_min = int_of_bytes (take 4 (drop (q_type_len + 8) b));
                          key = c_str (take q_type_len b);
                          (p, m) = smap_index key m
                      in (case p of
                            None \<Rightarrow> die (Invalid_q_type key)
                          | Some r \<Rightarrow>
                              mapR (\<lambda>r'. (smap_put key (Some r') m, fd, True))
                                (qtr_merge read_num read_max read_min r))))"

primrec recv_loop :: "'fd reader \<Rightarrow> nat \<Rightarrow> 'fd \<Rightarrow> tmap \<Rightarrow> (tmap \<times> 'fd) result" where
  "recv_loop rd 0 fd m = Inr (m, fd)"
| "recv_loop rd (Suc n) fd m =
     bindR (recv_step rd fd m) (\<lambda>(m, fd, go). if go then recv_loop rd n fd m else Inr (m, fd))"

definition update_from_fd :: "'fd reader \<Rightarrow> 'fd \<Rightarrow> query_report \<Rightarrow> (query_report \<times> 'fd) result" where
  "update_from_fd rd fd qr =
     (case rd 1 fd of
        (None, _) \<Rightarrow> die Report_read_error
      | (Some b, fd) \<Rightarrow>
          if b = [] then Inr (qr, fd)
          else mapR (\<lambda>(m, fd). (qr\<lparr>type_reports := m\<rparr>, fd))
                 (recv_loop rd (of_char (hd b)) fd (type_reports qr)))"

end
