(* ===== verification/Smack_Report_Proofs.thy ===== *)
theory Smack_Report_Proofs
  imports Smack_Report
begin

text \<open>
  What the statistics record, and the round trip of the wire format: the reporting process merges exactly
  what a smacker counted.  The locale \<open>byte_stream\<close> is the contract of the descriptor a report is read from.
\<close>

section \<open>Integers as bytes\<close>

lemma length_int_bytes [simp]: "length (int_bytes i) = 4"
  by (simp add: int_bytes_def Let_def)

lemma int_bytes_sum: "0 \<le> (n::int) \<Longrightarrow> n < 4294967296 \<Longrightarrow>
  n mod 256 + 256 * (n div 256 mod 256) + 65536 * (n div 65536 mod 256)
    + 16777216 * (n div 16777216 mod 256) = n"
proof -
  assume n: "0 \<le> n" "n < 4294967296"
  have d: "n div 65536 = n div 256 div 256" "n div 16777216 = n div 256 div 256 div 256"
    by (simp_all flip: zdiv_zmult2_eq)
  have "0 \<le> n div 16777216" "n div 16777216 < 256" using n by linarith+
  then have top: "n div 256 div 256 div 256 mod 256 = n div 256 div 256 div 256" by (simp add: d)
  have "n = n mod 256 + 256 * (n div 256)"
    "n div 256 = n div 256 mod 256 + 256 * (n div 256 div 256)"
    "n div 256 div 256 = n div 256 div 256 mod 256 + 256 * (n div 256 div 256 div 256)"
    by (simp_all only: mod_mult_div_eq)
  then show ?thesis unfolding d top by linarith
qed

lemma to_int32_mod: "in_int i \<Longrightarrow> to_int32 (i mod 4294967296) = i"
proof -
  assume "in_int i"
  then have "(i + 2147483648) mod 4294967296 = i + 2147483648"
    by (intro mod_pos_pos_trivial) (simp_all add: int_range_defs)
  moreover have "(i mod 4294967296 + 2147483648) mod 4294967296 = (i + 2147483648) mod 4294967296"
    by (simp add: mod_simps)
  ultimately show ?thesis unfolding to_int32_def by linarith
qed

lemma int_of_bytes_int_bytes: "in_int i \<Longrightarrow> int_of_bytes (int_bytes i) = i"
proof -
  assume i: "in_int i"
  let ?n = "i mod 4294967296"
  have n: "0 \<le> ?n" "?n < 4294967296" by simp_all
  have "int_of_bytes (int_bytes i) = to_int32 (?n mod 256 + 256 * (?n div 256 mod 256)
      + 65536 * (?n div 65536 mod 256) + 16777216 * (?n div 16777216 mod 256))"
    by (simp add: int_of_bytes_def int_bytes_def Let_def numeral_2_eq_2 numeral_3_eq_3 del: mod_mod_trivial)
  then show ?thesis by (simp only: int_bytes_sum [OF n] to_int32_mod [OF i])
qed

section \<open>fd_send\<close>

definition rec_bytes :: "string \<Rightarrow> qtr \<Rightarrow> string" where
  "rec_bytes k r =
     char_of (length k) # k @ int_bytes (num_queries r) @ int_bytes (max_time r) @ int_bytes (min_time r)"

fun body_bytes :: "tmap \<Rightarrow> string" where
  "body_bytes [] = []"
| "body_bytes ((k, p) # m) = (case p of None \<Rightarrow> [] | Some r \<Rightarrow> rec_bytes k r) @ body_bytes m"

definition no_nulls :: "tmap \<Rightarrow> bool" where
  "no_nulls m \<longleftrightarrow> (\<forall>(k, p) \<in> set m. p \<noteq> None)"

lemma length_rec_bytes [simp]: "length (rec_bytes k r) = length k + 13"
  by (simp add: rec_bytes_def)

lemma fd_send_loop_step:
  assumes "length buf + length k + 12 < MAX_REPORT_LEN"
  shows "fd_send_loop ((k, Some r) # m) buf n = fd_send_loop m (buf @ rec_bytes k r) (n + 1)"
  using assms by (simp add: MAX_REPORT_LEN_def put_def rec_bytes_def)

lemma fd_send_loop_ok:
  "no_nulls m \<Longrightarrow> length buf + length (body_bytes m) \<le> MAX_REPORT_LEN \<Longrightarrow>
   fd_send_loop m buf n = Inr (buf @ body_bytes m, n + length m)"
proof (induction m arbitrary: buf n)
  case (Cons e m)
  obtain k p where e: "e = (k, p)" by (cases e)
  from Cons.prems(1) obtain r where p: "p = Some r" and m: "no_nulls m"
    by (auto simp: no_nulls_def e)
  from Cons.prems(2) have "length buf + length k + 12 < MAX_REPORT_LEN" by (simp add: e p)
  from fd_send_loop_step [OF this] Cons.IH [OF m, of "buf @ rec_bytes k r" "n + 1"] Cons.prems(2)
  show ?case by (simp add: e p)
qed simp

lemma fd_send_loop_overflow:
  "no_nulls m \<Longrightarrow> MAX_REPORT_LEN < length buf + length (body_bytes m) \<Longrightarrow>
   length buf \<le> MAX_REPORT_LEN \<Longrightarrow> fd_send_loop m buf n = die Report_overflow"
proof (induction m arbitrary: buf n)
  case (Cons e m)
  obtain k p where e: "e = (k, p)" by (cases e)
  from Cons.prems(1) obtain r where p: "p = Some r" and m: "no_nulls m"
    by (auto simp: no_nulls_def e)
  show ?case
  proof (cases "length buf + length k + 12 < MAX_REPORT_LEN")
    case True
    from fd_send_loop_step [OF this] Cons.IH [OF m, of "buf @ rec_bytes k r" "n + 1"] Cons.prems(2) True
    show ?thesis by (simp add: e p)
  next
    case False
    then show ?thesis by (simp add: e)
  qed
qed simp

lemma length_body_bytes: "no_nulls m \<Longrightarrow> 13 * length m \<le> length (body_bytes m)"
proof (induction m)
  case (Cons e m)
  then show ?case by (cases e) (auto simp: no_nulls_def)
qed simp

lemma fd_send_sized:
  assumes "no_nulls (type_reports qr)"
  shows "fd_send_bytes qr =
      (if 1 + length (body_bytes (type_reports qr)) \<le> MAX_REPORT_LEN
       then Inr (char_of (length (type_reports qr)) # body_bytes (type_reports qr))
       else die Report_overflow)
    \<and> (is_ok (fd_send_bytes qr) \<longrightarrow> length (type_reports qr) \<le> 78)"
proof -
  let ?m = "type_reports qr"
  have eq: "fd_send_bytes qr = (if 1 + length (body_bytes ?m) \<le> MAX_REPORT_LEN
       then Inr (char_of (length ?m) # body_bytes ?m) else die Report_overflow)"
    using fd_send_loop_ok [OF assms, of "[NUL]" 0] fd_send_loop_overflow [OF assms, of "[NUL]" 0]
    by (auto simp: fd_send_bytes_def MAX_REPORT_LEN_def)
  moreover have "length ?m \<le> 78" if "is_ok (fd_send_bytes qr)"
    using that eq length_body_bytes [OF assms] by (auto simp: MAX_REPORT_LEN_def split: if_splits)
  ultimately show ?thesis by blast
qed

text \<open>
  C25: \<open>fd_send\<close> never writes outside its 1024-byte buffer, and fails exactly when the report does not
  fit.  For a report without NULL entries the bytes sent are the number of records followed by one
  record per type in key order; when they would exceed the buffer the process dies with the overflow
  message, and a report that fits has at most 78 records, so that their number fits its byte.
\<close>

theorem fd_send_bounds:
  assumes "no_nulls (type_reports qr)"
  shows "fd_send_bytes qr =
      (if 1 + length (body_bytes (type_reports qr)) \<le> MAX_REPORT_LEN
       then Inr (char_of (length (type_reports qr)) # body_bytes (type_reports qr))
       else die Report_overflow)
    \<and> (is_ok (fd_send_bytes qr) \<longrightarrow> length (type_reports qr) \<le> 78)"
  by (rule fd_send_sized [OF assms])

theorem fd_send_bounds_witness:
  "fd_send_bytes (new_Query_report\<lparr>type_reports := [(''select'', Some new_qtr)]\<rparr>)
     = Inr (CHR 0x01 # CHR 0x06 # ''select'' @ replicate 12 NUL)"
proof -
  let ?qr = "new_Query_report\<lparr>type_reports := [(''select'', Some new_qtr)]\<rparr>"
  have "no_nulls (type_reports ?qr)" by (simp add: no_nulls_def)
  have rep: "replicate 12 NUL = [NUL, NUL, NUL, NUL, NUL, NUL, NUL, NUL, NUL, NUL, NUL, NUL]"
    by code_simp
  from fd_send_bounds [OF \<open>no_nulls (type_reports ?qr)\<close>]
  have "fd_send_bytes ?qr = Inr (char_of (length (type_reports ?qr)) # body_bytes (type_reports ?qr))"
    by (simp add: MAX_REPORT_LEN_def)
  moreover have "char_of (length (type_reports ?qr)) # body_bytes (type_reports ?qr)
      = CHR 0x01 # CHR 0x06 # ''select'' @ replicate 12 NUL"
    unfolding rep by (simp add: rec_bytes_def new_qtr_def int_bytes_def char_of_def bit_iff_odd)
  ultimately show ?thesis by (simp only:)
qed

section \<open>update_from_fd\<close>

text \<open>Merging one report into another, entry by entry.\<close>

fun merge_all :: "tmap \<Rightarrow> tmap \<Rightarrow> tmap result" where
  "merge_all [] acc = Inr acc"
| "merge_all ((k, p) # m) acc =
     (case (p, smap_find acc k) of
        (Some r, Some (Some r0)) \<Rightarrow>
          bindR (qtr_merge (num_queries r) (max_time r) (min_time r) r0)
            (\<lambda>r'. merge_all m (smap_put k (Some r') acc))
      | _ \<Rightarrow> die (Invalid_q_type k))"

definition sendable :: "string \<times> qtr option \<Rightarrow> bool" where
  "sendable = (\<lambda>(k, p). length k \<le> 255 \<and> NUL \<notin> set k \<and>
     (case p of None \<Rightarrow> False
      | Some r \<Rightarrow> in_int (num_queries r) \<and> in_int (max_time r) \<and> in_int (min_time r)))"

lemma rec_bytes_fields:
  assumes "b = k @ int_bytes (num_queries r) @ int_bytes (max_time r) @ int_bytes (min_time r)"
  shows "take (length k) b = k"
    and "take 4 (drop (length k) b) = int_bytes (num_queries r)"
    and "take 4 (drop (length k + 4) b) = int_bytes (max_time r)"
    and "take 4 (drop (length k + 8) b) = int_bytes (min_time r)"
  by (simp_all add: assms)

text \<open>A descriptor that delivers its bytes in order, as many as are asked for while there are any.\<close>

locale byte_stream =
  fixes rd :: "'fd reader" and rest :: "'fd \<Rightarrow> string"
  assumes rd_bytes: "\<exists>fd'. rd n fd = (Some (take n (rest fd)), fd') \<and> rest fd' = drop n (rest fd)"
begin

lemma rd_prefix:
  assumes "rest fd = bs @ tail" "length bs = n"
  obtains fd' where "rd n fd = (Some bs, fd')" "rest fd' = tail"
  using rd_bytes [of n fd] assms by auto

lemma recv_step_record:
  assumes "sendable (k, Some r)" "rest fd = rec_bytes k r @ tail"
  obtains fd' where "rest fd' = tail"
    and "recv_step rd fd m =
      (let (p, m) = smap_index k m in
         case p of None \<Rightarrow> die (Invalid_q_type k)
         | Some r0 \<Rightarrow> mapR (\<lambda>r'. (smap_put k (Some r') m, fd', True))
             (qtr_merge (num_queries r) (max_time r) (min_time r) r0))"
proof -
  let ?b = "k @ int_bytes (num_queries r) @ int_bytes (max_time r) @ int_bytes (min_time r)"
  have "rest fd = [char_of (length k)] @ ?b @ tail" using assms(2) by (simp add: rec_bytes_def)
  then obtain fd1 where 1: "rd 1 fd = (Some [char_of (length k)], fd1)" "rest fd1 = ?b @ tail"
    by (rule rd_prefix) simp_all
  have len: "length k mod 256 = length k"
    using assms(1) by (simp add: sendable_def)
  have "length ?b = length k + 12" by simp
  with 1(2) obtain fd2 where 2: "rd (length k + 12) fd1 = (Some ?b, fd2)" "rest fd2 = tail"
    by (rule rd_prefix) simp_all
  have key: "c_str k = k" using assms(1) by (simp add: sendable_def c_str_id)
  have ints: "int_of_bytes (int_bytes (num_queries r)) = num_queries r"
    "int_of_bytes (int_bytes (max_time r)) = max_time r"
    "int_of_bytes (int_bytes (min_time r)) = min_time r"
    using assms(1) int_of_bytes_int_bytes by (simp_all add: sendable_def)
  show thesis
    by (rule that [OF 2(2)])
       (simp add: recv_step_def 1(1) [unfolded One_nat_def] 2(1) len key ints Let_def)
qed

lemma recv_loop_merges:
  assumes "list_all sendable m" "rest fd = body_bytes m @ tail"
  shows "\<exists>fd'. recv_loop rd (length m) fd acc = mapR (\<lambda>acc. (acc, fd')) (merge_all m acc) \<and> rest fd' = tail"
  using assms
proof (induction m arbitrary: fd acc)
  case (Cons e m)
  obtain k r where e: "e = (k, Some r)" using Cons.prems(1)
    by (cases e) (auto simp: sendable_def split: option.splits)
  have snd: "sendable (k, Some r)" "list_all sendable m" using Cons.prems(1) by (simp_all add: e)
  have "rest fd = rec_bytes k r @ body_bytes m @ tail" using Cons.prems(2) by (simp add: e)
  from recv_step_record [OF snd(1) this, of acc] obtain fd' where
    1: "rest fd' = body_bytes m @ tail" and
    2: "recv_step rd fd acc = (let (p, m') = smap_index k acc in
         case p of None \<Rightarrow> die (Invalid_q_type k)
         | Some r0 \<Rightarrow> mapR (\<lambda>r'. (smap_put k (Some r') m', fd', True))
             (qtr_merge (num_queries r) (max_time r) (min_time r) r0))"
    by blast
  have "rest fd = (rec_bytes k r @ body_bytes m) @ tail" using Cons.prems(2) by (simp add: e)
  then obtain fdt where fdt: "rest fdt = tail" by (rule rd_prefix) simp
  show ?case
  proof (cases "smap_find acc k")
    case None
    with 2 show ?thesis by (intro exI [of _ fdt]) (simp add: e fdt smap_index_def)
  next
    case (Some p)
    show ?thesis
    proof (cases p)
      case None
      with 2 Some show ?thesis by (intro exI [of _ fdt]) (simp add: e fdt smap_index_def)
    next
      case r0: (Some r0)
      show ?thesis
      proof (cases "qtr_merge (num_queries r) (max_time r) (min_time r) r0")
        case (Inl f)
        with 2 Some r0 show ?thesis by (intro exI [of _ fdt]) (simp add: e fdt smap_index_def)
      next
        case (Inr r')
        from Cons.IH [OF snd(2) 1, of "smap_put k (Some r') acc"] 2 Some r0 Inr
        show ?thesis by (simp add: e smap_index_def)
      qed
    qed
  qed
qed auto

text \<open>The whole report: the count byte, then the records.\<close>

lemma update_from_fd_merges:
  assumes "list_all sendable (type_reports qr)" "fd_send_bytes qr = Inr bs" "rest fd = bs @ tail"
  shows "\<exists>fd'. update_from_fd rd fd parent =
      mapR (\<lambda>m. (parent\<lparr>type_reports := m\<rparr>, fd')) (merge_all (type_reports qr) (type_reports parent))
    \<and> rest fd' = tail"
proof -
  let ?m = "type_reports qr"
  have nn: "no_nulls ?m" using assms(1)
    by (auto simp: list_all_iff no_nulls_def sendable_def split: option.splits)
  from fd_send_sized [OF nn] assms(2) have bs: "bs = char_of (length ?m) # body_bytes ?m"
    and len: "length ?m \<le> 78" by (auto split: if_splits)
  have "rest fd = [char_of (length ?m)] @ body_bytes ?m @ tail" using assms(3) bs by simp
  then obtain fd1 where 1: "rd 1 fd = (Some [char_of (length ?m)], fd1)" "rest fd1 = body_bytes ?m @ tail"
    by (rule rd_prefix) simp_all
  from recv_loop_merges [OF assms(1) 1(2), of "type_reports parent"] obtain fd' where
    "recv_loop rd (length ?m) fd1 (type_reports parent)
       = mapR (\<lambda>acc. (acc, fd')) (merge_all ?m (type_reports parent))" "rest fd' = tail" by blast
  then show ?thesis using 1(1) len
    by (intro exI [of _ fd'], cases "merge_all ?m (type_reports parent)")
       (simp_all add: update_from_fd_def)
qed

end

section \<open>A pipe\<close>

definition pipe_read :: "string reader" where
  "pipe_read n s = (Some (take n s), drop n s)"

interpretation pipe: byte_stream pipe_read "\<lambda>s. s"
  by unfold_locales (simp add: pipe_read_def)

text \<open>The sum of two statistics, as \<open>Query_type_report::update\<close> of three arguments means it.\<close>

definition merged :: "qtr \<Rightarrow> qtr \<Rightarrow> qtr" where
  "merged r r0 = \<lparr>num_queries = num_queries r0 + num_queries r,
     min_time = min (min_time r0) (min_time r), max_time = max (max_time r0) (max_time r)\<rparr>"

lemma qtr_merge_merged:
  "in_int (num_queries r0 + num_queries r) \<Longrightarrow>
   qtr_merge (num_queries r) (max_time r) (min_time r) r0 = Inr (merged r r0)"
  by (simp add: qtr_merge_def merged_def min_def max_def)

text \<open>The entry of one type after a report with (perhaps) an entry for it has been merged in.\<close>

definition merge_entry :: "qtr option option \<Rightarrow> qtr option option \<Rightarrow> qtr option option" where
  "merge_entry sent p =
     (case (sent, p) of (Some (Some r), Some (Some r0)) \<Rightarrow> Some (Some (merged r r0)) | _ \<Rightarrow> p)"

lemma merge_entry_simps [simp]:
  "merge_entry None p = p"
  "merge_entry (Some (Some r)) (Some (Some r0)) = Some (Some (merged r r0))"
  by (simp_all add: merge_entry_def)

definition mergeable :: "tmap \<Rightarrow> tmap \<Rightarrow> bool" where
  "mergeable m acc \<longleftrightarrow> (\<forall>(k, p) \<in> set m. \<exists>r r0. p = Some r \<and> smap_find acc k = Some (Some r0)
     \<and> in_int (num_queries r0 + num_queries r))"

lemma merge_all_ok:
  assumes "smap_ok acc" "distinct (map fst m)" "mergeable m acc"
  shows "\<exists>acc'. merge_all m acc = Inr acc' \<and> smap_ok acc' \<and> map fst acc' = map fst acc \<and>
    (\<forall>k. smap_find acc' k = merge_entry (map_of m k) (smap_find acc k))"
  using assms
proof (induction m arbitrary: acc)
  case (Cons e m)
  from Cons.prems(3) obtain k r r0 where e: "e = (k, Some r)" and k: "smap_find acc k = Some (Some r0)"
    and rng: "in_int (num_queries r0 + num_queries r)"
    by (cases e) (auto simp: mergeable_def)
  let ?acc = "smap_put k (Some (merged r r0)) acc"
  have nk: "k \<notin> set (map fst m)" and d: "distinct (map fst m)" using Cons.prems(2) by (simp_all add: e)
  have find: "smap_find ?acc k' = (if k' = k then Some (Some (merged r r0)) else smap_find acc k')" for k'
    using sm.find_put [OF Cons.prems(1)] by simp
  have "(k, Some r0) \<in> set acc" using k sm.entries_find [OF Cons.prems(1), of k "Some r0"] by simp
  then have "k \<in> set (map fst acc)" by (metis fst_conv image_eqI list.set_map)
  then have keys: "map fst ?acc = map fst acc" by (rule keys_put_present [OF _ Cons.prems(1)])
  have "mergeable m ?acc"
    unfolding mergeable_def
  proof (clarify)
    fix k' p assume p: "(k', p) \<in> set m"
    then have "k' \<noteq> k" using nk by (metis fst_conv image_eqI list.set_map)
    moreover from p Cons.prems(3) obtain r r0 where "p = Some r" "smap_find acc k' = Some (Some r0)"
      "in_int (num_queries r0 + num_queries r)"
      unfolding mergeable_def by fastforce
    ultimately show "\<exists>r r0. p = Some r \<and> smap_find ?acc k' = Some (Some r0)
        \<and> in_int (num_queries r0 + num_queries r)"
      by (simp add: find)
  qed
  from Cons.IH [OF sm.invar_put [OF Cons.prems(1)] d this] obtain acc' where
    acc': "merge_all m ?acc = Inr acc'" "smap_ok acc'" "map fst acc' = map fst acc"
      "\<And>k'. smap_find acc' k' = merge_entry (map_of m k') (smap_find ?acc k')"
    using keys by auto
  have "merge_all (e # m) acc = Inr acc'" using k qtr_merge_merged [OF rng] acc'(1) by (simp add: e)
  moreover have "map_of m k = None" using nk by (simp add: map_of_eq_None_iff)
  ultimately show ?case using acc' k by (intro exI [of _ acc']) (auto simp: e find)
qed auto

text \<open>
  C12: A report survives the pipe.  What \<open>fd_send\<close> writes for a well-formed report (no NULL entry, type
  names of at most 255 characters, counters within \<open>int\<close>), followed by anything, is read back by
  \<open>update_from_fd\<close> exactly: the reader stops at the next report, and in the reader's statistics every
  type that was sent has the two counts added, the smaller of the two minima and the larger of the two
  maxima, while all other types are unchanged.
\<close>

theorem report_round_trip:
  assumes "list_all sendable (type_reports qr)" "smap_ok (type_reports qr)" "smap_ok (type_reports parent)"
    and "mergeable (type_reports qr) (type_reports parent)" "fd_send_bytes qr = Inr bs"
  shows "\<exists>m. update_from_fd pipe_read (bs @ rest) parent = Inr (parent\<lparr>type_reports := m\<rparr>, rest)
    \<and> map fst m = map fst (type_reports parent)
    \<and> (\<forall>k. smap_find m k =
         merge_entry (smap_find (type_reports qr) k) (smap_find (type_reports parent) k))"
proof -
  have "distinct (map fst (type_reports qr))" using sm.entries_distinct [OF assms(2)] .
  from merge_all_ok [OF assms(3) this assms(4)] obtain m where
    m: "merge_all (type_reports qr) (type_reports parent) = Inr m"
      "map fst m = map fst (type_reports parent)"
      "\<forall>k. smap_find m k =
         merge_entry (map_of (type_reports qr) k) (smap_find (type_reports parent) k)" by blast
  from pipe.update_from_fd_merges [OF assms(1,5) refl, of rest parent] m(1)
  have "update_from_fd pipe_read (bs @ rest) parent = Inr (parent\<lparr>type_reports := m\<rparr>, rest)" by auto
  with m(2,3) show ?thesis by (auto simp: smap_find_def)
qed

definition example_report :: "string \<Rightarrow> int \<Rightarrow> int \<Rightarrow> int \<Rightarrow> query_report" where
  "example_report k n mn mx =
     new_Query_report\<lparr>type_reports := [(k, Some \<lparr>num_queries = n, min_time = mn, max_time = mx\<rparr>)]\<rparr>"

theorem report_round_trip_witness:
  "\<exists>m. bindR (fd_send_bytes (example_report ''sel'' 20 3 9))
        (\<lambda>bs. update_from_fd pipe_read (bs @ ''more'') (example_report ''sel'' 5 4 7))
      = Inr ((example_report ''sel'' 5 4 7)\<lparr>type_reports := m\<rparr>, ''more'')
    \<and> smap_find m ''sel'' = Some (Some \<lparr>num_queries = 25, min_time = 3, max_time = 9\<rparr>)"
proof -
  let ?q = "example_report ''sel'' 20 3 9"
  let ?p = "example_report ''sel'' 5 4 7"
  have h: "list_all sendable (type_reports ?q)" "smap_ok (type_reports ?q)" "smap_ok (type_reports ?p)"
    "mergeable (type_reports ?q) (type_reports ?p)" "no_nulls (type_reports ?q)"
    by (simp_all add: example_report_def sendable_def smap_ok_def mergeable_def smap_find_def
        no_nulls_def int_range_defs)
  have len: "1 + length (body_bytes (type_reports ?q)) \<le> MAX_REPORT_LEN"
    by (simp add: example_report_def MAX_REPORT_LEN_def)
  from fd_send_sized [OF h(5)] len obtain bs where bs: "fd_send_bytes ?q = Inr bs" by auto
  from report_round_trip [OF h(1-4) bs, of "''more''"] obtain m where
    m: "update_from_fd pipe_read (bs @ ''more'') ?p = Inr (?p\<lparr>type_reports := m\<rparr>, ''more'')" and
    find: "\<forall>k. smap_find m k =
         merge_entry (smap_find (type_reports ?q) k) (smap_find (type_reports ?p) k)" by blast
  have "smap_find (type_reports (example_report k n mn mx)) k
      = Some (Some \<lparr>num_queries = n, min_time = mn, max_time = mx\<rparr>)" for k n mn mx
    by (simp add: example_report_def smap_find_def)
  then have "smap_find m ''sel'' = Some (Some \<lparr>num_queries = 25, min_time = 3, max_time = 9\<rparr>)"
    using find by (simp add: merged_def)
  with bs m show ?thesis by auto
qed

text \<open>
  The length byte of the wire format holds type names of up to 255 characters only, while the buffer
  check of \<open>fd_send\<close> admits up to 1010.  A longer name is sent with its length modulo 256: the reporting
  process looks up the first \<open>length mod 256\<close> characters as the type and dies when there is no such type.
\<close>

lemma long_type_name_dies:
  assumes "type_reports qr = [(k, Some r)]" "256 \<le> length k" "length k \<le> 1010" "NUL \<notin> set k"
    and "smap_find (type_reports parent) (take (length k mod 256) k) = None"
  shows "bindR (fd_send_bytes qr) (\<lambda>bs. update_from_fd pipe_read bs parent)
    = die (Invalid_q_type (take (length k mod 256) k))"
proof -
  let ?L = "length k mod 256"
  have nn: "no_nulls (type_reports qr)" by (simp add: assms(1) no_nulls_def)
  have bs: "fd_send_bytes qr = Inr (char_of (1::nat) # rec_bytes k r)"
    using fd_send_sized [OF nn] assms(3) by (simp add: assms(1) MAX_REPORT_LEN_def)
  have "NUL \<notin> set (take ?L k)" using assms(4) by (meson in_set_takeD)
  then have key: "c_str (take ?L k) = take ?L k" by (rule c_str_id)
  have "?L \<le> length k" by (rule mod_less_eq_dividend)
  then have tk: "take ?L (k @ xs) = take ?L k" for xs by simp
  have "recv_step pipe_read (rec_bytes k r) (type_reports parent) = die (Invalid_q_type (take ?L k))"
    using assms(5) \<open>?L \<le> length k\<close>
    by (simp add: recv_step_def pipe_read_def rec_bytes_def Let_def tk key smap_index_def
        del: take_append)
  then show ?thesis by (simp add: bs update_from_fd_def pipe_read_def)
qed

section \<open>Minimum and maximum\<close>

fun qtr_updates :: "int list \<Rightarrow> qtr \<Rightarrow> qtr result" where
  "qtr_updates [] r = Inr r"
| "qtr_updates (t # ts) r = bindR (qtr_update t r) (qtr_updates ts)"

lemma qtr_updates_counted:
  "0 < num_queries r \<Longrightarrow> num_queries r + int (length ts) \<le> INT_MAX \<Longrightarrow> ts \<noteq> [] \<Longrightarrow>
   qtr_updates ts r = Inr \<lparr>num_queries = num_queries r + int (length ts),
     min_time = last ts, max_time = last ts\<rparr>"
proof (induction ts arbitrary: r)
  case (Cons t ts)
  have "in_int (num_queries r + 1)" using Cons.prems(1,2) by (simp add: int_range_defs)
  then have u: "qtr_update t r = Inr (r\<lparr>min_time := t, max_time := t, num_queries := num_queries r + 1\<rparr>)"
    using Cons.prems(1) by (simp add: qtr_update_def)
  show ?case
  proof (cases ts)
    case Nil
    with u show ?thesis by simp
  next
    case (Cons t' ts')
    then have "ts \<noteq> []" by simp
    with Cons.IH [of "r\<lparr>min_time := t, max_time := t, num_queries := num_queries r + 1\<rparr>"] Cons.prems u
    show ?thesis by (simp add: add_ac)
  qed
qed simp

text \<open>
  The recorded minimum and maximum are not those of the measured times.  The condition of
  \<open>Query_type_report::update\<close> is the wrong way round: after two or more queries both are the time of the
  last query, and after a single one the minimum is that time or 0, whichever is smaller.  The number
  of queries is right.
\<close>

lemma min_max_track_last:
  assumes "int (length ts) \<le> INT_MAX" "ts \<noteq> []"
  shows "qtr_updates ts new_qtr = Inr
    (if length ts = 1
     then \<lparr>num_queries = 1, min_time = min 0 (last ts), max_time = max 0 (last ts)\<rparr>
     else \<lparr>num_queries = int (length ts), min_time = last ts, max_time = last ts\<rparr>)"
proof -
  obtain t ts' where ts: "ts = t # ts'" using assms(2) by (cases ts) auto
  let ?r = "\<lparr>num_queries = 1, min_time = min 0 t, max_time = max 0 t\<rparr>"
  have "in_int 1" by (simp add: int_range_defs)
  then have u: "qtr_update t new_qtr = Inr ?r" by (simp add: qtr_update_def new_qtr_def min_def max_def)
  show ?thesis
  proof (cases "ts' = []")
    case False
    then have "0 < length ts'" by simp
    with qtr_updates_counted [of ?r ts'] u assms(1) False show ?thesis by (simp add: ts)
  qed (use u in \<open>simp add: ts\<close>)
qed

end
