(* ===== verification/Smack_Client.thy ===== *)
theory Smack_Client
  imports Smack_Text Smack_Report
begin

text \<open>
  \<^verbatim>\<open>src/client.h\<close>, \<^verbatim>\<open>src/client.cc\<close>, \<^verbatim>\<open>src/val.h\<close> and the barrel of \<^verbatim>\<open>src/query.h\<close>: a client, its barrel
  of queries and sleeps, how the barrel is fired, connecting, and the values a script can ask for.

  The virtual functions of \<open>Client\<close> are the record \<open>db_class\<close>, one field a function, over a type \<open>'w\<close>
  of states of the world outside (the connection, the database, the clock, the random generator); the
  system calls are the record \<open>os\<close>.  The pointer \<open>dictionaries\<close> to the pool all clients of a process
  share is the pool itself: the callers load it into the client before a call and keep it afterwards.
\<close>

section \<open>Values\<close>

record val =
  strval :: string
  dval :: fval
  delete_me_not :: bool

definition new_Val :: val where
  "new_Val = \<lparr>strval = '''', dval = Fin 0, delete_me_not = False\<rparr>"

definition val_set_string :: "string \<Rightarrow> val \<Rightarrow> val" where
  "val_set_string s v = v\<lparr>strval := s, dval := atof (c_str s)\<rparr>"

text \<open>\<open>snprintf(buf, 32, "%f", d)\<close>.\<close>

definition val_set_double :: "rat \<Rightarrow> val \<Rightarrow> val" where
  "val_set_double d v = v\<lparr>dval := Fin d, strval := take 31 (fmt_fixed 6 d)\<rparr>"

definition val_set_int :: "int \<Rightarrow> val \<Rightarrow> val" where
  "val_set_int n v = val_set_double (to_double (of_int n)) v"

definition val_set :: "val \<Rightarrow> val \<Rightarrow> val" where
  "val_set other v = v\<lparr>strval := strval other, dval := dval other\<rparr>"

definition val_concat :: "val \<Rightarrow> val \<Rightarrow> val" where
  "val_concat other v = val_set_string (strval v @ strval other) v"

section \<open>The barrel\<close>

datatype barrel_action = Query_charge query int | Sleep_action int int

record query_barrel =
  num_rounds :: int
  qr :: query_report
  actions :: "barrel_action list"

definition new_Query_barrel :: query_barrel where
  "new_Query_barrel = \<lparr>num_rounds = 0, qr = new_Query_report, actions = []\<rparr>"

text \<open>A charge holds a copy of the query, which is made by assigning every field.\<close>

definition query_assign :: "query \<Rightarrow> query \<Rightarrow> query" where
  "query_assign other q = q\<lparr>query_text := query_text other, query_name := query_name other, type_name := type_name other,
     has_result_set := has_result_set other, parsed := parsed other\<rparr>"

lemma query_assign [simp]: "query_assign other q = other"
  by (simp add: query_assign_def)

definition add_query_charge :: "query \<Rightarrow> int \<Rightarrow> query_barrel \<Rightarrow> query_barrel" where
  "add_query_charge q num_shots b =
     (let (p, m) = smap_index (type_name q) (type_reports (qr b));
          m = (case p of None \<Rightarrow> smap_put (type_name q) (Some new_qtr) m | Some _ \<Rightarrow> m)
      in b\<lparr>actions := actions b @ [Query_charge (query_assign q new_Query) num_shots], qr := (qr b)\<lparr>type_reports := m\<rparr>\<rparr>)"

definition add_sleep_action :: "int \<Rightarrow> int \<Rightarrow> query_barrel \<Rightarrow> query_barrel" where
  "add_sleep_action sec usec b = b\<lparr>actions := actions b @ [Sleep_action sec usec]\<rparr>"

definition barrel_set_num_rounds :: "int \<Rightarrow> query_barrel \<Rightarrow> query_barrel" where
  "barrel_set_num_rounds n b = b\<lparr>num_rounds := n\<rparr>"

definition update_report :: "string \<Rightarrow> int \<Rightarrow> query_barrel \<Rightarrow> query_barrel result" where
  "update_report tname q_time b = mapR (\<lambda>r. b\<lparr>qr := r\<rparr>) (report_update (c_str tname) q_time (qr b))"

text \<open>
  What a barrel passes on to its report.  \<open>get_report_by_name\<close> indexes the map, so an unknown type is entered as
  NULL.
\<close>

definition barrel_print_report :: "query_barrel \<Rightarrow> string result" where
  "barrel_print_report b = report_print (qr b)"

definition fd_send_report :: "(string \<Rightarrow> 'w \<Rightarrow> int \<times> 'w) \<Rightarrow> query_barrel \<Rightarrow> 'w \<Rightarrow> 'w result" where
  "fd_send_report write b w = fd_send write (qr b) w"

definition fd_update_report :: "(nat \<Rightarrow> 'w \<Rightarrow> string option \<times> 'w) \<Rightarrow> 'w \<Rightarrow> query_barrel \<Rightarrow> (query_barrel \<times> 'w) result" where
  "fd_update_report read w b = mapR (\<lambda>(r, w). (b\<lparr>qr := r\<rparr>, w)) (update_from_fd read w (qr b))"

definition barrel_start_clock :: "timeval \<Rightarrow> query_barrel \<Rightarrow> query_barrel" where
  "barrel_start_clock t b = b\<lparr>qr := report_start_clock t (qr b)\<rparr>"

definition barrel_stop_clock :: "timeval \<Rightarrow> query_barrel \<Rightarrow> query_barrel" where
  "barrel_stop_clock t b = b\<lparr>qr := report_stop_clock t (qr b)\<rparr>"

definition get_report_by_name :: "string \<Rightarrow> query_barrel \<Rightarrow> qtr option \<times> query_barrel" where
  "get_report_by_name n b =
     (let (p, m) = smap_index n (type_reports (qr b)) in (p, b\<lparr>qr := (qr b)\<lparr>type_reports := m\<rparr>\<rparr>))"

definition barrel_run_time :: "query_barrel \<Rightarrow> rat" where
  "barrel_run_time b = run_time (qr b)"

lemma barrel_passes_on [simp]:
  "barrel_print_report b = report_print (qr b)" "fd_send_report write b w = fd_send write (qr b) w"
  "barrel_start_clock t b = b\<lparr>qr := report_start_clock t (qr b)\<rparr>"
  "barrel_stop_clock t b = b\<lparr>qr := report_stop_clock t (qr b)\<rparr>" "barrel_run_time b = run_time (qr b)"
  "fst (get_report_by_name n b) = fst (smap_index n (type_reports (qr b)))"
  by (simp_all add: barrel_print_report_def fd_send_report_def barrel_start_clock_def barrel_stop_clock_def
      barrel_run_time_def get_report_by_name_def split: prod.split)

section \<open>The client\<close>

record client =
  dictionaries :: dicts
  connected :: int
  parent_thread :: int
  running_threads :: int
  report_pipe :: "int \<times> int"
  pipe_sem_id :: int
  connect_time :: int
  min_connect_time :: int
  max_connect_time :: int
  total_connect_time :: int
  num_reported_clients :: int
  cl_name :: string
  cl_host :: string
  cl_user :: string
  cl_pass :: string
  cl_db :: string
  cl_port :: string
  cl_socket :: string
  qb :: "query_barrel option"

definition new_Client :: client where
  "new_Client = \<lparr>dictionaries = None, connected = 0, parent_thread = 1, running_threads = 1,
     report_pipe = (0, 0), pipe_sem_id = -1,
 connect_time = -1, min_connect_time = -1, max_connect_time = 0,
     total_connect_time = 0, num_reported_clients = 0, cl_name = '''', cl_host = ''localhost'',
     cl_user = ''test'', cl_pass = '''', cl_db = ''test'', cl_port = '''', cl_socket = '''', qb = None\<rparr>"

text \<open>
  The system calls.  \<open>Sys_intr\<close> is a failed call that the sources repeat (\<open>EINTR\<close> for \<open>select\<close>,
  \<open>ERESTART\<close> for \<open>wait4\<close>), \<open>Sys_error\<close> any other failure.  \<open>os_fork\<close> answers as the process that goes on
  sees it; \<open>os_srand\<close> seeds from the time and the process id; \<open>os_semget\<close> takes the key, the number of
  semaphores and whether to create; \<open>os_select\<close> whether it waits to write.
\<close>

datatype sys = Sys_ok | Sys_intr | Sys_error

record 'w os =
  gettimeofday :: "'w \<Rightarrow> timeval \<times> 'w"
  os_rand :: "'w \<Rightarrow> nat \<times> 'w"
  os_srand :: "'w \<Rightarrow> 'w"
  os_sleep :: "int \<Rightarrow> 'w \<Rightarrow> 'w"
  os_usleep :: "int \<Rightarrow> 'w \<Rightarrow> 'w"
  os_fork :: "'w \<Rightarrow> int \<times> 'w"
  os_wait4 :: "'w \<Rightarrow> sys \<times> 'w"
  os_pipe :: "'w \<Rightarrow> (int \<times> int) option \<times> 'w"
  os_close :: "int \<Rightarrow> 'w \<Rightarrow> 'w"
  os_read :: "int \<Rightarrow> nat \<Rightarrow> 'w \<Rightarrow> string option \<times> 'w"
  os_write :: "int \<Rightarrow> string \<Rightarrow> 'w \<Rightarrow> int \<times> 'w"
  os_select :: "bool \<Rightarrow> int \<Rightarrow> 'w \<Rightarrow> sys \<times> 'w"
  os_ftok :: "'w \<Rightarrow> int"
  os_semget :: "int \<Rightarrow> int \<Rightarrow> bool \<Rightarrow> 'w \<Rightarrow> int \<times> 'w"
  os_setval :: "int \<Rightarrow> int \<Rightarrow> 'w \<Rightarrow> 'w"
  os_semop :: "int \<Rightarrow> int \<Rightarrow> 'w \<Rightarrow> int \<times> 'w"
  os_rmid :: "int \<Rightarrow> 'w \<Rightarrow> 'w"

text \<open>The integer results are those of the functions; \<open>get_table_info\<close> also stores \<open>num_rows\<close>.\<close>

record 'w db_class =
  do_connect :: "client \<Rightarrow> 'w \<Rightarrow> 'w result"
  safe_query :: "string \<Rightarrow> int \<Rightarrow> 'w \<Rightarrow> (int \<times> 'w) result"
  lose_result :: "'w \<Rightarrow> 'w result"
  disconnect :: "client \<Rightarrow> 'w \<Rightarrow> client \<times> 'w"
  db_escape :: "string \<Rightarrow> string"
  db_escape_extra :: nat
  get_table_info :: "string \<Rightarrow> 'w \<Rightarrow> ((int \<times> int) \<times> 'w) result"
  load_table_data :: "string \<Rightarrow> string \<Rightarrow> 'w \<Rightarrow> (int \<times> 'w) result"
  dump_result :: "string option \<Rightarrow> int \<Rightarrow> 'w \<Rightarrow> (int \<times> 'w) result"

definition set_dictionary :: "string \<Rightarrow> dict option \<Rightarrow> client \<Rightarrow> client" where
  "set_dictionary dname d c =
     c\<lparr>dictionaries := Some (smap_put dname d (case dictionaries c of None \<Rightarrow> [] | Some m \<Rightarrow> m))\<rparr>"

definition set_dictionary_pool :: "dict option smap \<Rightarrow> client \<Rightarrow> client" where
  "set_dictionary_pool pool c = c\<lparr>dictionaries := Some pool\<rparr>"

definition set_query_barrel :: "query_barrel \<Rightarrow> client \<Rightarrow> client" where
  "set_query_barrel b c = c\<lparr>qb := Some b\<rparr>"

definition set_num_rounds :: "int \<Rightarrow> client \<Rightarrow> client" where
  "set_num_rounds n c =
     (case qb c of None \<Rightarrow> c | Some b \<Rightarrow> c\<lparr>qb := Some (barrel_set_num_rounds n b)\<rparr>)"

definition client_print :: "client \<Rightarrow> string" where
  "client_print c =
     ''client: '' @ cl_name c @ '':'' @ [CHR 0x0A] @ ''user='' @ cl_user c @ [CHR 0x0A] @
     ''pass='' @ cl_pass c @ [CHR 0x0A] @ ''host='' @ cl_host c @ [CHR 0x0A] @
     ''db='' @ cl_db c @ [CHR 0x0A]"

section \<open>Connecting\<close>

text \<open>The milliseconds between two times, as both \<open>Client::connect\<close> and \<open>Query_charge::fire\<close> compute
  them: in \<open>long\<close>, cut to \<open>int\<close>.\<close>

definition elapsed_ms :: "timeval \<Rightarrow> timeval \<Rightarrow> int" where
  "elapsed_ms s e = to_int32 ((tv_sec e - tv_sec s) * 1000 + (tv_usec e - tv_usec s) sdiv 1000)"

definition connect :: "'w db_class \<Rightarrow> 'w os \<Rightarrow> client \<times> 'w \<Rightarrow> (client \<times> 'w) result" where
  "connect db os = (\<lambda>(c, w).
     let (start, w) = gettimeofday os w in
     bindR (do_connect db c w) (\<lambda>w.
     let (stop, w) = gettimeofday os w; t = elapsed_ms start stop; c = c\<lparr>connect_time := t\<rparr> in
     bindR (if parent_thread c \<noteq> 0 then
              bindR (chk (num_reported_clients c + 1)) (\<lambda>n.
              mapR (\<lambda>total. c\<lparr>num_reported_clients := n, total_connect_time := total\<rparr>)
                (chk (total_connect_time c + t)))
            else Inr c) (\<lambda>c.
     Inr (c\<lparr>connected := 1\<rparr>, w))))"

text \<open>\<open>connect\<close> with the parameters of the connection.\<close>

definition connect_to :: "'w db_class \<Rightarrow> 'w os \<Rightarrow> string \<Rightarrow> string \<Rightarrow> string \<Rightarrow> string \<Rightarrow> client \<times> 'w \<Rightarrow>
    (client \<times> 'w) result" where
  "connect_to db os host dbname user pass = (\<lambda>(c, w).
     connect db os (c\<lparr>cl_host := c_str host, cl_db := c_str dbname, cl_user := c_str user, cl_pass := c_str pass\<rparr>, w))"

definition avg_connect_time ::
 "client \<Rightarrow> int" where
  "avg_connect_time c =
     (if num_reported_clients c \<noteq> 0 then total_connect_time c sdiv num_reported_clients c else 0)"

definition print_connect_times :: "client \<Rightarrow> string" where
  "print_connect_times c =
     ''connect: max='' @ dec_int (max_connect_time c) @ ''ms  min='' @ dec_int (min_connect_time c) @
     ''ms avg= '' @ dec_int (avg_connect_time c) @ ''ms from '' @ dec_int (num_reported_clients c) @
     '' clients '' @ [CHR 0x0A]"

definition clean_up :: "'w db_class \<Rightarrow> 'w os \<Rightarrow> client \<times> 'w \<Rightarrow> client \<times> 'w" where
  "clean_up db os = (\<lambda>(c, w).
     let (c, w) = disconnect db c w
     in (c, if pipe_sem_id c \<noteq> -1 then os_rmid os (pipe_sem_id c) w else w))"

text \<open>Both overloads of \<open>get_param_val\<close>.\<close>

definition int_Val :: "int \<Rightarrow> val" where "int_Val n = val_set_int n new_Val"

definition get_param_val1 :: "string \<Rightarrow> client \<Rightarrow> val result" where
  "get_param_val1 s c =
     (if s = ''max_connect_time'' then Inr (int_Val (max_connect_time c))
      else if s = ''min_connect_time'' then Inr (int_Val (min_connect_time c))
      else if s = ''avg_connect_time'' then Inr (int_Val (avg_connect_time c))
      else die (Unknown_client_param (c_str s)))"

definition get_param_val2 :: "string \<Rightarrow> string \<Rightarrow> client \<Rightarrow> val result" where
  "get_param_val2 s1 s2 c =
     (case qb c of
        None \<Rightarrow> undef Null_deref
      | Some b \<Rightarrow>
          (case fst (get_report_by_name s1 b) of
             None \<Rightarrow> die (No_such_query_type (c_str s1))
           | Some r \<Rightarrow>
               if s2 = ''num_queries'' then Inr (int_Val (num_queries r))
               else if s2 = ''max_time'' then Inr (int_Val (max_time r))
               else if s2 = ''min_time'' then Inr (int_Val (min_time r))
               else if s2 = ''q_per_s'' then
                 (let t = barrel_run_time b
                  in if t = 0 then Inr (int_Val 0)
                     else Inr (val_set_double (to_double (of_int (num_queries r) / t)) new_Val))
               else die (Unknown_report_param (c_str s2))))"

section \<open>Queries\<close>

definition db_expander :: "'w db_class \<Rightarrow> 'w os \<Rightarrow> 'w expander" where
  "db_expander db os = \<lparr>x_rand = os_rand os, x_escape = db_escape db, x_extra = db_escape_extra db\<rparr>"

definition safe_parsed_query :: "'w db_class \<Rightarrow> 'w os \<Rightarrow> string \<Rightarrow> nat \<Rightarrow> int \<Rightarrow> client \<times> 'w \<Rightarrow>
    (int \<times> client \<times> 'w) result" where
  "safe_parsed_query db os q max_query abort_on_error = (\<lambda>(c, w).
     bindR (parse_query (db_expander db os) max_query q (dictionaries c) w) (\<lambda>(text, ds, w).
     mapR (\<lambda>(n, w). (n, c\<lparr>dictionaries := ds\<rparr>, w)) (safe_query db text abort_on_error w)))"

text \<open>\<open>Client::safe_query(Query& q, int abort_on_error)\<close>.\<close>

definition safe_query_object :: "'w db_class \<Rightarrow> 'w os \<Rightarrow> query \<Rightarrow> int \<Rightarrow> client \<times> 'w \<Rightarrow>
    (int \<times> client \<times> 'w) result" where
  "safe_query_object db os q abort_on_error = (\<lambda>(c, w).
     if parsed q \<noteq> 0 then
       safe_parsed_query db os (query_text q) (2 * length (query_text q)) abort_on_error (c, w)
     else mapR (\<lambda>(n, w). (n, c, w)) (safe_query db (c_str (query_text q)) abort_on_error w))"

section \<open>Firing the barrel\<close>

definition MAX_QUERY :: nat where "MAX_QUERY = 8192"

text \<open>One shot of \<open>Query_charge::fire\<close>.\<close>

definition run_charge :: "'w db_class \<Rightarrow> 'w os \<Rightarrow> query \<Rightarrow> client \<times> 'w \<Rightarrow> (client \<times> 'w) result" where
  "run_charge db os q = (\<lambda>(c, w).
     bindR (if parsed q \<noteq> 0 then mapR snd (safe_parsed_query db os (query_text q) MAX_QUERY 1 (c, w))
            else mapR (\<lambda>(n, w). (c, w)) (safe_query db (c_str (query_text q)) 1 w)) (\<lambda>(c, w).
     if has_result_set q \<noteq> 0 then mapR (\<lambda>w. (c, w)) (lose_result db w) else Inr (c, w)))"

definition fire_shot :: "'w db_class \<Rightarrow> 'w os \<Rightarrow> query \<Rightarrow> client \<times> 'w \<Rightarrow> (client \<times> 'w) result" where
  "fire_shot db os q = (\<lambda>(c, w).
     let (start, w) = gettimeofday os w in
     bindR (run_charge db os q (c, w)) (\<lambda>(c, w).
     let (stop, w) = gettimeofday os w in
     (case qb c of
        None \<Rightarrow> undef Null_deref
      | Some b \<Rightarrow> mapR (\<lambda>b. (c\<lparr>qb := Some b\<rparr>, w)) (update_report (type_name q) (elapsed_ms start stop) b))))"

definition fire :: "'w db_class \<Rightarrow> 'w os \<Rightarrow> barrel_action \<Rightarrow> client \<times> 'w \<Rightarrow> (client \<times> 'w) result" where
  "fire db os a s =
     (case a of
        Query_charge q num_shots \<Rightarrow> repeatR (nat num_shots) (fire_shot db os q) s
      | Sleep_action sec usec \<Rightarrow>
          Inr (fst s, os_usleep os (to_uint32 usec) (os_sleep os (to_uint32 sec) (snd s))))"

text \<open>\<open>unload_query_barrel\<close>: firing changes neither the actions nor the number of rounds.\<close>

definition unload_query_barrel :: "'w db_class \<Rightarrow> 'w os \<Rightarrow> client \<times> 'w \<Rightarrow> (client \<times> 'w) result" where
  "unload_query_barrel db os s =
     (case qb (fst s) of
        None \<Rightarrow> undef Null_deref
      | Some b \<Rightarrow> repeatR (nat (num_rounds b)) (foldR (fire db os) (actions b)) s)"

end
