(* ===== verification/Smack_Client_Proofs.thy ===== *)
theory Smack_Client_Proofs
  imports Smack_Client Smack_Text_Proofs Smack_Report_Proofs
begin

text \<open>
  What a client does with its barrel: firing changes the counts of exactly the types fired, by the number
  of shots, and fails only when the database fails; the times it measures are off by less than a
  millisecond; the connect statistics; the texts sent for a query object; and the values scripts read.
\<close>

section \<open>Well-formed barrels\<close>

definition typed :: "query_barrel \<Rightarrow> string \<Rightarrow> bool" where
  "typed b k \<longleftrightarrow> (\<exists>r. smap_find (type_reports (qr b)) k = Some (Some r))"

text \<open>Every charge has a report of its type, under a name without NUL.\<close>

definition barrel_ok :: "query_barrel \<Rightarrow> bool" where
  "barrel_ok b \<longleftrightarrow> smap_ok (type_reports (qr b)) \<and> no_nulls (type_reports (qr b)) \<and>
     (\<forall>q n. Query_charge q n \<in> set (actions b) \<longrightarrow> NUL \<notin> set (type_name q) \<and> typed b (type_name q))"

definition query_count :: "string \<Rightarrow> query_barrel \<Rightarrow> int" where
  "query_count k b =
     (case smap_find (type_reports (qr b)) k of Some (Some r) \<Rightarrow> num_queries r | _ \<Rightarrow> 0)"

lemma barrel_ok_new: "barrel_ok new_Query_barrel"
  by (simp add: barrel_ok_def new_Query_barrel_def new_Query_report_def smap_ok_def no_nulls_def)

lemma barrel_ok_sleep: "barrel_ok b \<Longrightarrow> barrel_ok (add_sleep_action s u b)"
  by (auto simp: barrel_ok_def add_sleep_action_def typed_def)

lemma no_nulls_find: "smap_ok m \<Longrightarrow> no_nulls m \<longleftrightarrow> (\<forall>k. smap_find m k \<noteq> Some None)"
proof -
  assume m: "smap_ok m"
  have "no_nulls m \<longleftrightarrow> (\<forall>k. (k, None) \<notin> set m)"
    by (auto simp: no_nulls_def) (metis option.exhaust)

  then show ?thesis by (simp add: smap_entries [OF m])
qed

lemma barrel_ok_charge:
  assumes "barrel_ok b" "NUL \<notin> set (type_name q)"
  shows "barrel_ok (add_query_charge q n b)"
proof -
  let ?m = "type_reports (qr b)" and ?k = "type_name q"
  have ok: "smap_ok ?m" and nn: "\<forall>k. smap_find ?m k \<noteq> Some None"
    using assms(1) no_nulls_find by (auto simp: barrel_ok_def)
  have "\<exists>m. type_reports (qr (add_query_charge q n b)) = m \<and> smap_ok m \<and>
      (\<forall>k. smap_find m k = (if k = ?k \<and> smap_find ?m k = None then Some (Some new_qtr) else smap_find ?m k))"
  proof (cases "smap_find ?m ?k")
    case None
    have "smap_ok (smap_put ?k None ?m)" by (rule sm.invar_put [OF ok])
    with None ok show ?thesis
      by (simp add: add_query_charge_def smap_index_def sm.invar_put sm.find_put)
  next
    case (Some p)
    then obtain r where "p = Some r" using nn by (cases p) auto
    with Some ok show ?thesis by (auto simp: add_query_charge_def smap_index_def)
  qed
  then obtain m where m: "type_reports (qr (add_query_charge q n b)) = m" "smap_ok m"
    and find: "\<And>k. smap_find m k = (if k = ?k \<and> smap_find ?m k = None then Some (Some new_qtr) else smap_find ?m k)"
    by blast
  have "typed (add_query_charge q n b) ?k"
  proof (cases "smap_find ?m ?k")
    case (Some p)
    with nn show ?thesis by (cases p) (auto simp: typed_def m(1) find)
  qed (simp add: typed_def m(1) find)
  moreover have "typed (add_query_charge q n b) k" if "typed b k" for k
    using that by (auto simp: typed_def m(1) find)
  moreover have "no_nulls m" using nn by (simp add: no_nulls_find [OF m(2)] find)
  ultimately show ?thesis
    using assms m by (auto simp: barrel_ok_def) (auto simp: add_query_charge_def Let_def split: prod.splits)
qed

section \<open>Firing\<close>

text \<open>A step from \<open>c\<close> to \<open>c'\<close> that adds \<open>d k\<close> to the count of every type \<open>k\<close> and leaves the plan as it is.\<close>

definition counted :: "(string \<Rightarrow> int) \<Rightarrow> client \<Rightarrow> client \<Rightarrow> bool" where
  "counted d c c' \<longleftrightarrow>
     (\<exists>b b'. qb c = Some b \<and> qb c' = Some b' \<and> barrel_ok b' \<and> actions b' = actions b
        \<and> num_rounds b' = num_rounds b
        \<and> (\<forall>k. query_count k b' = query_count k b + d k))"

lemma counted_refl: "qb c = Some b \<Longrightarrow> barrel_ok b \<Longrightarrow> d = (\<lambda>k. 0) \<Longrightarrow> counted d c c"
  by (simp add: counted_def)

lemma counted_trans: "counted d c c' \<Longrightarrow> counted e c' c'' \<Longrightarrow> counted (\<lambda>k. d k + e k) c c''"
  by (fastforce simp: counted_def)

text \<open>How many times one action fires the type \<open>k\<close>, and a list of actions.\<close>

fun shots :: "string \<Rightarrow> barrel_action \<Rightarrow> int" where
  "shots k (Query_charge q n) = (if type_name q = k then max n 0 else 0)"
| "shots k (Sleep_action s u) = 0"

definition shots_all :: "string \<Rightarrow> barrel_action list \<Rightarrow> int" where
  "shots_all k as = sum_list (map (shots k) as)"

lemma safe_parsed_query_barrel:
  "safe_parsed_query db os q n ab (c, w) = Inr (i, c', w') \<Longrightarrow> qb c' = qb c"
  by (simp only: safe_parsed_query_def prod.case resultE_simps split_paired_Ex) auto

lemma run_charge_barrel:
  assumes "run_charge db os q (c, w) = Inr (c', w')"
  shows "qb c' = qb c"
proof -
  from assms obtain c1 w1 where
    1: "(if parsed q \<noteq> 0 then mapR snd (safe_parsed_query db os (query_text q) MAX_QUERY 1 (c, w))
         else mapR (\<lambda>(n, w). (c, w)) (safe_query db (c_str (query_text q)) 1 w)) = Inr (c1, w1)"
    and 2: "(if has_result_set q \<noteq> 0 then mapR (\<lambda>w. (c1, w)) (lose_result db w1) else Inr (c1, w1)) = Inr (c', w')"
    by (simp only: run_charge_def prod.case bindR_eq_Inr split_paired_Ex) blast
  from 1 have "qb c1 = qb c"
    by (cases "parsed q = 0") (auto simp: mapR_eq_Inr dest: safe_parsed_query_barrel)
  moreover from 2 have "c' = c1" by (cases "has_result_set q = 0") (auto simp: mapR_eq_Inr)
  ultimately show ?thesis by simp
qed

lemma update_report_counted:
  assumes ok: "barrel_ok b" and k: "NUL \<notin> set k" and t: "typed b k"
  shows "case update_report k t' b of
      Inl e \<Rightarrow> e = Undefined Signed_overflow
    | Inr b' \<Rightarrow> barrel_ok b' \<and> actions b' = actions b \<and> num_rounds b' = num_rounds b
        \<and> (\<forall>k'. query_count k' b' = query_count k' b + (if k = k' then 1 else 0))"
proof -
  let ?m = "type_reports (qr b)"
  have m: "smap_ok ?m" and nn: "\<forall>k. smap_find ?m k \<noteq> Some None"
    using ok no_nulls_find by (auto simp: barrel_ok_def)
  obtain r where r: "smap_find ?m k = Some (Some r)" using t by (auto simp: typed_def)
  have up: "update_report k t' b = mapR (\<lambda>r'. b\<lparr>qr := (qr b)\<lparr>type_reports := smap_put k (Some r') ?m\<rparr>\<rparr>)
      (qtr_update t' r)"
    by (cases "qtr_update t' r")
       (simp_all add: update_report_def report_update_def c_str_id k smap_index_present [OF r])
  show ?thesis
  proof (cases "qtr_update t' r")
    case (Inl e)
    then have "e = Undefined Signed_overflow"
      by (auto simp: qtr_update_def chk_def Let_def mapR_def split: if_splits)
    with Inl show ?thesis by (simp add: up)
  next
    case (Inr r')
    then have n: "num_queries r' = num_queries r + 1"
      by (auto simp: qtr_update_def Let_def mapR_eq_Inr chk_eq_Inr)
    let ?b' = "b\<lparr>qr := (qr b)\<lparr>type_reports := smap_put k (Some r') ?m\<rparr>\<rparr>"
    have find: "smap_find (smap_put k (Some r') ?m) = (smap_find ?m)(k \<mapsto> Some r')"
      by (rule sm.find_put [OF m])
    have "no_nulls (smap_put k (Some r') ?m)"
      using nn by (simp add: no_nulls_find sm.invar_put m find)
    then have "barrel_ok ?b'"
      using ok by (auto simp: barrel_ok_def typed_def sm.invar_put find)
    moreover have "query_count k' ?b' = query_count k' b + (if k = k' then 1 else 0)" for k'
      by (cases "k' = k") (simp_all add: query_count_def find n r)

    ultimately show ?thesis by (simp add: up Inr)
  qed
qed

text \<open>The faults firing the actions can end with: a failed query, or a count that overflows.\<close>

definition fire_fault :: "'w db_class \<Rightarrow> 'w os \<Rightarrow> barrel_action list \<Rightarrow> fault \<Rightarrow> bool" where
  "fire_fault db os as e \<longleftrightarrow> e = Undefined Signed_overflow \<or>
     (\<exists>q n c w. Query_charge q n \<in> set as \<and> run_charge db os q (c, w) = Inl e)"

definition fires :: "'w db_class \<Rightarrow> 'w os \<Rightarrow> barrel_action list \<Rightarrow> (string \<Rightarrow> int) \<Rightarrow> client \<Rightarrow>
    (client \<times> 'w) result \<Rightarrow> bool" where
  "fires db os as d c m \<longleftrightarrow>
     (case m of Inl e \<Rightarrow> fire_fault db os as e | Inr (c', w') \<Rightarrow> counted d c c')"

lemma fires_simps [simp]:
  "fires db os as d c (Inl e) \<longleftrightarrow> fire_fault db os as e"
  "fires db os as d c (Inr (c', w')) \<longleftrightarrow> counted d c c'"
  by (simp_all add: fires_def)

lemma fires_bind:
  assumes "fires db os as d c m"
    and "\<And>c' w'. m = Inr (c', w') \<Longrightarrow> counted d c c' \<Longrightarrow> fires db os as e c' (f (c', w'))"
  shows "fires db os as (\<lambda>k. d k + e k) c (bindR m f)"
proof (cases m)
  case (Inr s)
  obtain c' w' where s: "s = (c', w')" by (cases s)
  from assms(1) Inr s have 1: "counted d c c'" by simp
  from assms(2) [OF Inr [unfolded s] 1] have "fires db os as e c' (f (c', w'))" .
  with 1 show ?thesis
    by (cases "f (c', w')") (auto simp: Inr s dest: counted_trans)
qed (use assms in simp)

lemma counted_plan:
  "counted d c c' \<Longrightarrow> qb c = Some b \<Longrightarrow>
   \<exists>b'. qb c' = Some b' \<and> barrel_ok b' \<and> actions b' = actions b \<and> num_rounds b' = num_rounds b"
  by (auto simp: counted_def)

lemma fire_shot_fires:
  assumes b: "qb c = Some b" "barrel_ok b" and q: "Query_charge q n \<in> set (actions b)" "set (actions b) \<subseteq> set as"
  shows "fires db os as (\<lambda>k. if type_name q = k then 1 else 0) c (fire_shot db os q (c, w))"
proof -
  obtain start w1 where g: "gettimeofday os w = (start, w1)" by (cases "gettimeofday os w")
  have ty: "NUL \<notin> set (type_name q)" "typed b (type_name q)" using b q by (auto simp: barrel_ok_def)
  show ?thesis
  proof (cases "run_charge db os q (c, w1)")
    case (Inl e)
    with q show ?thesis by (auto simp: fire_shot_def g fire_fault_def)
  next
    case (Inr s)
    obtain c2 w2 where s: "s = (c2, w2)" by (cases s)
    obtain stop w3 where g2: "gettimeofday os w2 = (stop, w3)" by (cases "gettimeofday os w2")
    have q2: "qb c2 = Some b" using run_charge_barrel [OF Inr [unfolded s]] b by simp
    have sh: "fire_shot db os q (c, w) = mapR (\<lambda>b. (c2\<lparr>qb := Some b\<rparr>, w3))
        (update_report (type_name q) (elapsed_ms start stop) b)"
      by (simp add: fire_shot_def g Inr s g2 q2)
    from update_report_counted [OF b(2) ty, of "elapsed_ms start stop"] b(1) show ?thesis
      by (cases "update_report (type_name q) (elapsed_ms start stop) b")
         (simp_all add: sh fire_fault_def counted_def)
  qed
qed

lemma repeatR_fires:
  assumes step: "\<And>c b w. qb c = Some b \<Longrightarrow> barrel_ok b \<Longrightarrow> actions b = as \<Longrightarrow>
      fires db os as d c (f (c, w))"
    and "qb c = Some b" "barrel_ok b" "actions b = as"
  shows "fires db os as (\<lambda>k. int n * d k) c (repeatR n f (c, w))"
  using assms(2-)
proof (induction n arbitrary: c b w)
  case 0
  then show ?case by (simp add: counted_refl)
next
  case (Suc n)
  have "fires db os as (\<lambda>k. d k + int n * d k) c (bindR (f (c, w)) (repeatR n f))"
  proof (rule fires_bind [OF step [OF Suc.prems]])
    fix c' w' assume "counted d c c'"
    with Suc.prems Suc.IH show "fires db os as (\<lambda>k. int n * d k) c' (repeatR n f (c', w'))"
      using counted_plan by metis
  qed
  moreover have "(\<lambda>k. d k + int n * d k) = (\<lambda>k. int (Suc n) * d k)" by (auto simp: algebra_simps)
  ultimately show ?case by simp
qed

lemma fire_fires:
  assumes "qb c = Some b" "barrel_ok b" "actions b = as" "a \<in> set as"
  shows "fires db os as (\<lambda>k. shots k a) c (fire db os a (c, w))"
proof (cases a)
  case (Query_charge q n)
  have "fires db os as (\<lambda>k. int (nat n) * (if type_name q = k then 1 else 0)) c
      (repeatR (nat n) (fire_shot db os q) (c, w))"
    by (rule repeatR_fires [OF _ assms(1-3)], rule fire_shot_fires) (use assms(4) Query_charge in auto)
  moreover have "(\<lambda>k. int (nat n) * (if type_name q = k then 1 else 0)) = (\<lambda>k. shots k a)"
    by (auto simp: Query_charge)
  ultimately show ?thesis by (simp add: fire_def Query_charge)
next
  case (Sleep_action s u)
  with assms show ?thesis by (simp add: fire_def counted_refl)
qed

lemma foldR_fires:
  assumes "qb c = Some b" "barrel_ok b" "actions b = as" "set bs \<subseteq> set as"
  shows "fires db os as (\<lambda>k. shots_all k bs) c (foldR (fire db os) bs (c, w))"
  using assms
proof (induction bs arbitrary: c b w)
  case Nil
  then show ?case by (simp add: counted_refl shots_all_def)
next
  case (Cons a bs)
  have "fires db os as (\<lambda>k. shots k a + shots_all k bs) c (bindR (fire db os a (c, w)) (foldR (fire db os) bs))"
  proof (rule fires_bind)
    show "fires db os as (\<lambda>k. shots k a) c (fire db os a (c, w))"
      using Cons.prems by (intro fire_fires) auto
    fix c' w' assume "counted (\<lambda>k. shots k a) c c'"
    with Cons.prems Cons.IH show "fires db os as (\<lambda>k. shots_all k bs) c' (foldR (fire db os) bs (c', w'))"
      using counted_plan by (metis insert_subset list.simps(15))
  qed
  then show ?case by (simp add: shots_all_def)
qed

lemma unload_plan:
  assumes "qb c = Some b" and "barrel_ok b"
  shows "case unload_query_barrel db os (c, w) of
      Inl e \<Rightarrow> e = Undefined Signed_overflow \<or>
        (\<exists>q n c w. Query_charge q n \<in> set (actions b) \<and> run_charge db os q (c, w) = Inl e)
    | Inr (c', w') \<Rightarrow> (\<exists>b'. qb c' = Some b' \<and> barrel_ok b' \<and> actions b' = actions b \<and>
        (\<forall>k. query_count k b' = query_count k b + max 0 (num_rounds b) * shots_all k (actions b)))"
proof -
  have "fires db os (actions b) (\<lambda>k. int (nat (num_rounds b)) * shots_all k (actions b)) c
      (repeatR (nat (num_rounds b)) (foldR (fire db os) (actions b)) (c, w))"
    by (rule repeatR_fires [OF _ assms refl]) (erule (2) foldR_fires, simp)

  moreover have "int (nat (num_rounds b)) = max 0 (num_rounds b)" by simp
  ultimately show ?thesis
    by (auto simp: unload_query_barrel_def assms(1) fires_def fire_fault_def counted_def split: sum.splits)
qed

text \<open>
  C11: unloading the barrel runs the plan exactly.  For every barrel whose charges have their report, each
  type's count grows by the number of rounds times the shots its charges have (none for a negative
  number), no other count changes, and the barrel is well-formed afterwards; the run stops early only
  when a query fails, with that query's fault, or when a count leaves the range of \<open>int\<close>.
\<close>

theorem unload_counts:
  assumes "qb c = Some b" and "barrel_ok b"
  shows "case unload_query_barrel db os (c, w) of
      Inl e \<Rightarrow> e = Undefined Signed_overflow \<or>
        (\<exists>q n c w. Query_charge q n \<in> set (actions b) \<and> run_charge db os q (c, w) = Inl e)
    | Inr (c', w') \<Rightarrow> (\<exists>b'. qb c' = Some b' \<and> barrel_ok b' \<and> actions b' = actions b \<and>
        (\<forall>k. query_count k b' = query_count k b + max 0 (num_rounds b) * shots_all k (actions b)))"
  by (rule unload_plan [OF assms])

text \<open>A world for the witnesses: a clock that advances by a microsecond at every reading and the queries
  run so far, with a server on which every query succeeds.\<close>

definition example_os :: "(nat \<times> string list) os" where
  "example_os = \<lparr>gettimeofday = \<lambda>(t, l). (Timeval 0 (int t), (t + 1, l)),
     os_rand = \<lambda>(t, l). (t, (t, l)), os_srand = \<lambda>w. w, os_sleep = \<lambda>s w. w, os_usleep = \<lambda>s w. w,
     os_fork = \<lambda>w. (- 1, w), os_wait4 = \<lambda>w. (Sys_error, w), os_pipe = \<lambda>w. (Some (3, 4), w),
     os_close = \<lambda>fd w. w, os_read = \<lambda>fd n w. (Some [], w), os_write = \<lambda>fd s w. (int (length s), w),
     os_select = \<lambda>wr fd w. (Sys_ok, w), os_ftok = \<lambda>w. 1, os_semget = \<lambda>k n cr w. (7, w),
     os_setval = \<lambda>i v w. w, os_semop = \<lambda>i d w. (0, w), os_rmid = \<lambda>s w. w\<rparr>"


definition example_db :: "(nat \<times> string list) db_class" where
  "example_db = \<lparr>do_connect = \<lambda>c w. Inr w, safe_query = \<lambda>q ab (t, l). Inr (0, (t, l @ [q])),
     lose_result = Inr, disconnect = \<lambda>c w. (c\<lparr>connected := 0\<rparr>, w), db_escape = escape_string,
     db_escape_extra = 0, get_table_info = \<lambda>t w. Inr ((0, 5), w), load_table_data = \<lambda>t f w. Inr (0, w),
     dump_result = \<lambda>f ab w. Inr (0, w)\<rparr>"

definition example_query :: query where
  "example_query = \<lparr>query_text = ''select 1'', query_name = ''q'', type_name = ''t'',
     has_result_set = 0, parsed = 0\<rparr>"

definition example_barrel :: query_barrel where
  "example_barrel = barrel_set_num_rounds 2 (add_sleep_action 1 0 (add_query_charge example_query 3 new_Query_barrel))"

lemma example_barrel_ok: "barrel_ok example_barrel"
proof -
  have "barrel_ok (add_sleep_action 1 0 (add_query_charge example_query 3 new_Query_barrel))"
    by (intro barrel_ok_sleep barrel_ok_charge barrel_ok_new) (simp add: example_query_def)
  then show ?thesis by (simp add: example_barrel_def barrel_set_num_rounds_def barrel_ok_def typed_def)
qed

lemma example_barrel_actions:
  "actions example_barrel = [Query_charge example_query 3, Sleep_action 1 0]"
  "num_rounds example_barrel = 2"
  "type_reports (qr example_barrel) = [(''t'', Some new_qtr)]"
  by (simp_all add: example_barrel_def barrel_set_num_rounds_def add_sleep_action_def add_query_charge_def
      example_query_def new_Query_barrel_def new_Query_report_def smap_index_def smap_find_def)

theorem unload_counts_witness:
  "case unload_query_barrel example_db example_os (set_query_barrel example_barrel new_Client, (0, [])) of
      Inl e \<Rightarrow> False
    | Inr (c', w') \<Rightarrow> (\<exists>b'. qb c' = Some b' \<and> query_count ''t'' b' = 6)"
proof -
  let ?c = "set_query_barrel example_barrel new_Client"
  have q: "qb ?c = Some example_barrel" by (simp add: set_query_barrel_def)
  have ok: "is_ok (unload_query_barrel example_db example_os (?c, (0, [])))"
    by (simp add: unload_query_barrel_def set_query_barrel_def example_barrel_actions numeral_2_eq_2
        numeral_3_eq_3 fire_def fire_shot_def example_os_def example_db_def run_charge_def example_query_def
        update_report_def report_update_def smap_index_def smap_find_def qtr_update_def new_qtr_def
        chk_def int_range_defs c_str_def)
  have "query_count ''t'' example_barrel = 0"
    by (simp add: query_count_def example_barrel_actions smap_find_def new_qtr_def)
  moreover have "shots_all ''t'' (actions example_barrel) = 3"
    by (simp add: shots_all_def example_barrel_actions example_query_def)
  ultimately show ?thesis
    using unload_counts [OF q example_barrel_ok, of example_db example_os "(0, [])"] ok
    by (auto simp: example_barrel_actions is_ok_def split: sum.splits)
qed

section \<open>Times\<close>

definition micros :: "timeval \<Rightarrow> int" where
  "micros t = tv_sec t * 1000000 + tv_usec t"

definition normal_time :: "timeval \<Rightarrow> bool" where
  "normal_time t \<longleftrightarrow> 0 \<le> tv_usec t \<and> tv_usec t < 1000000"

lemma normal_time_le: "normal_time s \<Longrightarrow> normal_time e \<Longrightarrow> s \<le> e \<longleftrightarrow> micros s \<le> micros e"
  by (auto simp: normal_time_def micros_def less_eq_timeval_def)

lemma sdiv_1000: "\<bar>1000 * (x sdiv 1000) - x\<bar> < 1000" for x :: int
proof (cases "0 \<le> x")
  case True
  then show ?thesis using sdiv_nonneg [of x 1000] by (simp; linarith?)
next
  case False
  then show ?thesis using sdiv_neg [of x 1000] by (simp; linarith?)
qed

text \<open>
  A measured time is right to the millisecond: between two normal readings of the clock, the second
  not before the first and less than 24 days after it, the value stored is not negative and differs from
  the true time by less than a millisecond, although the seconds and the microseconds are subtracted and
  divided separately.
\<close>

lemma elapsed_ms_accurate:
  assumes "normal_time s" "normal_time e" "s \<le> e" "micros e - micros s < 2073600000000"
  shows "0 \<le> elapsed_ms s e \<and> \<bar>1000 * elapsed_ms s e - (micros e - micros s)\<bar> < 1000"
proof -
  let ?ds = "tv_sec e - tv_sec s" and ?du = "tv_usec e - tv_usec s"
  let ?t = "?ds * 1000 + ?du sdiv 1000"
  have le: "micros s \<le> micros e" using assms normal_time_le by blast
  have mic: "micros e - micros s = 1000000 * ?ds + ?du" by (simp add: micros_def algebra_simps)
  have "1000 * ?t - (micros e - micros s) = 1000 * (?du sdiv 1000) - ?du"
    unfolding mic by (simp add: algebra_simps)
  with sdiv_1000 [of ?du] have err: "\<bar>1000 * ?t - (micros e - micros s)\<bar> < 1000" by simp
  have nn: "0 \<le> ?t"
  proof -
    have "0 \<le> t" if "- 1000 < 1000 * t" for t :: int using that by simp
    moreover from err le have "- 1000 < 1000 * ?t" by linarith
    ultimately show ?thesis by blast
  qed
  have "in_int ?t" using nn err assms(4) by (simp add: int_range_defs)
  then have "elapsed_ms s e = ?t" by (simp add: elapsed_ms_def)
  with nn err show ?thesis by simp
qed

section \<open>Connect statistics\<close>

text \<open>
  The connect line of a report does not cover the process that prints it.  A parent that connects adds
  its own time to the total and itself to the number of clients, but not to the maximum and the minimum:
  a single connected client is reported with maximum 0 and minimum -1 whatever its time, and that time as
  the average.
\<close>

lemma own_connect_not_in_range:
  assumes "do_connect db new_Client (snd (gettimeofday os w)) = Inr w1"
  shows "\<exists>c w'. connect db os (new_Client, w) = Inr (c, w') \<and> connected c = 1
    \<and> max_connect_time c = 0 \<and> min_connect_time c = -1 \<and> num_reported_clients c = 1
    \<and> avg_connect_time c = elapsed_ms (fst (gettimeofday os w)) (fst (gettimeofday os w1))"
proof -
  obtain s w0 where g: "gettimeofday os w = (s, w0)" by (cases "gettimeofday os w")
  obtain e w2 where g1: "gettimeofday os w1 = (e, w2)" by (cases "gettimeofday os w1")
  have "in_int (elapsed_ms s e)" by (simp add: elapsed_ms_def in_int_to_int32)
  moreover have "x sdiv 1 = x" for x :: int by (simp add: signed_divide_int_def sgn_if)
  ultimately show ?thesis
    using assms
    by (simp add: connect_def g g1 new_Client_def avg_connect_time_def int_range_defs chk_def Let_def)
qed

section \<open>Query objects\<close>



section \<open>Values of script variables\<close>

lemma length_dec_int_in: "in_int n \<Longrightarrow> length (dec_int n) \<le> 11"
proof -
  assume "in_int n"
  then have "nat n < 10 ^ 10" "nat (- n) < 10 ^ 10" by (auto simp: int_range_defs nat_less_iff)
  then show ?thesis
    using length_dec [of "nat n" 10] length_dec [of "nat (- n)" 10] by (simp add: dec_int_def)
qed

lemma strval_int_Val: "in_int n \<Longrightarrow> strval (int_Val n) = dec_int n @ ''.000000''"
proof -
  assume n: "in_int n"
  have ex: "to_double (of_int n) = of_int n"
    using n by (intro fl_int) (auto simp: int_range_defs)
  have "fmt_fixed 6 (of_int n) = dec_int n @ ''.000000''"
  proof (cases "0 \<le> n")
    case True
    then show ?thesis using fmt_fixed_int [of n 6] by (simp add: dec_int_def numeral_eq_Suc)
  next
    case False
    then have "fmt_fixed 6 (of_int n) = CHR ''-'' # fmt_fixed 6 (of_int (- n))"
      by (simp add: fmt_fixed_def Let_def)
    with False show ?thesis using fmt_fixed_int [of "- n" 6] by (simp add: dec_int_def numeral_eq_Suc)
  qed
  then show ?thesis
    using length_dec_int_in [OF n] by (simp add: int_Val_def val_set_int_def val_set_double_def ex)
qed

text \<open>
  A number read back by a script is the number.  The value of an integer report parameter, passed
  as a parameter of a method that takes an integer, is converted by \<open>atoi\<close> to the same integer, although
  it was formatted as a double with six decimals.
\<close>

lemma int_param_round_trip:
  assumes "in_int n"
  shows "atoi (strval (int_Val n)) = n"
proof -
  have "NUL \<notin> set (dec_int n @ ''.000000'')" using pad_int_no_NUL [of _ _ _ n] by (simp add: dec_int_pad)
  moreover have "strtol10 (dec_int n @ ''.000000'') = n"
    using strtol10_pad_int [OF assms, of "''.000000''" False False 0] by (simp add: dec_int_pad isdigit_def)
  ultimately show ?thesis using strval_int_Val [OF assms] assms by (simp add: atoi_def c_str_id)

qed

end
