(* ===== verification/Smack_Engines.thy ===== *)
theory Smack_Engines
  imports Smack_Num
begin

text \<open>
  \<^verbatim>\<open>src/engines.cc\<close>: the table of database engines.  The constructor of a global \<open>Engine\<close> object enters its
  engine in the first free slot; a script's client is created through the number of its engine
  (\<open>set_db_type\<close> of \<^verbatim>\<open>src/super-smack.cc\<close> looks the number up by the handle).  \<open>'k\<close> stands for the function that
  creates the client object.
\<close>

section \<open>The table\<close>

definition MAX_ENGINES :: nat where "MAX_ENGINES = 64"

record 'k engine =
  eng_id :: int
  eng_name :: string
  eng_handle :: string
  eng_create :: "'k option"
  eng_version :: string
  eng_author :: string

text \<open>A slot after \<open>bzero\<close>.\<close>

definition empty_engine :: "'k engine" where
  "empty_engine = \<lparr>eng_id = 0, eng_name = '''', eng_handle = '''', eng_create = None,
     eng_version = '''', eng_author = ''''\<rparr>"

record 'k registry =
  engines :: "'k engine list"
  initialized :: bool

definition new_registry :: "'k registry" where
  "new_registry = \<lparr>engines = replicate MAX_ENGINES empty_engine, initialized = False\<rparr>"

text \<open>The loop of the constructor: the first slot whose id is 0, searched from slot \<open>i\<close>, takes the engine.\<close>

fun enter :: "int \<Rightarrow> 'k engine \<Rightarrow> 'k engine list \<Rightarrow> 'k engine list" where
  "enter i e [] = []"
| "enter i e (x # xs) = (if eng_id x = 0 then e\<lparr>eng_id := i + 1\<rparr> # xs else x # enter (i + 1) e xs)"

definition Engine :: "string \<Rightarrow> string \<Rightarrow> 'k \<Rightarrow> string \<Rightarrow> string \<Rightarrow> 'k registry \<Rightarrow> 'k registry" where
  "Engine nm handle create version author r =
     (let tab = (if initialized r then engines r else replicate MAX_ENGINES empty_engine)
      in \<lparr>engines = enter 0 \<lparr>eng_id = 0, eng_name = nm, eng_handle = handle, eng_create = Some create,
            eng_version = version, eng_author = author\<rparr> tab, initialized = True\<rparr>)"

text \<open>The destructor of a slot: it gives the number back and frees all strings but the handle.\<close>

definition engine_destroy :: "'k engine \<Rightarrow> 'k engine" where
  "engine_destroy e = (if eng_id e \<noteq> 0 then e\<lparr>eng_id := 0\<rparr> else e)"

section \<open>Lookup\<close>

definition find_handle :: "string \<Rightarrow> 'k engine list \<Rightarrow> 'k engine option" where
  "find_handle handle tab = find (\<lambda>e. eng_id e \<noteq> 0 \<and> eng_handle e = handle) tab"

definition new_client_handle :: "string option \<Rightarrow> 'k registry \<Rightarrow> 'k option" where
  "new_client_handle handle r =
     (case handle of
        None \<Rightarrow> None
      | Some h \<Rightarrow> Option.bind (find_handle h (engines r)) eng_create)"

definition new_client_id :: "int \<Rightarrow> 'k registry \<Rightarrow> 'k option" where
  "new_client_id i r =
     (if 0 < i \<and> i < int MAX_ENGINES
      then Option.bind (find (\<lambda>e. eng_id e = i) (engines r)) eng_create else None)"

definition engine_id :: "string option \<Rightarrow> 'k registry \<Rightarrow> int" where
  "engine_id handle r =
     (case handle of
        None \<Rightarrow> 0
      | Some h \<Rightarrow> (case find_handle h (engines r) of None \<Rightarrow> 0 | Some e \<Rightarrow> eng_id e))"

text \<open>\<open>set_db_type\<close> of \<^verbatim>\<open>src/super-smack.cc\<close>.\<close>

definition set_db_type :: "string \<Rightarrow> 'k registry \<Rightarrow> int result" where
  "set_db_type db_str r =
     (let n = engine_id (Some db_str) r in if n = 0 then die (Unknown_db_type db_str) else Inr n)"

text \<open>\<open>print_engines\<close> reads slot after slot until an id that is not positive, also past the last slot.\<close>

definition engine_line :: "'k engine \<Rightarrow> string" where
  "engine_line e =
     (let tab = CHR 0x09; gap = (\<lambda>s. if length s > 7 then '''' else [tab])
      in dec_int (eng_id e) @ [tab] @ eng_handle e @ gap (eng_handle e) @ [tab] @
         eng_name e @ gap (eng_name e) @ [tab] @ eng_version e @ gap (eng_version e) @ [tab] @
         eng_author e @ [CHR 0x0A])"

fun engine_lines :: "'k engine list \<Rightarrow> string result" where
  "engine_lines [] = undef Out_of_bounds"
| "engine_lines (e # es) =
     (if 0 < eng_id e then mapR (\<lambda>s. engine_line e @ s) (engine_lines es) else Inr '''')"

section \<open>Engines registered in turn\<close>

definition register_all :: "(string \<times> string \<times> 'k \<times> string \<times> string) list \<Rightarrow> 'k registry" where
  "register_all es = foldl (\<lambda>r (n, h, k, v, a). Engine n h k v a r) new_registry es"

fun entry :: "int \<Rightarrow> string \<times> string \<times> 'k \<times> string \<times> string \<Rightarrow> 'k engine" where
  "entry i (n, h, k, v, a) = \<lparr>eng_id = i, eng_name = n, eng_handle = h, eng_create = Some k,
     eng_version = v, eng_author = a\<rparr>"

fun entries_from :: "int \<Rightarrow> (string \<times> string \<times> 'k \<times> string \<times> string) list \<Rightarrow> 'k engine list" where
  "entries_from i [] = []"
| "entries_from i (e # es) = entry (i + 1) e # entries_from (i + 1) es"

lemma entries_from_append:
  "entries_from i (xs @ ys) = entries_from i xs @ entries_from (i + int (length xs)) ys"
  by (induction i xs rule: entries_from.induct) (simp_all add: algebra_simps)

lemma length_entries_from [simp]: "length (entries_from i es) = length es"
  by (induction i es rule: entries_from.induct) simp_all

lemma entries_from_ids: "0 \<le> i \<Longrightarrow> e \<in> set (entries_from i es) \<Longrightarrow> i < eng_id e"
proof (induction i es rule: entries_from.induct)
  case (2 i e' es)
  then show ?case by (cases e') (auto simp: less_trans)
qed simp

lemma enter_entries:
  "0 \<le> i \<Longrightarrow> enter i x (entries_from i es @ replicate k empty_engine) =
   entries_from i es @ (case k of 0 \<Rightarrow> [] | Suc k \<Rightarrow> x\<lparr>eng_id := i + int (length es) + 1\<rparr> # replicate k empty_engine)"
proof (induction i es rule: entries_from.induct)
  case (1 i)
  then show ?case by (cases k) (simp_all add: empty_engine_def)
next
  case (2 i e es)
  have "eng_id (entry (i + 1) e) \<noteq> 0" using 2(2) by (cases e) simp
  with 2 show ?case by (cases k) (simp_all add: algebra_simps)
qed

lemma register_all_table:
  assumes "length es \<le> MAX_ENGINES"
  shows "engines (register_all es) = entries_from 0 es @ replicate (MAX_ENGINES - length es) empty_engine"
  using assms
proof (induction es rule: rev_induct)
  case Nil
  then show ?case by (simp add: register_all_def new_registry_def)
next
  case (snoc e es)
  obtain n h k v a where e: "e = (n, h, k, v, a)" by (cases e)
  have len: "length es < MAX_ENGINES" using snoc.prems by simp
  then obtain m where m: "MAX_ENGINES - length es = Suc m" by (cases "MAX_ENGINES - length es") auto
  have "register_all (es @ [e]) = Engine n h k v a (register_all es)" by (simp add: register_all_def e)
  moreover have "initialized (register_all es) \<or> es = []"
    by (cases es rule: rev_cases) (auto simp: register_all_def Engine_def Let_def split: prod.splits)
  moreover have "engines (register_all es) = entries_from 0 es @ replicate (Suc m) empty_engine"
    using snoc len m by simp
  moreover have "es = [] \<Longrightarrow> replicate MAX_ENGINES empty_engine = entries_from 0 es @ replicate (Suc m) empty_engine"
    using m by simp
  ultimately have "engines (register_all (es @ [e])) =
      enter 0 (entry 0 e) (entries_from 0 es @ replicate (Suc m) empty_engine)"
    by (cases "initialized (register_all es)") (simp_all add: Engine_def Let_def e)
  also have "\<dots> = entries_from 0 es @ entry (int (length es) + 1) e # replicate m empty_engine"
    using enter_entries [of 0 "entry 0 e" es "Suc m"] by (simp add: e)
  finally have "engines (register_all (es @ [e])) =
      entries_from 0 es @ entry (int (length es) + 1) e # replicate m empty_engine" .

  moreover have "m = MAX_ENGINES - length (es @ [e])" using m by simp
  ultimately show ?case by (simp add: entries_from_append)
qed

lemma find_handle_entries:
  assumes "0 \<le> i" "distinct (map (\<lambda>e. fst (snd e)) es)" "j < length es"
  shows "find_handle (fst (snd (es ! j))) (entries_from i es @ tab) = Some (entry (i + int j + 1) (es ! j))"
  using assms
proof (induction i es arbitrary: j rule: entries_from.induct)
  case (2 i e es)
  obtain n h k v a where e: "e = (n, h, k, v, a)" by (cases e)
  show ?case
  proof (cases j)
    case 0
    with 2 show ?thesis by (simp add: find_handle_def e)
  next
    case (Suc j')
    with "2.prems" have j': "j' < length es" by simp
    then have "fst (snd (es ! j')) \<in> (\<lambda>e. fst (snd e)) ` set es" by (intro imageI) simp
    with "2.prems" have "fst (snd (es ! j')) \<noteq> h" by (auto simp: e)
    with 2 Suc j' show ?thesis by (simp add: find_handle_def e algebra_simps)
  qed
qed simp

lemma find_id_entries:
  "0 \<le> i \<Longrightarrow> j < length es \<Longrightarrow>
   find (\<lambda>e. eng_id e = i + int j + 1) (entries_from i es @ tab) = Some (entry (i + int j + 1) (es ! j))"
proof (induction i es arbitrary: j rule: entries_from.induct)
  case (2 i e es)
  obtain n h k v a where e: "e = (n, h, k, v, a)" by (cases e)
  show ?case
  proof (cases j)
    case (Suc j')
    have "find (\<lambda>e. eng_id e = (i + 1) + int j' + 1) (entries_from (i + 1) es @ tab) =
        Some (entry ((i + 1) + int j' + 1) (es ! j'))"
      using 2 Suc by simp
    with 2 show ?thesis by (simp add: e Suc algebra_simps)
  qed (simp add: e)
qed simp

text \<open>
  C34: the handle of an engine leads to that engine.  When at most 64 engines with distinct handles are
  registered, the engine registered at position \<open>j\<close> has number \<open>j + 1\<close>, and a client created by its handle
  or by its number is created by that engine; the one exception is the 64th engine, whose number the
  lookup by number refuses, so that \<open>--db-type\<close> accepts it and the script then gets no client.
\<close>

theorem registry_lookup:
  assumes "length es \<le> MAX_ENGINES" "distinct (map (\<lambda>e. fst (snd e)) es)" "j < length es"
    and "es ! j = (n, h, k, v, a)"
  shows "engine_id (Some h) (register_all es) = int j + 1
    \<and> new_client_handle (Some h) (register_all es) = Some k
    \<and> new_client_id (engine_id (Some h) (register_all es)) (register_all es) = (if j < 63 then Some k else None)"
proof -
  note tab = register_all_table [OF assms(1)]
  have h: "find_handle h (engines (register_all es)) = Some (entry (int j + 1) (n, h, k, v, a))"
    using find_handle_entries [of 0 es j] assms by (simp add: tab)
  then have id: "engine_id (Some h) (register_all es) = int j + 1" by (simp add: engine_id_def)
  have "new_client_id (int j + 1) (register_all es) = (if j < 63 then Some k else None)"
  proof (cases "j < 63")
    case True
    with find_id_entries [of 0 j es "replicate (MAX_ENGINES - length es) empty_engine"] assms
    show ?thesis by (simp add: new_client_id_def MAX_ENGINES_def tab)
  next
    case False
    then show ?thesis by (simp add: new_client_id_def MAX_ENGINES_def)
  qed
  with h id show ?thesis by (simp add: new_client_handle_def)
qed

theorem registry_lookup_witness:
  "engine_id (Some ''pg'') (register_all [(''MySQL'', ''mysql'', 1::nat, ''1.0'', ''a''), (''PostgreSQL'', ''pg'', 2, ''1.0'', ''a'')]) = 2
   \<and> new_client_handle (Some ''pg'') (register_all [(''MySQL'', ''mysql'', 1::nat, ''1.0'', ''a''), (''PostgreSQL'', ''pg'', 2, ''1.0'', ''a'')]) = Some 2
   \<and> new_client_id (engine_id (Some ''pg'') (register_all [(''MySQL'', ''mysql'', 1::nat, ''1.0'', ''a''), (''PostgreSQL'', ''pg'', 2, ''1.0'', ''a'')]))
       (register_all [(''MySQL'', ''mysql'', 1::nat, ''1.0'', ''a''), (''PostgreSQL'', ''pg'', 2, ''1.0'', ''a'')]) = Some 2"
  using registry_lookup [of "[(''MySQL'', ''mysql'', 1::nat, ''1.0'', ''a''), (''PostgreSQL'', ''pg'', 2, ''1.0'', ''a'')]" 1]
  by (auto simp: MAX_ENGINES_def)

lemma engine_lines_entries:
  "0 \<le> i \<Longrightarrow> engine_lines (entries_from i es @ tab) =
   mapR (\<lambda>s. concat (map engine_line (entries_from i es)) @ s) (engine_lines tab)"
proof (induction i es rule: entries_from.induct)
  case (1 i)
  then show ?case by (cases "engine_lines tab") simp_all
next
  case (2 i e es)
  then show ?case by (cases e; cases "engine_lines tab") simp_all
qed

text \<open>
  The usage text lists every registered engine, in order, as long as a slot is free; with all 64
  slots taken the listing runs past the end of the table.
\<close>

lemma print_engines_lists:
  assumes "length es \<le> MAX_ENGINES"
  shows "engine_lines (engines (register_all es)) =
    (if length es < MAX_ENGINES then Inr (concat (map engine_line (entries_from 0 es))) else undef Out_of_bounds)"
proof (cases "length es < MAX_ENGINES")
  case True
  then obtain m where "MAX_ENGINES - length es = Suc m" by (cases "MAX_ENGINES - length es") auto
  with True show ?thesis
    by (simp add: register_all_table [OF assms] engine_lines_entries empty_engine_def)
next
  case False
  with assms show ?thesis
    using engine_lines_entries [of 0 es "[]"] by (simp add: register_all_table)
qed

end
