(* ===== verification/Smack_Parse.thy ===== *)
theory Smack_Parse
  imports Smack_Client Smack_Engines Smack_Path
begin

text \<open>
  \<^verbatim>\<open>src/parse.h\<close> and \<^verbatim>\<open>src/parse.cc\<close>, the definition sections of a script: the lines of a query, dictionary,
  client and table section, how they build the object, and the query barrel given as a string
  (\<open>Client_query_barrel_def_line::update_client_def\<close>).  The class of a line is a constructor, its string
  the argument.
\<close>

section \<open>Query sections\<close>

datatype query_def_line =
    Query_name_def_line string
  | Query_query_def_line string
  | Query_type_def_line string
  | Query_has_result_set_def_line string
  | Query_parsed_def_line string

text \<open>\<open>tolower(str[0]) == 'y'\<close>; the character at the end of a \<open>std::string\<close> is NUL.\<close>

definition yes :: "string \<Rightarrow> int" where
  "yes s = (if tolower (case s of [] \<Rightarrow> NUL | c # _ \<Rightarrow> c) = CHR ''y'' then 1 else 0)"

fun set_q_param :: "query_def_line \<Rightarrow> query \<Rightarrow> query" where
  "set_q_param (Query_name_def_line s) q = q\<lparr>query_name := s\<rparr>"
| "set_q_param (Query_query_def_line s) q = q\<lparr>query_text := s\<rparr>"
| "set_q_param (Query_type_def_line s) q = q\<lparr>type_name := s\<rparr>"
| "set_q_param (Query_has_result_set_def_line s) q = q\<lparr>has_result_set := yes s\<rparr>"
| "set_q_param (Query_parsed_def_line s) q = q\<lparr>parsed := yes s\<rparr>"

section \<open>Dictionary sections\<close>

record dict_def =
  dd_source :: string
  dd_source_type :: string
  dd_dict_type :: string
  dd_name :: string
  dd_file_size_equiv :: string
  dd_delim :: string

definition new_Dict_def :: dict_def where
  "new_Dict_def = \<lparr>dd_source = '''', dd_source_type = '''', dd_dict_type = '''', dd_name = '''',
     dd_file_size_equiv = '''', dd_delim = ''''\<rparr>"

datatype dict_def_line =
    Dict_source_def_line string
  | Dict_source_type_def_line string
  | Dict_delim_def_line string
  | Dict_file_size_equiv_def_line string
  | Dict_dict_type_def_line string

fun update_dict_def :: "dict_def_line \<Rightarrow> dict_def \<Rightarrow> dict_def" where
  "update_dict_def (Dict_source_def_line s) d = d\<lparr>dd_source := s\<rparr>"
| "update_dict_def (Dict_source_type_def_line s) d = d\<lparr>dd_source_type := s\<rparr>"
| "update_dict_def (Dict_delim_def_line s) d = d\<lparr>dd_delim := s\<rparr>"
| "update_dict_def (Dict_file_size_equiv_def_line s) d = d\<lparr>dd_file_size_equiv := s\<rparr>"
| "update_dict_def (Dict_dict_type_def_line s) d = d\<lparr>dd_dict_type := s\<rparr>"

text \<open>The part of \<open>make_dict\<close> that works on the base class: the two settings, then the source.\<close>

definition fill_dict :: "host \<Rightarrow> dict_def \<Rightarrow> 'a dictionary_scheme \<Rightarrow> 'a dictionary_scheme result option" where
  "fill_dict h dd d =
     (let d = (if dd_file_size_equiv dd \<noteq> [] then d\<lparr>file_size_equiv := atoi (c_str (dd_file_size_equiv dd))\<rparr> else d);
          d = (if dd_delim dd \<noteq> [] then d\<lparr>delim := hd (dd_delim dd)\<rparr> else d)
      in if dd_source_type dd = ''file'' then Some (mapR snd (load_file h (c_str (dd_source dd)) d))
         else if dd_source_type dd = ''list'' then Some (Inr (load_list (c_str (dd_source dd)) d))
         else if dd_source_type dd = ''template'' then None
         else Some (die (Unknown_source_type (c_str (dd_source_type dd)))))"

definition make_dict :: "host \<Rightarrow> dict_def \<Rightarrow> dict result" where
  "make_dict h dd =
     (if dd_dict_type dd = ''rand'' then
        (case fill_dict h dd new_Rand_dictionary of
           None \<Rightarrow> die Template_not_unique
         | Some r \<Rightarrow> mapR (\<lambda>d. Rand_dictionary (d\<lparr>dict_name := dd_name dd\<rparr>)) r)
      else if dd_dict_type dd = ''seq'' then
        (case fill_dict h dd new_Seq_dictionary of
           None \<Rightarrow> die Template_not_unique
         | Some r \<Rightarrow> mapR (\<lambda>d. Seq_dictionary (d\<lparr>dict_name := dd_name dd\<rparr>)) r)
      else if dd_dict_type dd = ''unique'' then
        (case fill_dict h dd new_Unique_dictionary of
           None \<Rightarrow>
             (let d = new_Unique_dictionary;
                  d = (if dd_file_size_equiv dd \<noteq> [] then d\<lparr>file_size_equiv := atoi (c_str (dd_file_size_equiv dd))\<rparr> else d);
                  d = (if dd_delim dd \<noteq> [] then d\<lparr>delim := hd (dd_delim dd)\<rparr> else d)
              in Inr (Unique_dictionary ((set_template (c_str (dd_source dd)) d)\<lparr>dict_name := dd_name dd\<rparr>)))
         | Some r \<Rightarrow> mapR (\<lambda>d. Unique_dictionary (d\<lparr>dict_name := dd_name dd\<rparr>)) r)
      else die (Unknown_dict_type (c_str (dd_dict_type dd))))"

section \<open>Client sections\<close>

record client_def =
  cd_name :: string
  cd_user :: string
  cd_host :: string
  cd_db :: string
  cd_pass :: string
  cd_socket :: string
  cd_port :: string
  cd_qb :: "query_barrel option"

definition new_Client_def :: client_def where
  "new_Client_def = \<lparr>cd_name = '''', cd_user = '''', cd_host = '''', cd_db = '''', cd_pass = '''',
     cd_socket = '''', cd_port = '''', cd_qb = None\<rparr>"

text \<open>
  \<open>make_client\<close>: \<open>new_client(db_type)\<close> is an argument, \<open>None\<close> when the number of the engine is refused.
  The result points to the pool \<open>dict_pool\<close> of the process.
\<close>

definition make_client :: "'k option \<Rightarrow> dict option smap \<Rightarrow> client_def \<Rightarrow> client result" where
  "make_client new_client dict_pool cd =
     (case new_client of
        None \<Rightarrow> undef Null_deref
      | Some k \<Rightarrow>
          let c = new_Client\<lparr>cl_user := cd_user cd, cl_pass := cd_pass cd, cl_db := cd_db cd,
                    cl_host := cd_host cd, cl_socket := cd_socket cd, cl_port := cd_port cd\<rparr>;
              c = (case cd_qb cd of None \<Rightarrow> c | Some b \<Rightarrow> set_query_barrel b c)
          in Inr (set_dictionary_pool dict_pool c))"

subsection \<open>The query barrel\<close>

text \<open>
  The sleep time of an item \<open>-t\<close>: seconds and microseconds, in \<open>float\<close>.  Converting a value outside the
  range of \<open>int\<close>, an infinity or a NaN to \<open>int\<close> is undefined.
\<close>

definition sleep_time :: "string \<Rightarrow> (int \<times> int) result" where
  "sleep_time t =
     (case atof t of
        Fin d \<Rightarrow>
          (let sl = to_float d; sec = \<lfloor>sl\<rfloor>
           in if in_int sec then
                (let sl = to_float (sl - of_int sec); usec = \<lfloor>to_float (sl * 1000000)\<rfloor>
                 in if in_int usec then Inr (sec, usec) else undef Bad_conversion)
              else undef Bad_conversion)
      | _ \<Rightarrow> undef Bad_conversion)"

datatype parse_state = NUM_SHOTS | QUERY_NAME

record barrel_parser =
  bp_state :: parse_state
  bp_shots :: int
  bp_barrel :: query_barrel
  bp_pool :: "query option smap"

definition push_sleep :: "string \<Rightarrow> barrel_parser \<Rightarrow> barrel_parser result" where
  "push_sleep t s =
     mapR (\<lambda>(sec, usec). s\<lparr>bp_barrel := add_sleep_action sec usec (bp_barrel s)\<rparr>) (sleep_time t)"

definition push_charge :: "string \<Rightarrow> barrel_parser \<Rightarrow> barrel_parser result" where
  "push_charge name s =
     (let (p, m) = smap_index name (bp_pool s); s = s\<lparr>bp_pool := m\<rparr>
      in case p of
           None \<Rightarrow> die (Barrel_query_undefined name)
         | Some q \<Rightarrow> Inr (s\<lparr>bp_barrel := add_query_charge q (bp_shots s) (bp_barrel s)\<rparr>))"

text \<open>A word ended by a space: what the \<open>switch\<close> on \<open>parse_state\<close> does with the buffer.\<close>

definition barrel_word :: "string \<Rightarrow> barrel_parser \<Rightarrow> barrel_parser result" where
  "barrel_word buf s =
     (case bp_state s of
        NUM_SHOTS \<Rightarrow>
          (if c_str buf \<noteq> [] \<and> hd buf = CHR ''-'' then push_sleep (c_str (tl buf)) s
           else Inr (s\<lparr>bp_shots := atoi (c_str buf), bp_state := QUERY_NAME\<rparr>))
      | QUERY_NAME \<Rightarrow> mapR (\<lambda>s. s\<lparr>bp_state := NUM_SHOTS\<rparr>) (push_charge (c_str buf) s))"

text \<open>A word ended by the end of the string: \<open>parse_state\<close> is not looked at.\<close>

definition barrel_last_word :: "string \<Rightarrow> barrel_parser \<Rightarrow> barrel_parser result" where
  "barrel_last_word buf s =
     (if c_str buf \<noteq> [] \<and> hd buf = CHR ''-'' then push_sleep (c_str (tl buf)) s
      else push_charge (c_str buf) s)"

text \<open>The loop over the string: \<open>last_was_space\<close> and the buffer; the buffer has room for the whole string.\<close>

fun barrel_loop :: "string \<Rightarrow> bool \<Rightarrow> string \<Rightarrow> barrel_parser \<Rightarrow> barrel_parser result" where
  "barrel_loop [] last_was_space buf s =
     (if last_was_space then Inr s else barrel_last_word buf s)"
| "barrel_loop (c # cs) last_was_space buf s =
     (if c = CHR '' '' then
        (if last_was_space then barrel_loop cs True buf s
         else bindR (barrel_word buf s) (barrel_loop cs True []))
      else barrel_loop cs False (buf @ [c]) s)"

definition parse_barrel :: "query option smap \<Rightarrow> string \<Rightarrow> (query_barrel \<times> query option smap) result" where
  "parse_barrel pool str =
     mapR (\<lambda>s. (bp_barrel s, bp_pool s))
       (barrel_loop str True [] \<lparr>bp_state = NUM_SHOTS, bp_shots = 0, bp_barrel = new_Query_barrel, bp_pool = pool\<rparr>)"

datatype client_def_line =
    Client_query_barrel_def_line string
  | Client_user_def_line string
  | Client_pass_def_line string
  | Client_host_def_line string
  | Client_db_def_line string
  | Client_port_def_line string
  | Client_socket_def_line string

fun update_client_def :: "client_def_line \<Rightarrow> client_def \<times> query option smap \<Rightarrow>
    (client_def \<times> query option smap) result" where
  "update_client_def (Client_query_barrel_def_line s) (cd, pool) =
     mapR (\<lambda>(b, pool). (cd\<lparr>cd_qb := Some b\<rparr>, pool)) (parse_barrel pool s)"
| "update_client_def (Client_user_def_line s) (cd, pool) = Inr (cd\<lparr>cd_user := s\<rparr>, pool)"
| "update_client_def (Client_pass_def_line s) (cd, pool) = Inr (cd\<lparr>cd_pass := s\<rparr>, pool)"
| "update_client_def (Client_host_def_line s) (cd, pool) = Inr (cd\<lparr>cd_host := s\<rparr>, pool)"
| "update_client_def (Client_db_def_line s) (cd, pool) = Inr (cd\<lparr>cd_db := s\<rparr>, pool)"
| "update_client_def (Client_port_def_line s) (cd, pool) = Inr (cd\<lparr>cd_port := s\<rparr>, pool)"
| "update_client_def (Client_socket_def_line s) (cd, pool) = Inr (cd\<lparr>cd_socket := s\<rparr>, pool)"

section \<open>Table sections\<close>

record table_def =
  td_create_st :: string
  td_min_rows :: string
  td_client :: string
  td_data_file :: string
  td_gen_data_file :: string

definition new_Table_def :: table_def where
  "new_Table_def = \<lparr>td_create_st = '''', td_min_rows = '''', td_client = '''', td_data_file = '''',
     td_gen_data_file = ''''\<rparr>"

datatype table_def_line =
    Table_client_def_line string
  | Table_create_def_line string
  | Table_min_rows_def_line string
  | Table_data_file_def_line string
  | Table_gen_data_file_def_line string

fun update_table_def :: "table_def_line \<Rightarrow> table_def \<Rightarrow> table_def" where
  "update_table_def (Table_client_def_line s) t = t\<lparr>td_client := s\<rparr>"
| "update_table_def (Table_create_def_line s) t = t\<lparr>td_create_st := s\<rparr>"
| "update_table_def (Table_min_rows_def_line s) t = t\<lparr>td_min_rows := s\<rparr>"
| "update_table_def (Table_data_file_def_line s) t = t\<lparr>td_data_file := s\<rparr>"
| "update_table_def (Table_gen_data_file_def_line s) t = t\<lparr>td_gen_data_file := s\<rparr>"

text \<open>
  \<open>validate_table\<close>.  \<open>stat\<close> and \<open>system\<close> are parameters; \<open>stat\<close> and \<open>system\<close> return 0 for success.  The path is
  built in an uninitialised local array.
\<close>

record 'w shell =
  sh_stat :: "string \<Rightarrow> 'w \<Rightarrow> int"
  sh_system :: "string \<Rightarrow> 'w \<Rightarrow> int \<times> 'w"
  sh_datadir :: "string option"
  sh_stack :: string

definition create_table :: "'w db_class \<Rightarrow> 'w shell \<Rightarrow> table_def \<Rightarrow> string \<Rightarrow> 'w \<Rightarrow> 'w result" where
  "create_table db sh td name w =
     bindR (mk_data_path (sh_datadir sh) (c_str (td_data_file td)) (sh_stack sh)) (\<lambda>(_, path).
     bindR (safe_query db (c_str (td_create_st td)) 1 w) (\<lambda>(_, w).
     bindR (read_cstr path) (\<lambda>file.
     let (failed, w) =
       (if sh_stat sh file w \<noteq> 0 then populate_data_file (sh_system sh) file (c_str (td_gen_data_file td)) w
        else (0, w))
     in if failed \<noteq> 0 then die Data_file_error
        else mapR snd (load_table_data db name file w))))"


definition validate_table :: "'w db_class \<Rightarrow> 'w os \<Rightarrow> 'w shell \<Rightarrow> table_def \<Rightarrow> string \<Rightarrow>
    client option smap \<times> 'w \<Rightarrow> (client option smap \<times> 'w) result" where
  "validate_table db os sh td name = (\<lambda>(pool, w).
     let (p, pool) = smap_index (td_client td) pool in
     case p of
       None \<Rightarrow> die Table_client_undefined
     | Some c \<Rightarrow>
         let min_rows_lim = atoi (c_str (td_min_rows td)) in
         bindR (connect db os (c, w)) (\<lambda>(c, w).
         bindR (get_table_info db name w) (\<lambda>((missing, num_rows), w).
         let do_drop = (missing = 0 \<and> num_rows < min_rows_lim);
             do_create = (missing \<noteq> 0 \<or> num_rows < min_rows_lim) in
         bindR (if do_drop then mapR snd (safe_query db (c_str (''drop table '' @ name)) 1 w) else Inr w) (\<lambda>w.
         bindR (if do_create then create_table db sh td name w else Inr w) (\<lambda>w.
         let (c, w) = disconnect db c w in Inr (smap_put (td_client td) (Some c) pool, w))))))"

end
