(* ===== verification/Smack_Parse_Proofs.thy ===== *)
theory Smack_Parse_Proofs
  imports Smack_Parse Smack_Client_Proofs Smack_Dict_Proofs
begin

text \<open>
  The sections of a script: a written query barrel is read back as the charges and sleeps it lists, every
  barrel read is well-formed, sleep times are in range, list dictionaries hold their entries, and a table
  with enough rows is left alone.
\<close>

section \<open>Words of a barrel\<close>

lemma barrel_loop_chars:
  "CHR '' '' \<notin> set w \<Longrightarrow> w \<noteq> [] \<Longrightarrow> barrel_loop (w @ r) l buf s = barrel_loop r False (buf @ w) s"
proof (induction w arbitrary: l buf)
  case (Cons c w)
  then show ?case by (cases w) auto
qed simp

lemma barrel_loop_word:
  assumes "CHR '' '' \<notin> set w" "w \<noteq> []"
  shows "barrel_loop (w @ CHR '' '' # r) True [] s = bindR (barrel_word w s) (barrel_loop r True [])"
  by (subst barrel_loop_chars [OF assms]) simp

lemma barrel_loop_last:
  assumes "CHR '' '' \<notin> set w" "w \<noteq> []"
  shows "barrel_loop w True [] s = barrel_last_word w s"
  using barrel_loop_chars [OF assms, of "[]" True "[]" s] by simp

text \<open>What a barrel lists: a number of shots of a query, or a pause.\<close>

datatype item = Shots int string | Pause string

fun item_words :: "item \<Rightarrow> string list" where
  "item_words (Shots n q) = [dec_int n, q]"
| "item_words (Pause t) = [CHR ''-'' # t]"

definition write_barrel :: "item list \<Rightarrow> string" where
  "write_barrel its = join (CHR '' '') (concat (map item_words its))"

definition word_ok :: "string \<Rightarrow> bool" where
  "word_ok w \<longleftrightarrow> CHR '' '' \<notin> set w \<and> NUL \<notin> set w"

fun item_ok :: "query option smap \<Rightarrow> item \<Rightarrow> bool" where
  "item_ok pool (Shots n q) \<longleftrightarrow> 0 \<le> n \<and> n \<le> INT_MAX \<and> word_ok q \<and> q \<noteq> [] \<and> hd q \<noteq> CHR ''-'' \<and>
     (\<exists>x. smap_find pool q = Some (Some x))"
| "item_ok pool (Pause t) \<longleftrightarrow> word_ok t \<and> is_ok (sleep_time t)"

fun add_item :: "query option smap \<Rightarrow> query_barrel \<Rightarrow> item \<Rightarrow> query_barrel" where
  "add_item pool b (Shots n q) =
     (case smap_find pool q of Some (Some x) \<Rightarrow> add_query_charge x n b | _ \<Rightarrow> b)"
| "add_item pool b (Pause t) =
     (case sleep_time t of Inr (sec, usec) \<Rightarrow> add_sleep_action sec usec b | Inl e \<Rightarrow> b)"

lemma dec_int_word: "0 \<le> n \<Longrightarrow> word_ok (dec_int n) \<and> dec_int n \<noteq> [] \<and> hd (dec_int n) \<noteq> CHR ''-''"
proof -
  assume n: "0 \<le> n"
  have "c \<noteq> CHR '' '' \<and> c \<noteq> NUL" if "c \<in> set (dec (nat n))" for c
  proof -
    have "isdigit c" using that dec_digits [of "nat n"] by (simp add: list_all_iff)
    then show ?thesis using isdigit_no_sign [of c] by (cases "c = CHR '' ''") simp_all
  qed

  moreover have "hd (dec (nat n)) \<noteq> CHR ''-''" using dec_hd isdigit_no_sign by blast
  ultimately show ?thesis using n by (auto simp: dec_int_def word_ok_def)
qed

lemma barrel_word_number:
  assumes "0 \<le> n" "n \<le> INT_MAX" "bp_state s = NUM_SHOTS"
  shows "barrel_word (dec_int n) s = Inr (s\<lparr>bp_shots := n, bp_state := QUERY_NAME\<rparr>)"
proof -
  have "in_int n" using assms by (simp add: int_range_defs)
  then have "atoi (dec_int n) = n" by (rule atoi_dec_int)
  moreover have "c_str (dec_int n) = dec_int n"
    using dec_int_word [OF assms(1)] by (intro c_str_id) (simp add: word_ok_def)
  moreover have "hd (dec_int n) \<noteq> CHR ''-''" using dec_int_word [OF assms(1)] by simp
  ultimately show ?thesis unfolding barrel_word_def assms(3) by simp
qed

lemma push_charge_found:
  "smap_find (bp_pool s) q = Some (Some x) \<Longrightarrow>
   push_charge q s = Inr (s\<lparr>bp_barrel := add_query_charge x (bp_shots s) (bp_barrel s)\<rparr>)"
  by (simp add: push_charge_def smap_index_present)

text \<open>One item and the space after it; one item at the end of the string.\<close>

lemma barrel_item:
  assumes "item_ok pool it" "bp_pool s = pool" "bp_state s = NUM_SHOTS"
  shows "\<exists>s'. barrel_loop (join (CHR '' '') (item_words it) @ CHR '' '' # r) True [] s = barrel_loop r True [] s'
    \<and> bp_barrel s' = add_item pool (bp_barrel s) it \<and> bp_pool s' = pool \<and> bp_state s' = NUM_SHOTS"
proof (cases it)
  case (Shots n q)
  from assms(1) obtain x where q: "0 \<le> n" "n \<le> INT_MAX" "word_ok q" "q \<noteq> []"
    and x: "smap_find pool q = Some (Some x)" by (auto simp: Shots)
  let ?s = "s\<lparr>bp_shots := n, bp_state := QUERY_NAME\<rparr>"
  have "barrel_loop (dec_int n @ CHR '' '' # q @ CHR '' '' # r) True [] s =
      barrel_loop (q @ CHR '' '' # r) True [] ?s"
    using barrel_loop_word [of "dec_int n" "q @ CHR '' '' # r" s] dec_int_word [OF q(1)]
      barrel_word_number [OF q(1,2) assms(3)] by (simp add: word_ok_def)
  also have "\<dots> = bindR (barrel_word q ?s) (barrel_loop r True [])"
    using barrel_loop_word [of q r ?s] q by (simp add: word_ok_def)
  also have "barrel_word q ?s = Inr (s\<lparr>bp_shots := n, bp_barrel := add_query_charge x n (bp_barrel s)\<rparr>)"
    using x q assms(2,3) push_charge_found [of ?s q x] by (simp add: barrel_word_def word_ok_def c_str_id)
  finally have "barrel_loop (dec_int n @ CHR '' '' # q @ CHR '' '' # r) True [] s =
      barrel_loop r True [] (s\<lparr>bp_shots := n, bp_barrel := add_query_charge x n (bp_barrel s)\<rparr>)" by simp
  then show ?thesis using x assms(2,3)
    by (intro exI [of _ "s\<lparr>bp_shots := n, bp_barrel := add_query_charge x n (bp_barrel s)\<rparr>"])
       (simp add: Shots del: barrel_loop.simps)
next
  case (Pause t)
  from assms(1) obtain sec usec where t: "word_ok t" "sleep_time t = Inr (sec, usec)"
    by (auto simp: Pause is_ok_iff)
  have "barrel_word (CHR ''-'' # t) s = Inr (s\<lparr>bp_barrel := add_sleep_action sec usec (bp_barrel s)\<rparr>)"
    using t assms(3) by (simp add: barrel_word_def push_sleep_def word_ok_def c_str_id c_str_Cons)
  then have "barrel_loop ((CHR ''-'' # t) @ CHR '' '' # r) True [] s =
      barrel_loop r True [] (s\<lparr>bp_barrel := add_sleep_action sec usec (bp_barrel s)\<rparr>)"
    using barrel_loop_word [of "CHR ''-'' # t" r s] t by (simp add: word_ok_def)
  then show ?thesis using t assms(2,3)
    by (intro exI [of _ "s\<lparr>bp_barrel := add_sleep_action sec usec (bp_barrel s)\<rparr>"])
       (simp add: Pause del: barrel_loop.simps)
qed

lemma barrel_item_last:
  assumes "item_ok pool it" "bp_pool s = pool" "bp_state s = NUM_SHOTS"
  shows "\<exists>s'. barrel_loop (join (CHR '' '') (item_words it)) True [] s = Inr s'
    \<and> bp_barrel s' = add_item pool (bp_barrel s) it \<and> bp_pool s' = pool"
proof (cases it)
  case (Shots n q)
  from assms(1) obtain x where q: "0 \<le> n" "n \<le> INT_MAX" "word_ok q" "q \<noteq> []" "hd q \<noteq> CHR ''-''"
    and x: "smap_find pool q = Some (Some x)" by (auto simp: Shots)
  let ?s = "s\<lparr>bp_shots := n, bp_state := QUERY_NAME\<rparr>"
  have "barrel_loop (dec_int n @ CHR '' '' # q) True [] s = barrel_loop q True [] ?s"
    using barrel_loop_word [of "dec_int n" q s] dec_int_word [OF q(1)]
      barrel_word_number [OF q(1,2) assms(3)] by (simp add: word_ok_def)
  also have "\<dots> = barrel_last_word q ?s"
    using barrel_loop_last [of q ?s] q by (simp add: word_ok_def)
  also have "\<dots> = Inr (?s\<lparr>bp_barrel := add_query_charge x n (bp_barrel s)\<rparr>)"
    using x q assms(2,3) push_charge_found [of ?s q x] by (simp add: barrel_last_word_def word_ok_def c_str_id)
  finally show ?thesis using x assms(2) by (simp add: Shots del: barrel_loop.simps)
next
  case (Pause t)
  from assms(1) obtain sec usec where t: "word_ok t" "sleep_time t = Inr (sec, usec)"
    by (auto simp: Pause is_ok_iff)
  have "barrel_loop (CHR ''-'' # t) True [] s =
      Inr (s\<lparr>bp_barrel := add_sleep_action sec usec (bp_barrel s)\<rparr>)"
    using barrel_loop_last [of "CHR ''-'' # t" s] t
    by (simp add: barrel_last_word_def push_sleep_def word_ok_def c_str_id c_str_Cons)
  then show ?thesis using t assms(2) by (simp add: Pause del: barrel_loop.simps)

qed

lemma write_barrel_Cons:
  "its \<noteq> [] \<Longrightarrow> write_barrel (it # its) = join (CHR '' '') (item_words it) @ CHR '' '' # write_barrel its"
proof -
  assume "its \<noteq> []"
  then obtain w ws where "concat (map item_words its) = w # ws"
    by (cases its; cases "hd its") auto
  then show ?thesis by (cases it) (simp_all add: write_barrel_def)
qed

lemma barrel_loop_items:
  assumes "its \<noteq> []" "\<forall>it \<in> set its. item_ok pool it" "bp_pool s = pool" "bp_state s = NUM_SHOTS"
  shows "\<exists>s'. barrel_loop (write_barrel its) True [] s = Inr s'
    \<and> bp_barrel s' = foldl (add_item pool) (bp_barrel s) its \<and> bp_pool s' = pool"
  using assms
proof (induction its arbitrary: s)
  case (Cons it its)
  show ?case
  proof (cases "its = []")
    case True
    with Cons.prems barrel_item_last [of pool it s] show ?thesis by (simp add: write_barrel_def)
  next
    case False
    from Cons.prems barrel_item [of pool it s "write_barrel its"] obtain s1 where
      s1: "barrel_loop (write_barrel (it # its)) True [] s = barrel_loop (write_barrel its) True [] s1"
        "bp_barrel s1 = add_item pool (bp_barrel s) it" "bp_pool s1 = pool" "bp_state s1 = NUM_SHOTS"
      unfolding write_barrel_Cons [OF False] by auto
    from Cons.IH [OF False _ s1(3,4)] Cons.prems(2) show ?thesis by (simp add: s1(1,2))
  qed
qed simp

lemma barrel_written:
  assumes "its \<noteq> []" "\<forall>it \<in> set its. item_ok pool it"
  shows "parse_barrel pool (write_barrel its) = Inr (foldl (add_item pool) new_Query_barrel its, pool)"
proof -
  let ?s = "\<lparr>bp_state = NUM_SHOTS, bp_shots = 0, bp_barrel = new_Query_barrel, bp_pool = pool\<rparr>"
  from barrel_loop_items [OF assms, of ?s] obtain s' where
    "barrel_loop (write_barrel its) True [] ?s = Inr s'"
    "bp_barrel s' = foldl (add_item pool) new_Query_barrel its" "bp_pool s' = pool" by auto
  then show ?thesis by (simp add: parse_barrel_def)
qed

text \<open>
  C20: a query barrel is read as written.  For a list of shot counts with defined queries and pauses,
  written with single spaces, the parser builds exactly those actions in that order, with the reports of
  their types, and leaves the pool of queries as it was; the last item, which is handled by other code, is
  no exception.
\<close>

theorem barrel_round_trip:
  assumes "its \<noteq> []" "\<forall>it \<in> set its. item_ok pool it"
  shows "parse_barrel pool (write_barrel its) = Inr (foldl (add_item pool) new_Query_barrel its, pool)"
  by (rule barrel_written [OF assms])

theorem barrel_round_trip_witness:
  "parse_barrel [(''q'', Some example_query)] ''2 q 7 q'' =
     Inr (add_query_charge example_query 7 (add_query_charge example_query 2 new_Query_barrel),
          [(''q'', Some example_query)])"
proof -
  have "write_barrel [Shots 2 ''q'', Shots 7 ''q''] = ''2 q 7 q''"
    by (simp add: write_barrel_def dec_int_def dec.simps digit_char_def char_of_def bit_iff_odd)
  with barrel_round_trip [of "[Shots 2 ''q'', Shots 7 ''q'']" "[(''q'', Some example_query)]"]
  show ?thesis by (simp add: INT_MAX_def word_ok_def smap_find_def)
qed

section \<open>Every barrel is well-formed\<close>

text \<open>
  The queries of a pool all have a property, and a property of barrels that holds of the empty one and is kept
  by adding such queries and pauses: whatever the parser makes of a string then has it.
\<close>

definition pool_all :: "(query \<Rightarrow> bool) \<Rightarrow> query option smap \<Rightarrow> bool" where
  "pool_all good pool \<longleftrightarrow> smap_ok pool \<and> (\<forall>k q. smap_find pool k = Some (Some q) \<longrightarrow> good q)"

definition parser_has :: "(query \<Rightarrow> bool) \<Rightarrow> (query_barrel \<Rightarrow> bool) \<Rightarrow> barrel_parser \<Rightarrow> bool" where
  "parser_has good keeps s \<longleftrightarrow> keeps (bp_barrel s) \<and> pool_all good (bp_pool s)"

lemma parser_has_state [simp]:
  "parser_has good keeps (s\<lparr>bp_state := st\<rparr>) = parser_has good keeps s"
  "parser_has good keeps (s\<lparr>bp_shots := n\<rparr>) = parser_has good keeps s"
  by (simp_all add: parser_has_def)

locale barrel_invariant =
  fixes good :: "query \<Rightarrow> bool" and keeps :: "query_barrel \<Rightarrow> bool"
  assumes empty_barrel: "keeps new_Query_barrel"
    and charge: "keeps b \<Longrightarrow> good q \<Longrightarrow> keeps (add_query_charge q n b)"
    and pause: "keeps b \<Longrightarrow> keeps (add_sleep_action s u b)"
begin


abbreviation parser_ok :: "barrel_parser \<Rightarrow> bool" where
  "parser_ok \<equiv> parser_has good keeps"

lemma push_charge_ok: "parser_ok s \<Longrightarrow> push_charge w s = Inr s' \<Longrightarrow> parser_ok s'"
  by (auto simp: push_charge_def parser_has_def pool_all_def smap_index_def charge split: option.splits)

lemma push_sleep_ok: "parser_ok s \<Longrightarrow> push_sleep t s = Inr s' \<Longrightarrow> parser_ok s'"
  by (auto simp: push_sleep_def parser_has_def mapR_eq_Inr pause)

lemma barrel_word_ok: "parser_ok s \<Longrightarrow> barrel_word w s = Inr s' \<Longrightarrow> parser_ok s'"
  by (auto simp: barrel_word_def mapR_eq_Inr dest: push_charge_ok push_sleep_ok
      split: parse_state.splits if_splits)

lemma barrel_loop_ok: "parser_ok s \<Longrightarrow> barrel_loop cs l buf s = Inr s' \<Longrightarrow> parser_ok s'"
proof (induction cs l buf s rule: barrel_loop.induct)
  case (1 l buf s)
  then show ?case
    by (auto simp: barrel_last_word_def dest: push_charge_ok push_sleep_ok split: if_splits)
next
  case (2 c cs l buf s)
  then show ?case
    by (auto simp: bindR_eq_Inr dest: barrel_word_ok split: if_splits)
qed

lemma parsed:
  assumes "pool_all good pool" and "parse_barrel pool str = Inr (b, pool')"
  shows "keeps b \<and> pool_all good pool'"
proof -
  let ?s = "\<lparr>bp_state = NUM_SHOTS, bp_shots = 0, bp_barrel = new_Query_barrel, bp_pool = pool\<rparr>"
  have "parser_ok ?s" using assms(1) by (simp add: parser_has_def empty_barrel)
  with assms(2) barrel_loop_ok [of ?s str True "[]"] show ?thesis
    by (auto simp: parse_barrel_def mapR_eq_Inr parser_has_def)
qed

lemma client_lines
:
  assumes "pool_all good pool" "case cd_qb cd of None \<Rightarrow> True | Some b \<Rightarrow> keeps b"
    and "foldR update_client_def ls (cd, pool) = Inr (cd', pool')"
  shows "pool_all good pool' \<and> (case cd_qb cd' of None \<Rightarrow> True | Some b \<Rightarrow> keeps b)"
  using assms
proof (induction ls arbitrary: cd pool)
  case (Cons l ls)
  from Cons.prems(3) obtain cd1 pool1 where 1: "update_client_def l (cd, pool) = Inr (cd1, pool1)"
      "foldR update_client_def ls (cd1, pool1) = Inr (cd', pool')"
    by (auto simp: bindR_eq_Inr)
  from 1(1) Cons.prems(1,2) have "pool_all good pool1 \<and> (case cd_qb cd1 of None \<Rightarrow> True | Some b \<Rightarrow> keeps b)"
    by (cases l) (auto simp: mapR_eq_Inr dest: parsed)
  with Cons.IH 1(2) show ?case by blast
qed simp

end

definition pool_ok :: "query option smap \<Rightarrow> bool" where
  "pool_ok pool \<longleftrightarrow> smap_ok pool \<and> (\<forall>k q. smap_find pool k = Some (Some q) \<longrightarrow> NUL \<notin> set (type_name q))"

lemma pool_ok_all: "pool_ok = pool_all (\<lambda>q. NUL \<notin> set (type_name q))"
  by (simp add: fun_eq_iff pool_ok_def pool_all_def)

interpretation typed_barrel: barrel_invariant "\<lambda>q. NUL \<notin> set (type_name q)" barrel_ok
  by unfold_locales (simp_all add: barrel_ok_new barrel_ok_charge barrel_ok_sleep)

text \<open>
  C23: Every barrel a script can define is well-formed, whatever the string: each of its charges has a
  report of its type, no report is NULL, so firing it always finds the report to update and printing the
  report never dies on an internal error.
\<close>

theorem parsed_barrel_ok:
  assumes "pool_ok pool" and "parse_barrel pool str = Inr (b, pool')"
  shows "barrel_ok b \<and> pool_ok pool'"
  using typed_barrel.parsed [OF assms [unfolded pool_ok_all]] by (simp add: pool_ok_all)

theorem parsed_barrel_ok_witness:
  "\<exists>b pool'. parse_barrel [(''q'', Some example_query)] ''q'' = Inr (b, pool') \<and> barrel_ok b \<and> pool_ok pool'"
proof -
  have ok: "pool_ok [(''q'', Some example_query)]"
    by (simp add: pool_ok_def smap_ok_def smap_find_def example_query_def)
  have "\<exists>b pool'. parse_barrel [(''q'', Some example_query)] ''q'' = Inr (b, pool')"
    by (simp add: parse_barrel_def barrel_last_word_def push_charge_def smap_index_def smap_find_def c_str_def)
  with parsed_barrel_ok [OF ok] show ?thesis by blast
qed

section \<open>Sleep times\<close>

lemma is_base_digit_10: "is_base_digit 10 = isdigit"
  by (simp add: is_base_digit_def fun_eq_iff)

lemma base_value_digits: "list_all isdigit s \<Longrightarrow> foldl (\<lambda>a c. 10 * a + base_digit c) n s = digits_from n s"
  by (induction s arbitrary: n) (simp_all add: base_digit_def)

lemma sleep_whole_seconds:
  assumes "n < 16777216"
  shows "sleep_time (dec n) = Inr (int n, 0)"
proof -
  obtain c cs where dec: "dec n = c # cs" by (cases "dec n") auto
  have all: "list_all isdigit (dec n)" by (rule dec_digits)
  then have c: "isdigit c" by (simp add: dec)
  have sp: "\<not> isspace c" "c \<noteq> CHR ''-''" "c \<noteq> CHR ''+''" "c \<noteq> NUL"
    using isspace_not_digit [OF c] isdigit_no_sign [OF c] by blast+
  have nul: "NUL \<notin> set (dec n)" using all isdigit_no_sign by (auto simp: list_all_iff)
  have low: "tolower c = c" using c by (auto simp: tolower_def isupper_def isdigit_def Let_def)
  have ci: "c \<noteq> CHR ''i''" "c \<noteq> CHR ''n''" using c by (auto simp: isdigit_def)
  have hex: "\<not> starts_hex (dec n)"
  proof -
    have "tolower b \<noteq> CHR ''x''" if "b \<in> set (dec n)" for b
      using that all by (fastforce simp: list_all_iff tolower_def isupper_def isdigit_def Let_def)

    then show ?thesis by (auto simp: starts_hex_def dec split: list.splits)
  qed
  have tw: "takeWhile isdigit (dec n) = dec n" "dropWhile isdigit (dec n) = []"
    using all by (auto simp: list_all_iff)
  have "base_value 10 (dec n) = n"
    using base_value_digits [OF all, of 0] by (simp add: base_value_def digits_from_dec)
  then have scan: "scan_float 10 (CHR ''e'') 10 (dec n) = of_nat n"
    unfolding scan_float_def is_base_digit_10 tw Let_def by (simp add: exponent_def)
  have "to_double (of_nat n) = (of_nat n :: rat)" "to_float (of_nat n) = (of_nat n :: rat)"
    using assms fl_int [of "int n" 53 "- 1074"] fl_int [of "int n" 24 "- 149"] by simp_all
  moreover have "atof (dec n) = Fin (to_double (of_nat n))"
  proof -
    have cs: "c_str (c # cs) = c # cs" using c_str_id [OF nul] by (simp add: dec)
    have dw: "dropWhile isspace (c # cs) = c # cs" using sp by simp
    show ?thesis
      using sp low ci hex scan unfolding atof_def dec cs dw Let_def by simp
  qed

  ultimately have "atof (dec n) = Fin (of_nat n)" "to_float (of_nat n) = (of_nat n :: rat)" by simp_all
  then show ?thesis using assms by (simp add: sleep_time_def int_range_defs fl_def)
qed

text \<open>
  A sleep time is well-formed, whatever the text: when the parser accepts it the seconds are an
  \<open>int\<close> and the microseconds lie between 0 and 1000000, also for negative and huge numbers; the seconds
  are negative when the text is a negative number, which \<open>sleep\<close> then takes for a very long time.
\<close>

lemma sleep_time_bounds:
  assumes "sleep_time t = Inr (sec, usec)"
  shows "in_int sec \<and> 0 \<le> usec \<and> usec \<le> 1000000"
proof -
  obtain d where d: "atof t = Fin d"
    using assms by (cases "atof t") (simp_all add: sleep_time_def)
  let ?sl = "to_float d"
  let ?fr = "to_float (?sl - of_int \<lfloor>?sl\<rfloor>)"
  have sec: "in_int sec" "usec = \<lfloor>to_float (?fr * 1000000)\<rfloor>"
    using assms by (auto simp: sleep_time_def d Let_def split: if_splits)
  have fr: "0 \<le> ?sl - of_int \<lfloor>?sl\<rfloor>" "?sl - of_int \<lfloor>?sl\<rfloor> \<le> of_int 1"
    using floor_correct [of ?sl] by linarith+
  have fr0: "0 \<le> ?fr" by (rule fl_nonneg [OF fr(1)])
  have fr1: "?fr \<le> 1" using fl_le_int [OF fr, of 24 "- 149"] by simp
  have "0 \<le> to_float (?fr * 1000000)" using fr0 by (intro fl_nonneg) simp
  moreover have "to_float (?fr * 1000000) \<le> of_int 1000000"
    using fr0 fr1 by (intro fl_le_int) simp_all
  ultimately show ?thesis using sec by (simp add: floor_le_iff)
qed

text \<open>
  A pause of whole seconds is that many seconds: for every number that fits the 24 bits of a
  \<open>float\<close>, written in decimal, the seconds are the number and the microseconds are 0.
\<close>

lemma sleep_time_whole:
  assumes "n < 16777216"
  shows "sleep_time (dec n) = Inr (int n, 0)"
  by (rule sleep_whole_seconds [OF assms])

section \<open>Dictionary sections\<close>

lemma words_listed:
  assumes "ws \<noteq> []" "\<forall>w \<in> set ws. CHR '','' \<notin> set w \<and> NUL \<notin> set w"
  shows "words (load_list (c_str (join (CHR '','') ws)) d) = words d @ butlast ws"
proof -
  have "c_str (join (CHR '','') ws) = join (CHR '','') ws"
    by (intro c_str_id not_in_join) (use assms(2) in auto)
  with load_list_joined [OF assms] show ?thesis by simp
qed

text \<open>
  A dictionary listed in the script is usable.  A section of type \<open>rand\<close> or \<open>seq\<close> whose source is a
  list of entries, joined by commas, builds a dictionary whose words are the entries but the last, ready
  to give out words when there are at least two entries.
\<close>

lemma make_dict_list:
  assumes "dd_source_type dd = ''list''" "dd_source dd = join (CHR '','') ws" "2 \<le> length ws"
    and "\<forall>w \<in> set ws. CHR '','' \<notin> set w \<and> NUL \<notin> set w"
    and "dd_dict_type dd \<in> {''rand'', ''seq''}"
  shows "\<exists>d. make_dict h dd = Inr d \<and> dict_ready (d, g) \<and> dict_vocab (d, g) = set (butlast ws)"
proof -
  have ws: "ws \<noteq> []" and ne: "butlast ws \<noteq> []"
    using assms(3) by (cases ws rule: rev_cases; auto)+
  note ld = words_listed [OF ws assms(4), folded assms(2)]
  show ?thesis
  proof (cases "dd_dict_type dd = ''rand''")
    case True
    then show ?thesis using ne assms(1)
      by (simp add: make_dict_def fill_dict_def dict_ready_def dict_vocab_def ld Let_def
          new_Rand_dictionary_def new_Dictionary_def)
  next
    case False
    with assms(5) have t: "dd_dict_type dd = ''seq''" by simp
    have keep: "cur_word_ind (load_list s d) = cur_word_ind d" for s and d :: seq_dictionary
      by (simp add: load_list_def)
    show ?thesis using ne assms(1,3) t

      by (simp add: make_dict_def fill_dict_def dict_ready_def dict_vocab_def seq_ready_def ld keep Let_def
          new_Seq_dictionary_def new_Dictionary_def dictionary.defs)
  qed
qed

section \<open>Table sections\<close>

text \<open>
  Validating a table changes the database only when it has to.  With a client that is defined and
  connects: a table with at least the required rows is left alone; a table with too few is dropped,
  created and loaded; a table that does not exist is created and loaded without a drop.
\<close>

lemma validate_table_decides:
  assumes "smap_find pool (td_client td) = Some (Some c)"
    and "connect db os (c, w) = Inr (c1, w1)" and "get_table_info db name w1 = Inr ((missing, rows), w2)"
  shows "validate_table db os sh td name (pool, w) =
    mapR (\<lambda>w. let (c, w) = disconnect db c1 w in (smap_put (td_client td) (Some c) pool, w))
      (if missing \<noteq> 0 then create_table db sh td name w2
       else if atoi (c_str (td_min_rows td)) \<le> rows then Inr w2
       else bindR (safe_query db (c_str (''drop table '' @ name)) 1 w2) (\<lambda>(_, w). create_table db sh td name w))"
proof -
  have fin: "bindR m (\<lambda>w. case disconnect db c1 w of (c, w) \<Rightarrow> Inr (f c, w)) =
      mapR (\<lambda>w. case disconnect db c1 w of (c, w) \<Rightarrow> (f c, w)) m" for m and f :: "client \<Rightarrow> 'x"
    by (cases m) (simp_all split: prod.splits)
  show ?thesis
  proof (cases "missing = 0 \<and> rows < atoi (c_str (td_min_rows td))")
    case True
    then show ?thesis
      by (cases "safe_query db (c_str (''drop table '' @ name)) 1 w2")
         (auto simp: validate_table_def smap_index_present [OF assms(1)] assms(2,3) fin)
  next
    case False
    then show ?thesis
      by (auto simp: validate_table_def smap_index_present [OF assms(1)] assms(2,3) fin)
  qed
qed

definition example_shell :: "(nat \<times> string list) shell" where
  "example_shell = \<lparr>sh_stat = \<lambda>p w. 0, sh_system = \<lambda>s w. (0, w), sh_datadir = None, sh_stack = []\<rparr>"

end
