(* ===== verification/Smack_GenData.thy ===== *)
theory Smack_GenData
  imports Smack_Num
begin

text \<open>
  \<^verbatim>\<open>src/gen-data.cc\<close>: the generator of data files.  The globals \<open>out\<close> (what has been written),
  \<open>row_num\<close> and the state of \<open>rand()\<close> are threaded as a record; the format is interpreted character by
  character as in \<open>print_row\<close>.  The lemmas bound the random values and widths, and show what the rows
  hold.
\<close>

section \<open>The program\<close>

definition MAX_STR_WIDTH :: int where "MAX_STR_WIDTH = 256"

record 'g gen =
  out :: string
  row_num :: int
  rng :: 'g

definition fputc :: "char \<Rightarrow> 'g gen \<Rightarrow> 'g gen" where
  "fputc c s = s\<lparr>out := out s @ [c]\<rparr>"

definition rand_int :: "('g \<Rightarrow> nat \<times> 'g) \<Rightarrow> 'g gen \<Rightarrow> int \<times> 'g gen" where
  "rand_int rand s = (let (r, g) = rand (rng s) in (int r, s\<lparr>rng := g\<rparr>))"

definition get_rand :: "('g \<Rightarrow> nat \<times> 'g) \<Rightarrow> int \<Rightarrow> int \<Rightarrow> 'g gen \<Rightarrow> (int \<times> 'g gen) result" where
  "get_rand rand min_r max_r s =
     (if min_r = max_r then Inr (min_r, s)
      else
        let (r, s) = rand_int rand s
        in bindR (chk (max_r - min_r)) (\<lambda>m. mapR (\<lambda>v. (v, s)) (chk (min_r + r smod m))))"

definition get_width :: "('g \<Rightarrow> nat \<times> 'g) \<Rightarrow> int \<Rightarrow> int \<Rightarrow> 'g gen \<Rightarrow> (int \<times> 'g gen) result" where
  "get_width rand min_width max_width s =
     (if max_width = 0 then Inr (min_width, s)
      else if min_width \<noteq> max_width then get_rand rand min_width max_width s
      else Inr (min_width, s))"

definition print_row_num :: "('g \<Rightarrow> nat \<times> 'g) \<Rightarrow> int \<Rightarrow> int \<Rightarrow> 'g gen \<Rightarrow> 'g gen result" where
  "print_row_num rand min_width max_width s =
     mapR (\<lambda>(width, s). s\<lparr>out := out s @ star_d width (row_num s)\<rparr>) (get_width rand min_width max_width s)"

definition print_num :: "('g \<Rightarrow> nat \<times> 'g) \<Rightarrow> int \<Rightarrow> int \<Rightarrow> 'g gen \<Rightarrow> 'g gen result" where
  "print_num rand min_width max_width s =
     mapR (\<lambda>(width, s). let (r, s) = rand_int rand s in s\<lparr>out := out s @ star_d width r\<rparr>)
       (get_width rand min_width max_width s)"

text \<open>\<open>fputc('a' + get_rand(0, 'z' - 'a'), out)\<close>\<close>

definition put_letter :: "('g \<Rightarrow> nat \<times> 'g) \<Rightarrow> 'g gen \<Rightarrow> 'g gen result" where
  "put_letter rand s = mapR (\<lambda>(v, s). fputc (char_of (nat (97 + v))) s) (get_rand rand 0 25 s)"

definition print_str :: "('g \<Rightarrow> nat \<times> 'g) \<Rightarrow> int \<Rightarrow> int \<Rightarrow> 'g gen \<Rightarrow> 'g gen result" where
  "print_str rand min_width max_width s =
     bindR (get_width rand min_width max_width s) (\<lambda>(width, s).
       let width = (if width > MAX_STR_WIDTH \<or> width = 0 then MAX_STR_WIDTH else width)
       in repeatR (nat width) (put_letter rand) s)"

text \<open>The loop of \<open>print_row\<close>: \<open>parse_state\<close>, \<open>min_width\<close> and \<open>width\<close>.\<close>

datatype fmt_state = ST_FMT | ST_PLAIN

fun row_loop :: "('g \<Rightarrow> nat \<times> 'g) \<Rightarrow> string \<Rightarrow> fmt_state \<Rightarrow> int \<Rightarrow> int \<Rightarrow> 'g gen \<Rightarrow> 'g gen result" where
  "row_loop rand [] st min_width width s = Inr s"
| "row_loop rand (c # cs) ST_PLAIN min_width width s =
     (if c \<noteq> CHR ''%'' then row_loop rand cs ST_PLAIN min_width width (fputc c s)
      else row_loop rand cs ST_FMT 0 0 s)"
| "row_loop rand (c # cs) ST_FMT min_width width s =
     (if c = CHR ''%'' then row_loop rand cs ST_PLAIN min_width width (fputc c s)
      else if c = CHR ''-'' then row_loop rand cs ST_FMT width 0 s
      else if c = CHR ''s'' then
        bindR (print_str rand min_width width s) (row_loop rand cs ST_PLAIN min_width width)
      else if c = CHR ''n'' then
        bindR (print_row_num rand min_width width s) (row_loop rand cs ST_PLAIN min_width width)
      else if c = CHR ''d'' then
        bindR (print_num rand min_width width s) (row_loop rand cs ST_PLAIN min_width width)
      else if isdigit c then
        bindR (chk (width * 10)) (\<lambda>w.
        bindR (chk (w + of_char c)) (\<lambda>w. row_loop rand cs ST_FMT min_width (w - 48) s))
      else die (Invalid_format_char c))"

definition print_row :: "('g \<Rightarrow> nat \<times> 'g) \<Rightarrow> string \<Rightarrow> 'g gen \<Rightarrow> 'g gen result" where
  "print_row rand fmt s =
     bindR (row_loop rand fmt ST_PLAIN 0 0 s) (\<lambda>s.
       mapR (\<lambda>n. (fputc (CHR 0x0A) s)\<lparr>row_num := n\<rparr>) (chk (row_num s + 1)))"

text \<open>
  \<open>parse_args\<close>: \<open>getopt_long\<close> is the list of options it returns, each with its argument.  The entry
  \<open>help\<close> of the long options returns the character \<open>h\<close>.
\<close>

fun parse_args :: "(char \<times> string) list \<Rightarrow> int \<Rightarrow> string option \<Rightarrow> (int \<times> string) result" where
  "parse_args [] num_rows fmt =
     (case fmt of
        None \<Rightarrow> die Rows_or_format_missing
      | Some f \<Rightarrow> if num_rows = 0 then die Rows_or_format_missing else Inr (num_rows, c_str f))"
| "parse_args ((c, optarg) # opts) num_rows fmt =
     (if c = CHR ''?'' then Inl (Exited 0)
      else if c = CHR ''V'' then Inl (Exited 0)
      else if c = CHR ''f'' then parse_args opts num_rows (Some optarg)
      else if c = CHR ''n'' then parse_args opts (atoi optarg) fmt
      else Inl (Exited 1))"

definition gen_main :: "('g \<Rightarrow> nat \<times> 'g) \<Rightarrow> (char \<times> string) list \<Rightarrow> 'g \<Rightarrow> string result" where
  "gen_main rand opts g =
     bindR (parse_args opts 0 None) (\<lambda>(num_rows, fmt).
       mapR out (repeatR (nat num_rows) (print_row rand fmt) \<lparr>out = '''', row_num = 1, rng = g\<rparr>))"

section \<open>Random values\<close>

lemma rand_int_eq: "rand_int rand s = (int (fst (rand (rng s))), s\<lparr>rng := snd (rand (rng s))\<rparr>)"
  by (simp add: rand_int_def split: prod.splits)

lemma smod_range: "0 \<le> r \<Longrightarrow> 0 < m \<Longrightarrow> 0 \<le> (r::int) smod m \<and> r smod m < m"
  by (simp add: smod_nonneg)

lemma get_rand_ok:
  assumes "min_r < max_r" "in_int min_r" "in_int max_r" "in_int (max_r - min_r)"
  shows "get_rand rand min_r max_r s =
      Inr (min_r + int (fst (rand (rng s))) mod (max_r - min_r), s\<lparr>rng := snd (rand (rng s))\<rparr>)"
    and "0 \<le> int (fst (rand (rng s))) mod (max_r - min_r)"
    and "int (fst (rand (rng s))) mod (max_r - min_r) < max_r - min_r"
proof -
  let ?m = "max_r - min_r" and ?r = "int (fst (rand (rng s)))"
  show m: "0 \<le> ?r mod ?m" "?r mod ?m < ?m" using assms(1) by simp_all
  then have "in_int (min_r + ?r mod ?m)" using assms(2,3) unfolding int_range_defs by linarith
  then show "get_rand rand min_r max_r s = Inr (min_r + ?r mod ?m, s\<lparr>rng := snd (rand (rng s))\<rparr>)"
    using assms by (simp add: get_rand_def rand_int_eq smod_nonneg)
qed

text \<open>
  C29: \<open>get_rand(min, max)\<close> never returns \<open>max\<close>.  For \<open>min < max\<close> the values it returns, over all
  generators, are exactly those from \<open>min\<close> to \<open>max - 1\<close>: the upper bound of a width \<open>m-n\<close> and the letter z
  are never produced.
\<close>

lemma get_rand_half_open:
  assumes "min_r < max_r" "in_int min_r" "in_int max_r" "in_int (max_r - min_r)"
  shows "{v. \<exists>rand s'. get_rand rand min_r max_r s = Inr (v, s')} = {min_r..<max_r}"
proof (intro set_eqI iffI)
  fix v assume "v \<in> {v. \<exists>rand s'. get_rand rand min_r max_r s = Inr (v, s')}"
  then obtain rand s' where "get_rand rand min_r max_r s = Inr (v, s')" by blast
  with get_rand_ok [OF assms, of rand s] show "v \<in> {min_r..<max_r}" by simp
next
  fix v assume v: "v \<in> {min_r..<max_r}"
  have "get_rand (\<lambda>g. (nat (v - min_r), g)) min_r max_r s = Inr (v, s)"
    using get_rand_ok(1) [OF assms, of "\<lambda>g. (nat (v - min_r), g)" s] v by simp
  then show "v \<in> {v. \<exists>rand s'. get_rand rand min_r max_r s = Inr (v, s')}" by blast
qed

definition letters :: "string" where
  "letters = map (\<lambda>i. char_of (97 + i)) [0..<25]"

lemma put_letter_ok:
  "\<exists>c \<in> set letters. put_letter rand s = Inr (s\<lparr>out := out s @ [c], rng := snd (rand (rng s))\<rparr>)"
proof -
  let ?v = "fst (rand (rng s)) mod 25"
  have "in_int 0" "in_int 25" by (simp_all add: int_range_defs)
  from get_rand_ok(1) [of 0 25 rand s] this
  have "get_rand rand 0 25 s = Inr (int ?v, s\<lparr>rng := snd (rand (rng s))\<rparr>)"
    by (simp add: zmod_int)
  then have "put_letter rand s = Inr (s\<lparr>out := out s @ [char_of (97 + ?v)], rng := snd (rand (rng s))\<rparr>)"
    by (simp add: put_letter_def fputc_def nat_add_distrib)
  moreover have "char_of (97 + ?v) \<in> set letters" by (auto simp: letters_def)
  ultimately show ?thesis by blast
qed

lemma put_letters:
  "\<exists>w g. repeatR n (put_letter rand) s = Inr (s\<lparr>out := out s @ w, rng := g\<rparr>)
    \<and> length w = n \<and> set w \<subseteq> set letters"
proof (induction n arbitrary: s)
  case 0
  show ?case by (intro exI [of _ "[]"] exI [of _ "rng s"]) simp
next
  case (Suc n)
  obtain c where c: "c \<in> set letters"
    and p: "put_letter rand s = Inr (s\<lparr>out := out s @ [c], rng := snd (rand (rng s))\<rparr>)"
    using put_letter_ok by blast
  from Suc.IH [of "s\<lparr>out := out s @ [c], rng := snd (rand (rng s))\<rparr>"]
  obtain w g where "repeatR n (put_letter rand) (s\<lparr>out := out s @ [c], rng := snd (rand (rng s))\<rparr>) =
      Inr (s\<lparr>out := out s @ c # w, rng := g\<rparr>)" "length w = n" "set w \<subseteq> set letters"
    by auto
  with c p show ?case by (intro exI [of _ "c # w"] exI [of _ g]) simp
qed

text \<open>
  The field \<open>%m-ns\<close> is a string of \<open>m\<close> to \<open>n - 1\<close> letters from a to y.  For \<open>0 \<le> m < n \<le> 256\<close> and
  every generator the field is printed, its length is at least \<open>m\<close> and less than \<open>n\<close>, except that a
  chosen length of 0 becomes 256; in particular \<open>%ns\<close>, which is \<open>m = 0\<close>, never prints the \<open>n\<close> characters
  the usage text announces.
\<close>

lemma str_field:
  assumes "0 \<le> m" "m < n" "n \<le> 256"
  shows "\<exists>w g. print_str rand m n s = Inr (s\<lparr>out := out s @ w, rng := g\<rparr>) \<and> set w \<subseteq> set letters
    \<and> (if length w = 256 then m = 0 else m \<le> int (length w) \<and> int (length w) < n)"
proof -
  have rng: "in_int m" "in_int n" "in_int (n - m)" using assms by (simp_all add: int_range_defs)
  let ?v = "m + int (fst (rand (rng s))) mod (n - m)" and ?s = "s\<lparr>rng := snd (rand (rng s))\<rparr>"
  let ?w = "if ?v > MAX_STR_WIDTH \<or> ?v = 0 then MAX_STR_WIDTH else ?v"
  note gr = get_rand_ok [OF assms(2) rng, of rand s]
  have "get_width rand m n s = Inr (?v, ?s)" using assms gr(1) by (simp add: get_width_def)
  then have pr: "print_str rand m n s = repeatR (nat ?w) (put_letter rand) ?s"
    by (simp add: print_str_def Let_def)
  from put_letters [of "nat ?w" rand ?s] obtain w g where
    w: "repeatR (nat ?w) (put_letter rand) ?s = Inr (s\<lparr>out := out s @ w, rng := g\<rparr>)"
      "length w = nat ?w" "set w \<subseteq> set letters" by auto
  have "int (length w) = (if ?v = 0 then 256 else ?v)"
    using w(2) gr(2,3) assms by (auto simp: MAX_STR_WIDTH_def)
  moreover have "m \<le> ?v" "?v < n" using gr(2,3) by simp_all
  ultimately have "if length w = 256 then m = 0 else m \<le> int (length w) \<and> int (length w) < n"
    using assms by (cases "?v = 0") (simp_all, linarith?)
  with pr w(1,3) show ?thesis by auto
qed

section \<open>Rows\<close>

lemma row_loop_plain:
  "CHR ''%'' \<notin> set p \<Longrightarrow> row_loop rand (p @ r) ST_PLAIN a b s = row_loop rand r ST_PLAIN a b (s\<lparr>out := out s @ p\<rparr>)"
  by (induction p arbitrary: s) (auto simp: fputc_def)

lemma print_row_numbered:
  assumes "CHR ''%'' \<notin> set p" "CHR ''%'' \<notin> set q" "in_int (row_num s + 1)"
  shows "print_row rand (p @ ''%n'' @ q) s =
    Inr (s\<lparr>out := out s @ p @ dec_int (row_num s) @ q @ [CHR 0x0A], row_num := row_num s + 1\<rparr>)"
proof -
  have "star_d 0 i = dec_int i" for i by (simp add: star_d_def pad_int_def)
  then have "row_loop rand (p @ ''%n'' @ q) ST_PLAIN 0 0 s =
      row_loop rand (q @ []) ST_PLAIN 0 0 (s\<lparr>out := out s @ p @ dec_int (row_num s)\<rparr>)"
    by (simp add: row_loop_plain [OF assms(1)] print_row_num_def get_width_def)
  also have "\<dots> = Inr (s\<lparr>out := out s @ p @ dec_int (row_num s) @ q\<rparr>)"
    by (subst row_loop_plain [OF assms(2)]) simp
  finally show ?thesis using assms(3) by (simp add: print_row_def fputc_def)
qed

lemma rows_numbered_from:
  assumes "CHR ''%'' \<notin> set p" "CHR ''%'' \<notin> set q"
  shows "in_int (row_num s) \<Longrightarrow> in_int (row_num s + int n) \<Longrightarrow>
    repeatR n (print_row rand (p @ ''%n'' @ q)) s =
    Inr (s\<lparr>out := out s @ concat (map (\<lambda>i. p @ dec_int (row_num s + int i) @ q @ [CHR 0x0A]) [0..<n]),
           row_num := row_num s + int n\<rparr>)"
proof (induction n arbitrary: s)
  case (Suc n)
  let ?s = "s\<lparr>out := out s @ p @ dec_int (row_num s) @ q @ [CHR 0x0A], row_num := row_num s + 1\<rparr>"
  have 1: "in_int (row_num s + 1)" using Suc.prems by (auto simp: int_range_defs)
  have "map (\<lambda>i. p @ dec_int (row_num s + int i) @ q @ [CHR 0x0A]) [0..<Suc n] =
      (p @ dec_int (row_num s) @ q @ [CHR 0x0A]) #
      map (\<lambda>i. p @ dec_int (row_num s + 1 + int i) @ q @ [CHR 0x0A]) [0..<n]"
    by (simp only: map_upt_Suc) (simp add: algebra_simps)
  with Suc.IH [of ?s] 1 Suc.prems(2) print_row_numbered [OF assms 1, of rand]
  show ?case by (simp del: upt_Suc add: algebra_simps)
qed simp

text \<open>
  A template with one \<open>%n\<close> prints one line a row, the \<open>i\<close>-th with the number \<open>i\<close>, whatever the generator, so
  the numbers serve as a primary key.
\<close>

lemma gen_main_rows:
  assumes "CHR ''%'' \<notin> set p" "CHR ''%'' \<notin> set q" "NUL \<notin> set (p @ q)" "0 < n" "n < 2147483647"
  shows "gen_main rand [(CHR ''n'', dec_int n), (CHR ''f'', p @ ''%n'' @ q)] g =
    Inr (concat (map (\<lambda>i. p @ dec_int (int i + 1) @ q @ [CHR 0x0A]) [0..<nat n]))"
proof -
  have "in_int n" using assms(4,5) by (simp add: int_range_defs)
  then have "atoi (dec_int n) = n" by (rule atoi_dec_int)
  moreover have "c_str (p @ ''%n'' @ q) = p @ ''%n'' @ q" using assms(3) by (intro c_str_id) auto
  ultimately have "parse_args [(CHR ''n'', dec_int n), (CHR ''f'', p @ ''%n'' @ q)] 0 None =
      Inr (n, p @ ''%n'' @ q)"
    using assms(4) by simp
  with rows_numbered_from [OF assms(1,2), of "\<lparr>out = '''', row_num = 1, rng = g\<rparr>" "nat n" rand] assms(4,5)
  show ?thesis by (simp add: gen_main_def int_range_defs add.commute)
qed

end
