(* ===== verification/Smack_Process.thy ===== *)
theory Smack_Process
  imports Smack_Parse
begin

text \<open>
  Processes: \<open>create_threads\<close>, the pipe and the semaphore a client's processes share, and the collection
  of reports (\<^verbatim>\<open>src/client.cc\<close>), as one process runs them over the system calls of \<open>os\<close>; and the statements
  of the main section, \<open>Main_line::execute\<close> (\<^verbatim>\<open>src/parse.cc\<close>).  Loops that may not end are partial
  functions: \<open>None\<close> means that the call does not return.
\<close>

section \<open>The pipe and the semaphore\<close>

definition setup_pipe :: "'w os \<Rightarrow> client \<times> 'w \<Rightarrow> (client \<times> 'w) result" where
  "setup_pipe os = (\<lambda>(c, w).
     case os_pipe os w of
       (None, w) \<Rightarrow> die Pipe_error
     | (Some fds, w) \<Rightarrow>
         let key = os_ftok os w;
             (sid, w) = os_semget os key 0 False w;
             (sid, w) = (if sid = -1 then os_semget os key 1 True w else (sid, w))
         in if sid = -1 then die Semaphore_error
            else Inr (c\<lparr>report_pipe := fds, pipe_sem_id := sid\<rparr>, os_setval os sid 1 w))"

definition client_init :: "'w os \<Rightarrow> client \<times> 'w \<Rightarrow> (client \<times> 'w) result" where
  "client_init os s = mapR (\<lambda>(c, w). (c, os_srand os w)) (setup_pipe os s)"

definition lock_pipe_sem :: "'w os \<Rightarrow> client \<Rightarrow> 'w \<Rightarrow> 'w result" where
  "lock_pipe_sem os c w =
     (let (r, w) = os_semop os (pipe_sem_id c) (-1) w in if r = -1 then die Semaphore_error else Inr w)"

definition unlock_pipe_sem :: "'w os \<Rightarrow> client \<Rightarrow> 'w \<Rightarrow> 'w result" where
  "unlock_pipe_sem os c w =
     (let (r, w) = os_semop os (pipe_sem_id c) 1 w in if r = -1 then die Semaphore_error else Inr w)"

section \<open>Forking\<close>

text \<open>The loop of \<open>create_threads\<close>; the flag says that the process is a child and has returned.\<close>

fun create_loop :: "'w os \<Rightarrow> nat \<Rightarrow> client \<times> 'w \<Rightarrow> (client \<times> 'w \<times> bool) result" where
  "create_loop os 0 (c, w) = Inr (c, w, False)"
| "create_loop os (Suc n) (c, w) =
     (if parent_thread c \<noteq> 0 then
        (let (pid, w) = os_fork os w
         in if pid = 0 then
              Inr (c\<lparr>parent_thread := 0, running_threads := 0\<rparr>,
                   os_srand os (os_close os (fst (report_pipe c)) w), True)
            else if pid = -1 then create_loop os n (c, w)
            else bindR (chk (running_threads c + 1)) (\<lambda>t.
                   create_loop os n (c\<lparr>parent_thread := 1, running_threads := t\<rparr>, w)))
      else create_loop os n (c, w))"

definition create_threads :: "'w os \<Rightarrow> int \<Rightarrow> client \<times> 'w \<Rightarrow> (client \<times> 'w) result" where
  "create_threads os num_threads s =
     mapR (\<lambda>(c, w, returned). (c, if returned then w else os_close os (snd (report_pipe c)) w))
       (create_loop os (nat (num_threads - 1)) s)"

section \<open>Transferring reports\<close>

text \<open>The loop around \<open>select\<close>.\<close>

partial_function (option) select_wait :: "'w os \<Rightarrow> bool \<Rightarrow> int \<Rightarrow> 'w \<Rightarrow> 'w result option" where
  "select_wait os wr fd w =
     (case os_select os wr fd w of
        (r, w) \<Rightarrow>
          (case r of
             Sys_ok \<Rightarrow> Some (Inr w)
           | Sys_error \<Rightarrow> Some (die Select_error)
           | Sys_intr \<Rightarrow> select_wait os wr fd w))"

definition note_connect_time :: "int \<Rightarrow> client \<Rightarrow> client result" where
  "note_connect_time t c =
     bindR (chk (total_connect_time c + t)) (\<lambda>total.
     bindR (chk (num_reported_clients c + 1)) (\<lambda>n.
     Inr (c\<lparr>total_connect_time := total, num_reported_clients := n,
       max_connect_time := if max_connect_time c < t then t else max_connect_time c,
       min_connect_time := if min_connect_time c > t \<or> min_connect_time c = -1 then t else min_connect_time c\<rparr>)))"

text \<open>What a parent reads; a read of one to three bytes leaves the time partly uninitialised.\<close>

definition receive_report :: "'w os \<Rightarrow> client \<times> 'w \<Rightarrow> (client \<times> 'w) result" where
  "receive_report os = (\<lambda>(c, w).
     let fd = fst (report_pipe c) in
     case os_read os fd 4 w of
       (None, w) \<Rightarrow> die Connect_read_error
     | (Some b, w) \<Rightarrow>
         if b = [] then Inr (c, w)
         else if length b < 4 then undef Uninitialized
         else
           bindR (note_connect_time (int_of_bytes b) c) (\<lambda>c.
           case qb c of
             None \<Rightarrow> undef Null_deref
           | Some q \<Rightarrow>
               mapR (\<lambda>(q, w). (c\<lparr>qb := Some q\<rparr>, w)) (fd_update_report (os_read os fd) w q)))"

text \<open>What a child writes, holding the semaphore.\<close>

definition send_report :: "'w os \<Rightarrow> client \<times> 'w \<Rightarrow> (client \<times> 'w) result" where
  "send_report os = (\<lambda>(c, w).
     let fd = snd (report_pipe c) in
     bindR (lock_pipe_sem os c w) (\<lambda>w.
     let (n, w) = os_write os fd (int_bytes (connect_time c)) w in
     if n < 0 then die Report_write_error
     else case qb c of
            None \<Rightarrow> undef Null_deref
          | Some q \<Rightarrow>
              bindR (fd_send_report (os_write os fd) q w) (\<lambda>w.
              mapR (\<lambda>w. (c, w)) (unlock_pipe_sem os c w))))"

definition transfer_report_data :: "'w os \<Rightarrow> client \<times> 'w \<Rightarrow> (client \<times> 'w) result option" where
  "transfer_report_data os = (\<lambda>(c, w).
     if parent_thread c \<noteq> 0 then
       map_option (\<lambda>r. bindR r (\<lambda>w. receive_report os (c, w))) (select_wait os False (fst (report_pipe c)) w)
     else
       map_option (\<lambda>r. bindR r (\<lambda>w. send_report os (c, w))) (select_wait os True (snd (report_pipe c)) w))"

text \<open>The parent's loop around \<open>wait4\<close>.\<close>

partial_function (option) wait_loop :: "'w os \<Rightarrow> client \<times> 'w \<Rightarrow> (client \<times> 'w) result option" where
  "wait_loop os s =
     (case os_wait4 os (snd s) of
        (r, w) \<Rightarrow>
          (case r of
             Sys_ok \<Rightarrow>
               (case transfer_report_data os (fst s, w) of
                  None \<Rightarrow> None
                | Some m \<Rightarrow> (case m of Inl e \<Rightarrow> Some (Inl e) | Inr s \<Rightarrow> wait_loop os s))
           | Sys_intr \<Rightarrow> wait_loop os (fst s, w)
           | Sys_error \<Rightarrow> Some (Inr (fst s, w))))"

text \<open>A child up to its \<open>exit(0)\<close>: the state the process leaves behind.\<close>

definition child_sync :: "'w db_class \<Rightarrow> 'w os \<Rightarrow> client \<times> 'w \<Rightarrow> (client \<times> 'w) result option" where
  "child_sync db os s =
     map_option (mapR (\<lambda>(c, w). let (c, w) = disconnect db c w in (c, os_close os (snd (report_pipe c)) w)))
       (transfer_report_data os s)"

definition thread_sync :: "'w db_class \<Rightarrow> 'w os \<Rightarrow> client \<times> 'w \<Rightarrow> (client \<times> 'w) result option" where
  "thread_sync db os s =
     (if parent_thread (fst s) \<noteq> 0 then wait_loop os s
      else map_option (\<lambda>r. bindR r (\<lambda>s. Inl (Exited 0))) (child_sync db os s))"

section \<open>The main section\<close>

text \<open>The state of a process that runs a script: the global pools and variables of \<^verbatim>\<open>src/parse.cc\<close>, and
  what it has written to the standard output.\<close>

record process =
  query_pool :: "query option smap"
  dict_pool :: "dict option smap"
  client_pool :: "client option smap"
  var_hash :: "val option smap"
  current_client :: string
  client_pids :: "int list"
  stdout :: string

definition new_process :: process where
  "new_process = \<lparr>query_pool = [], dict_pool = [], client_pool = [], var_hash = [],
     current_client = ''main'', client_pids = [], stdout = ''''\<rparr>"

record main_line =
  ml_client :: string
  ml_method :: string
  param_list :: "string list"

text \<open>
  \<open>Param_list\<close>: \<open>param_at\<close> is its index operator, which checks the index against the size but lets the size
  itself through; the readers below do not check it at all.
\<close>


definition param_at :: "int \<Rightarrow> string list \<Rightarrow> string result" where
  "param_at n ps =
     (if 0 \<le> n \<and> n \<le> int (length ps)
      then (if n < int (length ps) then Inr (ps ! nat n) else undef Out_of_bounds)
      else Inr [])"

definition pchar_val :: "nat \<Rightarrow> string list \<Rightarrow> string result" where
  "pchar_val n ps = (if n < length ps then Inr (c_str (ps ! n)) else undef Out_of_bounds)"

definition int_val :: "nat \<Rightarrow> string list \<Rightarrow> int result" where
  "int_val n ps = mapR atoi (pchar_val n ps)"

fun param_list_print :: "string list \<Rightarrow> string" where
  "param_list_print [] = ''''"
| "param_list_print (p # ps) = p @ concat (map (\<lambda>s. '','' @ s) ps)"

definition main_line_print :: "main_line \<Rightarrow> string" where
  "main_line_print l =
     ''main_line: client: '' @ ml_client l @ '',method='' @ ml_method l @ '',param_list: '' @
     param_list_print (param_list l) @ [NL]"

definition say :: "string \<Rightarrow> process \<Rightarrow> process" where
  "say s p = p\<lparr>stdout := stdout p @ s\<rparr>"

text \<open>
  A call on the client \<open>cname\<close> of the pool: its pointer to the pool of dictionaries is followed before the
  call and the pool is kept afterwards.
\<close>

definition load_client :: "process \<Rightarrow> client \<Rightarrow> client" where
  "load_client p c = (case dictionaries c of None \<Rightarrow> c | Some _ \<Rightarrow> c\<lparr>dictionaries := Some (dict_pool p)\<rparr>)"

definition store_client :: "string \<Rightarrow> client \<Rightarrow> process \<Rightarrow> process" where
  "store_client cname c p =
     (case dictionaries c of None \<Rightarrow> p | Some m \<Rightarrow> p\<lparr>dict_pool := m\<rparr>)
       \<lparr>client_pool := smap_put cname (Some c) (client_pool p)\<rparr>"

definition on_client :: "string \<Rightarrow> client \<Rightarrow> (client \<times> 'w \<Rightarrow> (client \<times> 'w) result) \<Rightarrow> process \<times> 'w \<Rightarrow>
    (process \<times> 'w) result" where
  "on_client cname c f = (\<lambda>(p, w).
     mapR (\<lambda>(c, w). (store_client cname c p, w)) (f (load_client p c, w)))"

definition client_start_clock :: "'w os \<Rightarrow> client \<times> 'w \<Rightarrow> (client \<times> 'w) result" where
  "client_start_clock os = (\<lambda>(c, w).
     case qb c of
       None \<Rightarrow> undef Null_deref
     | Some b \<Rightarrow> let (t, w) = gettimeofday os w
                in Inr (c\<lparr>qb := Some (barrel_start_clock t b)\<rparr>, w))"

definition client_stop_clock :: "'w os \<Rightarrow> client \<times> 'w \<Rightarrow> (client \<times> 'w) result" where
  "client_stop_clock os = (\<lambda>(c, w).
     case qb c of
       None \<Rightarrow> undef Null_deref
     | Some b \<Rightarrow> let (t, w) = gettimeofday os w
                in Inr (c\<lparr>qb := Some (barrel_stop_clock t b)\<rparr>, w))"

definition print_barrel_report :: "client \<Rightarrow> string result" where
  "print_barrel_report c = (case qb c of None \<Rightarrow> Inr '''' | Some b \<Rightarrow> barrel_print_report b)"

definition need_params :: "string \<Rightarrow> nat \<Rightarrow> string list \<Rightarrow> 'a result \<Rightarrow> 'a result" where
  "need_params m n ps k = (if length ps \<noteq> n then die (Param_count m n (length ps)) else k)"

text \<open>\<open>run_save_result\<close>: a file name that is a single dash means the standard output.\<close>

definition run_save_result :: "'w db_class \<Rightarrow> 'w os \<Rightarrow> string \<Rightarrow> client \<Rightarrow> string \<Rightarrow> string \<Rightarrow> process \<times> 'w \<Rightarrow>
    (process \<times> 'w) result" where
  "run_save_result db os cname c q_name fname = (\<lambda>(p, w).
     let (q, pool) = smap_index q_name (query_pool p); p = p\<lparr>query_pool := pool\<rparr> in
     case q of
       None \<Rightarrow> die (Run_query_undefined q_name)
     | Some q \<Rightarrow>
         on_client cname c (\<lambda>s.
           bindR (safe_query_object db os q 1 s) (\<lambda>(_, c, w).
             if has_result_set q \<noteq> 0 then
               mapR (\<lambda>(_, w). (c, w)) (dump_result db (if fname = ''-'' then None else Some fname) 1 w)
             else Inr (c, w))) (p, w))"

definition collect_threads :: "'w db_class \<Rightarrow> 'w os \<Rightarrow> string \<Rightarrow> client \<Rightarrow> process \<times> 'w \<Rightarrow>
    (process \<times> 'w) result option" where
  "collect_threads db os cname c = (\<lambda>(p, w).
     map_option (\<lambda>r.
       bindR r (\<lambda>s.
       bindR (client_stop_clock os s) (\<lambda>(c, w).
       mapR (\<lambda>report. (say (''Query Barrel Report for client '' @ cname @ [NL] @
                print_connect_times c @ report) (store_client cname c p), w))
         (print_barrel_report c))))
       (thread_sync db os (load_client p c, w)))"

text \<open>\<open>init\<close>: only the process \<open>main\<close> forks; the child becomes the client, the parent notes its pid.\<close>

definition execute_init :: "'w os \<Rightarrow> string \<Rightarrow> client \<Rightarrow> process \<times> 'w \<Rightarrow> (process \<times> 'w) result" where
  "execute_init os cname c = (\<lambda>(p, w).
     if current_client p \<noteq> ''main'' then Inr (p, w)
     else
       let (pid, w) = os_fork os w in
       if pid = 0 then
         mapR (\<lambda>(p, w). (p\<lparr>current_client := cname\<rparr>, w)) (on_client cname c (client_init os) (p, w))
       else if pid = -1 then die Fork_error
       else Inr (p\<lparr>client_pids := client_pids p @ [pid]\<rparr>, w))"

definition execute_method :: "'w db_class \<Rightarrow> 'w os \<Rightarrow> string \<Rightarrow> string \<Rightarrow> string list \<Rightarrow> client \<Rightarrow>
    process \<times> 'w \<Rightarrow> (process \<times> 'w) result" where
  "execute_method db os cname m ps c = (\<lambda>(p, w).
     if m = ''connect'' then on_client cname c (connect db os) (p, w)
     else if m = ''init'' then execute_init os cname c (p, w)
     else if m = ''sleep'' then
       need_params m 2 ps (
         bindR (int_val 0 ps) (\<lambda>sec. bindR (int_val 1 ps) (\<lambda>ms.
           Inr (p, os_usleep os (to_uint32 (ms sdiv 1000)) (os_sleep os (to_uint32 sec) w)))))
     else if m = ''print'' then
       need_params m 1 ps (mapR (\<lambda>s. (say (s @ [NL]) p, w)) (pchar_val 0 ps))
     else if m = ''query'' then
       need_params m 1 ps (
         bindR (pchar_val 0 ps) (\<lambda>q.
           on_client cname c (\<lambda>(c, w). mapR (\<lambda>(_, w). (c, w)) (safe_query db q 1 w)) (p, w)))
     else if m = ''run_save_result'' then
       need_params m 2 ps (
         bindR (pchar_val 0 ps) (\<lambda>q_name. bindR (pchar_val 1 ps) (\<lambda>fname.
           run_save_result db os cname c q_name fname (p, w))))
     else if m = ''run_check_result'' then Inr (p, w)
     else if m = ''set_num_rounds'' then
       need_params m 1 ps (
         bindR (int_val 0 ps) (\<lambda>n. on_client cname c (\<lambda>(c, w). Inr (set_num_rounds n c, w)) (p, w)))
     else if m = ''disconnect'' then on_client cname c (\<lambda>(c, w). Inr (disconnect db c w)) (p, w)
     else if m = ''create_threads'' then
       on_client cname c (\<lambda>s. bindR (client_start_clock os s) (\<lambda>s.
         need_params m 1 ps (bindR (int_val 0 ps) (\<lambda>n. create_threads os n s)))) (p, w)
     else if m = ''unload_query_barrel'' then on_client cname c (unload_query_barrel db os) (p, w)
     else die (Unknown_method m cname))"

definition execute :: "'w db_class \<Rightarrow> 'w os \<Rightarrow> main_line \<Rightarrow> process \<times> 'w \<Rightarrow> (process \<times> 'w) result option" where
  "execute db os l = (\<lambda>(p, w).
     let cname = ml_client l; m = ml_method l in
     if cname \<noteq> current_client p \<and> m \<noteq> ''init'' then Some (Inr (p, w))
     else
       let (c, pool) = smap_index cname (client_pool p); p = p\<lparr>client_pool := pool\<rparr> in
       case c of
         None \<Rightarrow> Some (die (Client_undefined cname))
       | Some c \<Rightarrow>
           if m = ''collect_threads'' then collect_threads db os cname c (p, w)
           else Some (execute_method db os cname m (param_list l) c (p, w)))"

end

