(* ===== verification/Smack_Collect.thy ===== *)
theory Smack_Collect
  imports Smack_Process Smack_Report_Proofs Smack_Client_Proofs
begin

text \<open>
  A client's processes and the pipe they share, as a system of concurrent steps: the children lock the
  semaphore, write their report (in any number of pieces, as far as the pipe has room), unlock and exit;
  the parent reaps an exited child and reads one report, until \<open>wait4\<close> finds no child left
  (\<open>thread_sync\<close>).  What a child writes and what the parent does with the bytes are the definitions of
  \<open>Smack_Process\<close>, run over a pipe.
\<close>

section \<open>One process and the pipe\<close>

text \<open>
  The system calls of a process that holds the semaphore, over the bytes in the pipe.  Only those that
  \<open>send_report\<close> and \<open>receive_report\<close> use matter.
\<close>

definition pipe_os :: "string os" where
  "pipe_os = \<lparr>gettimeofday = \<lambda>s. (Timeval 0 0, s), os_rand = \<lambda>s. (0, s), os_srand = \<lambda>s. s,
     os_sleep = \<lambda>n s. s, os_usleep = \<lambda>n s. s, os_fork = \<lambda>s. (-1, s), os_wait4 = \<lambda>s. (Sys_error, s),
     os_pipe = \<lambda>s. (None, s), os_close = \<lambda>fd s. s,
     os_read = \<lambda>fd. pipe_read, os_write = \<lambda>fd bs s. (int (length bs), s @ bs),
     os_select = \<lambda>wr fd s. (Sys_ok, s), os_ftok = \<lambda>s. 0, os_semget = \<lambda>k n cr s. (0, s),
     os_setval = \<lambda>i v s. s, os_semop = \<lambda>i d s. (0, s), os_rmid = \<lambda>i s. s\<rparr>"

text \<open>The bytes a child writes, and the statistics of a client.\<close>

definition message :: "client \<Rightarrow> string" where
  "message c = (case send_report pipe_os (c, []) of Inr (_, s) \<Rightarrow> s | Inl _ \<Rightarrow> [])"

definition rep :: "client \<Rightarrow> tmap" where
  "rep c = (case qb c of Some b \<Rightarrow> type_reports (qr b) | None \<Rightarrow> [])"

definition count :: "string \<Rightarrow> client \<Rightarrow> int" where
  "count k c = (case smap_find (rep c) k of Some (Some r) \<Rightarrow> num_queries r | _ \<Rightarrow> 0)"

text \<open>What the parent becomes when it reads the report of a child.\<close>

definition absorb :: "client \<Rightarrow> client \<Rightarrow> client result" where
  "absorb c p =
     bindR (note_connect_time (connect_time c) p) (\<lambda>p.
       case qb p of
         None \<Rightarrow> undef Null_deref
       | Some b \<Rightarrow> mapR (\<lambda>m. p\<lparr>qb := Some (b\<lparr>qr := (qr b)\<lparr>type_reports := m\<rparr>\<rparr>)\<rparr>)
                    (merge_all (rep c) (type_reports (qr b))))"

text \<open>A child whose report can be sent: the report of a fork of a client with a well-formed barrel.\<close>

definition reportable :: "client \<Rightarrow> bool" where
  "reportable c \<longleftrightarrow> qb c \<noteq> None \<and> smap_ok (rep c) \<and> list_all sendable (rep c) \<and> in_int (connect_time c) \<and>
     1 + length (body_bytes (rep c)) \<le> MAX_REPORT_LEN"

lemma sendable_no_nulls: "list_all sendable m \<Longrightarrow> no_nulls m"
  by (auto simp: list_all_iff no_nulls_def sendable_def split: option.splits)

lemma reportable_bytes:
  assumes "reportable c" "qb c = Some b"
  shows "fd_send_bytes (qr b) = Inr (char_of (length (rep c)) # body_bytes (rep c))"
proof -
  have "no_nulls (type_reports (qr b))"
    using assms by (auto simp: reportable_def rep_def intro: sendable_no_nulls)
  from fd_send_sized [OF this] assms show ?thesis by (simp add: reportable_def rep_def)
qed

lemma send_report_writes:
  assumes "reportable c" "qb c = Some b"
  shows "send_report pipe_os (c, s) = Inr (c, s @ int_bytes (connect_time c) @ char_of (length (rep c)) # body_bytes (rep c))"
  using reportable_bytes [OF assms] assms(2)
  by (simp add: send_report_def lock_pipe_sem_def unlock_pipe_sem_def pipe_os_def fd_send_def)

lemma message_eq:
  "reportable c \<Longrightarrow> message c = int_bytes (connect_time c) @ char_of (length (rep c)) # body_bytes (rep c)"
  by (cases "qb c") (simp_all add: message_def send_report_writes, simp add: reportable_def)

lemma message_length: "reportable c \<Longrightarrow> 5 \<le> length (message c) \<and> length (message c) \<le> 4 + MAX_REPORT_LEN"
  by (simp add: message_eq) (simp add: reportable_def)

text \<open>Reading one report from a pipe that starts with it.\<close>

lemma receive_message:
  assumes "reportable c" "qb p = Some b"
  shows "receive_report pipe_os (p, message c @ rest) = mapR (\<lambda>p. (p, rest)) (absorb c p)"
proof -
  obtain bc where bc: "qb c = Some bc" using assms(1) by (auto simp: reportable_def)
  have rc: "rep c = type_reports (qr bc)" by (simp add: rep_def bc)
  let ?body = "char_of (length (rep c)) # body_bytes (rep c)"
  have msg: "message c @ rest = int_bytes (connect_time c) @ ?body @ rest" using message_eq [OF assms(1)] by simp
  have ct: "int_of_bytes (int_bytes (connect_time c)) = connect_time c"
    using assms(1) by (intro int_of_bytes_int_bytes) (simp add: reportable_def)
  have keep: "qb p' = qb p" if "note_connect_time t p = Inr p'" for t p'
    using that by (auto simp: note_connect_time_def resultE_simps)
  have up: "update_from_fd pipe_read (?body @ rest) q =
      mapR (\<lambda>m. (q\<lparr>type_reports := m\<rparr>, rest)) (merge_all (rep c) (type_reports q))" for q
  proof -
    have "list_all sendable (type_reports (qr bc))" using assms(1) by (simp add: reportable_def rc)
    from pipe.update_from_fd_merges [OF this, of ?body "?body @ rest" rest q] reportable_bytes [OF assms(1) bc]
    show ?thesis by (simp add: rc)
  qed
  have read4: "pipe_read 4 (message c @ rest) = (Some (int_bytes (connect_time c)), ?body @ rest)"
    by (simp add: pipe_read_def msg)
  have rd: "os_read pipe_os fd = pipe_read" for fd by (simp add: pipe_os_def)
  have ne: "int_bytes (connect_time c) \<noteq> []" by (simp flip: length_0_conv)
  show ?thesis
  proof (cases "note_connect_time (connect_time c) p")
    case (Inl e)
    then show ?thesis by (simp add: receive_report_def rd read4 ne ct absorb_def)

  next
    case (Inr p')
    with keep have q: "qb p' = Some b" by (simp add: assms(2))
    show ?thesis
      by (cases "merge_all (rep c) (type_reports (qr b))")
         (simp_all add: receive_report_def fd_update_report_def read4 ne ct absorb_def Inr q rd up del: append_Cons)
  qed
qed

section \<open>Absorbing reports\<close>

text \<open>The parent and a child of the same family: the same types, and room for the sums.\<close>

definition absorbable :: "client \<Rightarrow> client \<Rightarrow> bool" where
  "absorbable c p \<longleftrightarrow> map fst (rep c) = map fst (rep p) \<and>
     in_int (total_connect_time p + connect_time c) \<and> in_int (num_reported_clients p + 1) \<and>
     (\<forall>k. in_int (count k p + count k c))"

definition parent_ok :: "client \<Rightarrow> bool" where
  "parent_ok p \<longleftrightarrow> qb p \<noteq> None \<and> smap_ok (rep p) \<and> no_nulls (rep p)"

lemma entry_of:
  assumes "smap_ok m" "no_nulls m" "k \<in> set (map fst m)"
  obtains r where "smap_find m k = Some (Some r)"
proof -
  obtain p where p: "(k, p) \<in> set m" using assms(3) by auto
  with assms(2) obtain r where "p = Some r" by (cases p) (auto simp: no_nulls_def)
  with p assms(1) that show thesis by (simp add: smap_entries)
qed

lemma key_of: "smap_ok m \<Longrightarrow> smap_find m k = Some x \<Longrightarrow> k \<in> set (map fst m)"
  by (metis smap_entries fst_conv image_eqI list.set_map)

lemma absorb_ok:
  assumes c: "reportable c" and p: "parent_ok p" and a: "absorbable c p"
  shows "\<exists>p'. absorb c p = Inr p' \<and> parent_ok p' \<and> map fst (rep p') = map fst (rep p)
    \<and> num_reported_clients p' = num_reported_clients p + 1
    \<and> total_connect_time p' = total_connect_time p + connect_time c
    \<and> max_connect_time p' = max (max_connect_time p) (connect_time c)
    \<and> (\<forall>k. count k p' = count k p + count k c)"
proof -
  obtain b where b: "qb p = Some b" using p by (auto simp: parent_ok_def)
  have rp: "rep p = type_reports (qr b)" by (simp add: rep_def b)
  define p1 where "p1 = p\<lparr>total_connect_time := total_connect_time p + connect_time c,
      num_reported_clients := num_reported_clients p + 1,
      max_connect_time := if max_connect_time p < connect_time c then connect_time c else max_connect_time p,
      min_connect_time := if min_connect_time p > connect_time c \<or> min_connect_time p = -1
        then connect_time c else min_connect_time p\<rparr>"
  have nct: "note_connect_time (connect_time c) p = Inr p1"
    using a by (simp add: note_connect_time_def absorbable_def p1_def)
  have okc: "smap_ok (rep c)" "no_nulls (rep c)"
    using c by (auto simp: reportable_def sendable_no_nulls)
  have okp: "smap_ok (rep p)" "no_nulls (rep p)" using p by (simp_all add: parent_ok_def)
  have keys: "map fst (rep c) = map fst (rep p)" using a by (simp add: absorbable_def)
  have "mergeable (rep c) (rep p)"
    unfolding mergeable_def
  proof (clarify)
    fix k x assume kx: "(k, x) \<in> set (rep c)"
    then have f: "smap_find (rep c) k = Some x" using smap_entries [OF okc(1)] by simp
    have "k \<in> set (map fst (rep c))" using kx by force
    with keys have "k \<in> set (map fst (rep p))" by simp
    with entry_of [OF okp] obtain r0 where r0: "smap_find (rep p) k = Some (Some r0)" by blast
    obtain r where "x = Some r" using okc(2) kx by (cases x) (auto simp: no_nulls_def)
    moreover have "in_int (count k p + count k c)" using a by (simp add: absorbable_def)
    ultimately show "\<exists>r r0. x = Some r \<and> smap_find (rep p) k = Some (Some r0)
        \<and> in_int (num_queries r0 + num_queries r)"
      using r0 f by (simp add: count_def)
  qed
  from merge_all_ok [OF okp(1) smap_ok_distinct [OF okc(1)] this] obtain m where
    m: "merge_all (rep c) (rep p) = Inr m" "smap_ok m" "map fst m = map fst (rep p)"
      "\<And>k. smap_find m k = merge_entry (smap_find (rep c) k) (smap_find (rep p) k)"
    by (auto simp: smap_find_def)
  let ?p' = "p1\<lparr>qb := Some (b\<lparr>qr := (qr b)\<lparr>type_reports := m\<rparr>\<rparr>)\<rparr>"
  have ab: "absorb c p = Inr ?p'" using m(1) nct by (simp add: absorb_def p1_def b rp)
  have rm: "rep ?p' = m" by (simp add: rep_def)
  have cnt: "count k ?p' = count k p + count k c" and nn: "smap_find m k \<noteq> Some None" for k
  proof -
    have "count k ?p' = count k p + count k c \<and> smap_find m k \<noteq> Some None"
    proof (cases "k \<in> set (map fst (rep p))")
      case True
      with entry_of [OF okp] obtain r0 where "smap_find (rep p) k = Some (Some r0)" by blast
      moreover from True keys entry_of [OF okc] obtain r where "smap_find (rep c) k = Some (Some r)" by metis
      ultimately show ?thesis by (simp add: count_def rm m(4) merged_def)
    next
      case False
      then have "smap_find (rep p) k = None" "smap_find (rep c) k = None"
        using key_of [OF okp(1)] key_of [OF okc(1)] keys by (metis option.exhaust)+
      then show ?thesis by (simp add: count_def rm m(4))
    qed
    then show "count k ?p' = count k p + count k c" "smap_find m k \<noteq> Some None" by simp_all
  qed
  have "parent_ok ?p'" using m(2) nn by (simp add: parent_ok_def rm no_nulls_find)
  with ab cnt m(3) rm show ?thesis by (intro exI [of _ ?p']) (simp add: p1_def max_def)
qed

section \<open>The system\<close>

datatype phase = Ready | Writing string | Unlocked | Zombie | Reaped

text \<open>
  The children's phases, the bytes in the pipe, the semaphore, the parent's client and whether it is about
  to read a report; and two histories: the children in the order in which they finished writing, and how
  many reports have been read.
\<close>

record system =
  kids :: "phase list"
  bytes :: string
  sem :: int
  par :: client
  pend :: bool
  sent :: "nat list"
  nread :: nat

definition sys_init :: "client list \<Rightarrow> client \<Rightarrow> system" where
  "sys_init cs p = \<lparr>kids = replicate (length cs) Ready, bytes = [], sem = 1, par = p, pend = False,
     sent = [], nread = 0\<rparr>"

inductive sys_step :: "nat \<Rightarrow> client list \<Rightarrow> system \<Rightarrow> system \<Rightarrow> bool" for cap cs where
  do_lock: "i < length (kids s) \<Longrightarrow> kids s ! i = Ready \<Longrightarrow> 0 < sem s \<Longrightarrow>
    sys_step cap cs s (s\<lparr>kids := (kids s)[i := Writing (message (cs ! i))], sem := sem s - 1\<rparr>)"
| do_write: "i < length (kids s) \<Longrightarrow> kids s ! i = Writing (x @ y) \<Longrightarrow> x \<noteq> [] \<Longrightarrow> length (bytes s) + length x \<le> cap \<Longrightarrow>
    sys_step cap cs s (s\<lparr>kids := (kids s)[i := Writing y], bytes := bytes s @ x\<rparr>)"
| do_unlock: "i < length (kids s) \<Longrightarrow> kids s ! i = Writing [] \<Longrightarrow>
    sys_step cap cs s (s\<lparr>kids := (kids s)[i := Unlocked], sem := sem s + 1, sent := sent s @ [i]\<rparr>)"
| do_exit: "i < length (kids s) \<Longrightarrow> kids s ! i = Unlocked \<Longrightarrow>
    sys_step cap cs s (s\<lparr>kids := (kids s)[i := Zombie]\<rparr>)"
| do_reap: "i < length (kids s) \<Longrightarrow> kids s ! i = Zombie \<Longrightarrow> \<not> pend s \<Longrightarrow>
    sys_step cap cs s (s\<lparr>kids := (kids s)[i := Reaped], pend := True\<rparr>)"
| do_receive: "pend s \<Longrightarrow> receive_report pipe_os (par s, bytes s) = Inr (p, r) \<Longrightarrow>
    sys_step cap cs s (s\<lparr>par := p, bytes := r, pend := False, nread := nread s + 1\<rparr>)"

inductive_cases sys_stepE: "sys_step cap cs s s'"

text \<open>The parent's loop is over when no child is left to wait for.\<close>

definition collected :: "system \<Rightarrow> bool" where
  "collected s \<longleftrightarrow> (\<forall>k \<in> set (kids s). k = Reaped) \<and> \<not> pend s"

definition is_writing :: "phase \<Rightarrow> bool" where
  "is_writing k = (case k of Writing _ \<Rightarrow> True | _ \<Rightarrow> False)"

definition is_sent :: "phase \<Rightarrow> bool" where
  "is_sent k = (case k of Unlocked \<Rightarrow> True | Zombie \<Rightarrow> True | Reaped \<Rightarrow> True | _ \<Rightarrow> False)"

lemma phase_simps [simp]:
  "\<not> is_writing Ready" "is_writing (Writing x)" "\<not> is_writing Unlocked" "\<not> is_writing Zombie" "\<not> is_writing Reaped"
  "\<not> is_sent Ready" "\<not> is_sent (Writing x)" "is_sent Unlocked" "is_sent Zombie" "is_sent Reaped"
  by (simp_all add: is_writing_def is_sent_def)

definition unread :: "client list \<Rightarrow> system \<Rightarrow> string" where
  "unread cs s = concat (map (\<lambda>i. message (cs ! i)) (drop (nread s) (sent s)))"

text \<open>Whole reports in the pipe, and after them what the one writer, if any, has written of its own.\<close>

definition pipe_inv :: "client list \<Rightarrow> system \<Rightarrow> bool" where
  "pipe_inv cs s \<longleftrightarrow>
     (sem s = 1 \<and> (\<forall>k \<in> set (kids s). \<not> is_writing k) \<and> bytes s = unread cs s) \<or>
     (sem s = 0 \<and> (\<exists>i x y. i < length (kids s) \<and> kids s ! i = Writing y \<and> message (cs ! i) = x @ y
        \<and> bytes s = unread cs s @ x \<and> (\<forall>j < length (kids s). j \<noteq> i \<longrightarrow> \<not> is_writing (kids s ! j))))"

definition hist_inv :: "client list \<Rightarrow> system \<Rightarrow> bool" where
  "hist_inv cs s \<longleftrightarrow> length (kids s) = length cs \<and> distinct (sent s)
     \<and> set (sent s) = {i. i < length (kids s) \<and> is_sent (kids s ! i)}
     \<and> nread s + (if pend s then 1 else 0) = count_list (kids s) Reaped"

definition par_inv :: "client list \<Rightarrow> client \<Rightarrow> system \<Rightarrow> bool" where
  "par_inv cs p s \<longleftrightarrow> foldR absorb (map ((!) cs) (take (nread s) (sent s))) p = Inr (par s)"

definition sys_inv :: "client list \<Rightarrow> client \<Rightarrow> system \<Rightarrow> bool" where
  "sys_inv cs p s \<longleftrightarrow> pipe_inv cs s \<and> hist_inv cs s \<and> par_inv cs p s"

lemma sys_inv_init: "sys_inv cs p (sys_init cs p)"
  by (auto simp: sys_inv_def pipe_inv_def hist_inv_def par_inv_def sys_init_def unread_def)

section \<open>Families of processes\<close>

text \<open>
  The children and the parent of one client: forks of one process, so with the same types, whose sums stay
  within \<open>int\<close>.
\<close>

definition family :: "client list \<Rightarrow> client \<Rightarrow> bool" where
  "family cs p \<longleftrightarrow> parent_ok p
     \<and> (\<forall>c \<in> set cs. reportable c \<and> map fst (rep c) = map fst (rep p) \<and> 0 \<le> connect_time c \<and> (\<forall>k. 0 \<le> count k c))
     \<and> 0 \<le> num_reported_clients p \<and> num_reported_clients p + int (length cs) \<le> INT_MAX
     \<and> 0 \<le> total_connect_time p \<and> total_connect_time p + sum_list (map connect_time cs) \<le> INT_MAX
     \<and> (\<forall>k. 0 \<le> count k p \<and> count k p + sum_list (map (count k) cs) \<le> INT_MAX)"

lemma sum_list_nonneg_map: "\<forall>c \<in> set cs. 0 \<le> (f c :: int) \<Longrightarrow> 0 \<le> sum_list (map f cs)"
  by (induction cs) auto

lemma absorb_list:
  "family cs p \<Longrightarrow> \<exists>p'. foldR absorb cs p = Inr p' \<and> parent_ok p'
    \<and> num_reported_clients p' = num_reported_clients p + int (length cs)
    \<and> total_connect_time p' = total_connect_time p + sum_list (map connect_time cs)
    \<and> max_connect_time p' = fold max (map connect_time cs) (max_connect_time p)
    \<and> (\<forall>k. count k p' = count k p + sum_list (map (count k) cs))"
proof (induction cs arbitrary: p)
  case (Cons c cs)
  have c: "reportable c" "parent_ok p" "map fst (rep c) = map fst (rep p)" "0 \<le> connect_time c" "\<forall>k. 0 \<le> count k c"
    using Cons.prems by (auto simp: family_def)
  have nn: "0 \<le> sum_list (map connect_time cs)" "0 \<le> sum_list (map (count k) cs)" for k
    using Cons.prems by (auto simp: family_def intro: sum_list_nonneg_map)
  have "absorbable c p"
    unfolding absorbable_def
  proof (intro conjI allI)
    show "in_int (total_connect_time p + connect_time c)" "in_int (num_reported_clients p + 1)"
      using Cons.prems nn(1) c(4) by (auto simp: family_def in_int_def INT_MIN_def)
    fix k show "in_int (count k p + count k c)"
    proof -
      have "0 \<le> count k p" "count k p + (count k c + sum_list (map (count k) cs)) \<le> INT_MAX"
        using Cons.prems by (simp_all add: family_def)
      with nn(2) [of k] c(5) [rule_format, of k] show ?thesis by (simp add: in_int_def INT_MIN_def)
    qed
  qed (rule c(3))
  from absorb_ok [OF c(1,2) this] obtain p1 where p1: "absorb c p = Inr p1" "parent_ok p1"
    "map fst (rep p1) = map fst (rep p)" "num_reported_clients p1 = num_reported_clients p + 1"
    "total_connect_time p1 = total_connect_time p + connect_time c"
    "max_connect_time p1 = max (max_connect_time p) (connect_time c)"
    "\<forall>k. count k p1 = count k p + count k c" by blast
  have "family cs p1"
    using Cons.prems c p1 by (auto simp: family_def algebra_simps)
  from Cons.IH [OF this] p1 show ?case by (auto simp: max.commute)
qed (simp add: family_def)

lemma sub_sum:
  assumes "\<forall>c \<in> set cs. 0 \<le> (f c :: int)" "distinct js" "set js \<subseteq> {..<length cs}"
  shows "sum_list (map f (map ((!) cs) js)) \<le> sum_list (map f cs)"
proof -
  have "sum_list (map f (map ((!) cs) js)) = (\<Sum>j \<in> set js. f (cs ! j))"
    using assms(2) by (simp add: sum_list_distinct_conv_sum_set comp_def)
  also have "\<dots> \<le> (\<Sum>j < length cs. f (cs ! j))"
    using assms by (intro sum_mono2) auto
  also have "\<dots> = sum_list (map f cs)"
    by (simp add: sum_list_sum_nth atLeast0LessThan)
  finally show ?thesis .
qed

lemma all_sum:
  assumes "distinct js" "set js = {..<length cs}"
  shows "sum_list (map f (map ((!) cs) js)) = sum_list (map (f :: client \<Rightarrow> int) cs)"
proof -
  have "sum_list (map f (map ((!) cs) js)) = (\<Sum>j \<in> set js. f (cs ! j))"
    using assms(1) by (simp add: sum_list_distinct_conv_sum_set comp_def)
  also have "\<dots> = sum_list (map f cs)"
    by (simp add: assms(2) sum_list_sum_nth atLeast0LessThan)
  finally show ?thesis .
qed

lemma family_sub:

  assumes fam: "family cs p" and js: "distinct js" "set js \<subseteq> {..<length cs}"
  shows "family (map ((!) cs) js) p"
proof -
  let ?ds = "map ((!) cs) js"
  have sub: "set ?ds \<subseteq> set cs" using js(2) by auto
  have "length js \<le> length cs"
    using js by (metis card_lessThan card_mono distinct_card finite_lessThan)
  then have 1: "num_reported_clients p + int (length ?ds) \<le> INT_MAX"
    using fam by (simp add: family_def)
  have "sum_list (map connect_time ?ds) \<le> sum_list (map connect_time cs)"
    using fam js by (intro sub_sum) (auto simp: family_def)
  then have 2: "total_connect_time p + sum_list (map connect_time ?ds) \<le> INT_MAX"
    using fam unfolding family_def by linarith
  have 3: "count k p + sum_list (map (count k) ?ds) \<le> INT_MAX" for k
  proof -
    have "sum_list (map (count k) ?ds) \<le> sum_list (map (count k) cs)"
      using fam js by (intro sub_sum) (auto simp: family_def)
    moreover have "count k p + sum_list (map (count k) cs) \<le> INT_MAX" using fam by (simp add: family_def)
    ultimately show ?thesis by linarith
  qed
  have 4: "\<forall>c \<in> set ?ds. reportable c \<and> map fst (rep c) = map fst (rep p) \<and> 0 \<le> connect_time c
      \<and> (\<forall>k. 0 \<le> count k c)"
    using fam sub by (auto simp: family_def)
  show ?thesis unfolding family_def using fam 1 2 3 4 by (auto simp: family_def)
qed

section \<open>The invariant\<close>

lemma list_update_all:
  "\<forall>x \<in> set xs. P x \<Longrightarrow> P y \<Longrightarrow> \<forall>x \<in> set (xs[i := y]). P x"
  using set_update_subset_insert [of xs i y] by auto

text \<open>A child's step that neither writes nor ends writing leaves the pipe as it is.\<close>

lemma pipe_inv_quiet:
  assumes "pipe_inv cs s" "i < length (kids s)" "\<not> is_writing (kids s ! i)" "\<not> is_writing k"
    and "kids s' = (kids s)[i := k]" "bytes s' = bytes s" "sem s' = sem s" "unread cs s' = unread cs s"
  shows "pipe_inv cs s'"
  using assms(1) [unfolded pipe_inv_def]
proof (elim disjE conjE exE)
  assume "sem s = 1" "\<forall>k \<in> set (kids s). \<not> is_writing k" "bytes s = unread cs s"
  with assms(4-8) show "?thesis" unfolding pipe_inv_def using list_update_all [of "kids s" "\<lambda>k. \<not> is_writing k" k i] by simp
next
  fix j x y
  assume w: "sem s = 0" "j < length (kids s)" "kids s ! j = Writing y" "message (cs ! j) = x @ y"
    "bytes s = unread cs s @ x" "\<forall>l < length (kids s). l \<noteq> j \<longrightarrow> \<not> is_writing (kids s ! l)"
  have "j \<noteq> i" using w(3) assms(3) by auto
  with w assms(2-8) show ?thesis
    unfolding pipe_inv_def by (auto simp: nth_list_update intro!: exI [of _ j])
qed

lemma pipe_inv_writer:
  assumes "pipe_inv cs s" "i < length (kids s)" "kids s ! i = Writing z"
  shows "\<exists>x. sem s = 0 \<and> message (cs ! i) = x @ z \<and> bytes s = unread cs s @ x
    \<and> (\<forall>j < length (kids s). j \<noteq> i \<longrightarrow> \<not> is_writing (kids s ! j))"
  using assms unfolding pipe_inv_def
proof (elim disjE conjE exE)
  assume "\<forall>k \<in> set (kids s). \<not> is_writing k"
  with assms(2,3) have False by (metis nth_mem phase_simps(2))
  then show ?thesis ..
next
  fix j x y
  assume w: "sem s = 0" "j < length (kids s)" "kids s ! j = Writing y" "message (cs ! j) = x @ y"
    "bytes s = unread cs s @ x" "\<forall>l < length (kids s). l \<noteq> j \<longrightarrow> \<not> is_writing (kids s ! l)"
  with assms(2,3) have "i = j" by (metis phase_simps(2))
  with w assms(3) show ?thesis by auto
qed

lemma pipe_inv_apart:
  assumes "pipe_inv cs s"
  shows "(\<forall>i < length (kids s). \<forall>j < length (kids s).
      is_writing (kids s ! i) \<and> is_writing (kids s ! j) \<longrightarrow> i = j) \<and> (\<exists>x. bytes s = unread cs s @ x)"
  using assms [unfolded pipe_inv_def]
proof (elim disjE conjE exE)
  assume "\<forall>k \<in> set (kids s). \<not> is_writing k" "bytes s = unread cs s"
  then show ?thesis by auto
next
  fix i x y
  assume "bytes s = unread cs s @ x" "\<forall>l < length (kids s). l \<noteq> i \<longrightarrow> \<not> is_writing (kids s ! l)"
  then show ?thesis by blast
qed

lemma pipe_inv_lock:
  assumes "pipe_inv cs s" "i < length (kids s)" "0 < sem s"
  shows "pipe_inv cs (s\<lparr>kids := (kids s)[i := Writing (message (cs ! i))], sem := sem s - 1\<rparr>)"
proof -
  from assms have 1: "sem s = 1" "\<forall>k \<in> set (kids s). \<not> is_writing k" "bytes s = unread cs s"
    by (auto simp: pipe_inv_def)
  then have "\<forall>j < length (kids s). \<not> is_writing (kids s ! j)" by simp
  with 1 assms(2) show ?thesis by (auto simp: pipe_inv_def unread_def)
qed

lemma pipe_inv_write:
  assumes "pipe_inv cs s" "i < length (kids s)" "kids s ! i = Writing (x @ y)"
  shows "pipe_inv cs (s\<lparr>kids := (kids s)[i := Writing y], bytes := bytes s @ x\<rparr>)"
proof -
  from pipe_inv_writer [OF assms] obtain x0 where w: "sem s = 0" "message (cs ! i) = x0 @ x @ y"
    "bytes s = unread cs s @ x0" "\<forall>j < length (kids s). j \<noteq> i \<longrightarrow> \<not> is_writing (kids s ! j)" by auto
  then show ?thesis unfolding pipe_inv_def using assms(2)
    by (intro disjI2 conjI exI [of _ i] exI [of _ "x0 @ x"] exI [of _ y]) (simp_all add: unread_def)
qed

lemma pipe_inv_unlock:
  assumes "pipe_inv cs s" "i < length (kids s)" "kids s ! i = Writing []" "nread s \<le> length (sent s)"
  shows "pipe_inv cs (s\<lparr>kids := (kids s)[i := Unlocked], sem := sem s + 1, sent := sent s @ [i]\<rparr>)"
proof -
  from pipe_inv_writer [OF assms(1-3)] have w: "sem s = 0" "bytes s = unread cs s @ message (cs ! i)"
    "\<forall>j < length (kids s). j \<noteq> i \<longrightarrow> \<not> is_writing (kids s ! j)" by auto
  have "\<forall>k \<in> set ((kids s)[i := Unlocked]). \<not> is_writing k"
    using w(3) assms(2) by (auto simp: in_set_conv_nth nth_list_update split: if_splits)

  with w assms(4) show ?thesis by (auto simp: pipe_inv_def unread_def)
qed

lemma count_list_update:
  "i < length xs \<Longrightarrow> count_list (xs[i := y]) z + (if xs ! i = z then 1 else 0) = count_list xs z + (if y = z then 1 else 0)"
proof (induction xs arbitrary: i)
  case (Cons x xs)
  show ?case
  proof (cases i)
    case (Suc j)
    with Cons.IH [of j] Cons.prems show ?thesis by (auto split: if_splits)
  qed auto
qed simp

lemma count_reaped_sent:

  assumes "hist_inv cs s"
  shows "count_list (kids s) Reaped \<le> length (sent s)"
proof -
  have "count_list (kids s) Reaped = card {i. i < length (kids s) \<and> kids s ! i = Reaped}"
    by (simp add: count_list_eq_length_filter length_filter_conv_card eq_commute)
  also have "\<dots> \<le> card {i. i < length (kids s) \<and> is_sent (kids s ! i)}"
    by (intro card_mono) auto
  also have "\<dots> = length (sent s)" using assms by (metis hist_inv_def distinct_card)
  finally show ?thesis .
qed

lemma hist_read_le: "hist_inv cs s \<Longrightarrow> nread s + (if pend s then 1 else 0) \<le> length (sent s)"
  using count_reaped_sent by (metis hist_inv_def)

lemma hist_inv_kid:
  assumes "hist_inv cs s" "i < length (kids s)" "is_sent (kids s ! i) = is_sent k" "kids s ! i \<noteq> Reaped" "k \<noteq> Reaped"
    and "kids s' = (kids s)[i := k]" "sent s' = sent s" "nread s' = nread s" "pend s' = pend s"
  shows "hist_inv cs s'"
proof -
  have "count_list (kids s') Reaped = count_list (kids s) Reaped"
    using count_list_update [OF assms(2), of k Reaped] assms(4-6) by simp
  moreover have "{j. j < length (kids s') \<and> is_sent (kids s' ! j)} = {j. j < length (kids s) \<and> is_sent (kids s ! j)}"
    using assms(2,3,6) by (auto simp: nth_list_update)
  ultimately show ?thesis using assms(1,6-9) by (simp add: hist_inv_def)
qed

text \<open>When the parent is about to read, the pipe starts with the next report in the order of writing.\<close>

lemma pend_report:
  assumes "family cs p" "sys_inv cs p s" "pend s"
  obtains p' rest where "receive_report pipe_os (par s, bytes s) = Inr (p', rest)"
    "bytes s = message (cs ! (sent s ! nread s)) @ rest" "nread s < length (sent s)"
    "absorb (cs ! (sent s ! nread s)) (par s) = Inr p'"
proof -
  have h: "hist_inv cs s" and pi: "pipe_inv cs s" and pa: "par_inv cs p s"
    using assms(2) by (simp_all add: sys_inv_def)
  let ?n = "nread s"
  have n: "?n < length (sent s)" using hist_read_le [OF h] assms(3) by simp
  let ?i = "sent s ! ?n"
  have js: "distinct (take (Suc ?n) (sent s))" "set (take (Suc ?n) (sent s)) \<subseteq> {..<length cs}"
    using h set_take_subset [of "Suc ?n" "sent s"] by (auto simp: hist_inv_def)
  have tk: "take (Suc ?n) (sent s) = take ?n (sent s) @ [?i]" using n by (simp add: take_Suc_conv_app_nth)
  note fam = family_sub [OF assms(1) js]
  have "foldR absorb (map ((!) cs) (take (Suc ?n) (sent s))) p = bindR (Inr (par s)) (foldR absorb [cs ! ?i])"
    using pa unfolding par_inv_def tk map_append foldR_append by (simp only: list.map)
  with absorb_list [OF fam] obtain p' where p': "absorb (cs ! ?i) (par s) = Inr p'"
    by (auto simp: bindR_eq_Inr)
  have "family (map ((!) cs) (take ?n (sent s))) p"
    using h set_take_subset [of ?n "sent s"] by (intro family_sub [OF assms(1)]) (auto simp: hist_inv_def)
  from absorb_list [OF this] pa have "parent_ok (par s)" by (auto simp: par_inv_def)
  then obtain b where b: "qb (par s) = Some b" by (auto simp: parent_ok_def)
  have "?i < length cs" using js(2) tk by auto
  then have rep: "reportable (cs ! ?i)" using assms(1) by (simp add: family_def)
  have "unread cs s = message (cs ! ?i) @ concat (map (\<lambda>i. message (cs ! i)) (drop (Suc ?n) (sent s)))"
    using n by (simp add: unread_def flip: Cons_nth_drop_Suc)
  then obtain rest where rest: "bytes s = message (cs ! ?i) @ rest"
    using pi by (auto simp: pipe_inv_def)
  from receive_message [OF rep b, of rest] p' rest n that show thesis by simp
qed

lemma par_inv_keep:
  "par_inv cs p s \<Longrightarrow> par s' = par s \<Longrightarrow> nread s' = nread s \<Longrightarrow> take (nread s) (sent s') = take (nread s) (sent s) \<Longrightarrow>
   par_inv cs p s'"
  by (simp add: par_inv_def)

lemma sys_inv_receive:
  assumes fam: "family cs p" and inv: "sys_inv cs p s" and "pend s"
    and rc: "receive_report pipe_os (par s, bytes s) = Inr (q, r)"
  shows "sys_inv cs p (s\<lparr>par := q, bytes := r, pend := False, nread := nread s + 1\<rparr>)"
proof -
  let ?s = "s\<lparr>par := q, bytes := r, pend := False, nread := nread s + 1\<rparr>"
  let ?i = "sent s ! nread s"
  from pend_report [OF fam inv \<open>pend s\<close>] rc have
    r: "bytes s = message (cs ! ?i) @ r" and n: "nread s < length (sent s)"
    and q: "absorb (cs ! ?i) (par s) = Inr q"
    by (metis Inr_inject Pair_inject)+
  have un: "unread cs s = message (cs ! ?i) @ unread cs ?s"
    using n by (simp add: unread_def flip: Cons_nth_drop_Suc)
  have "pipe_inv cs ?s"
    using inv [unfolded sys_inv_def pipe_inv_def]
  proof (elim conjE disjE exE)
    assume "sem s = 1" "\<forall>k \<in> set (kids s). \<not> is_writing k" "bytes s = unread cs s"
    then show ?thesis using r un by (simp add: pipe_inv_def)
  next
    fix i x y
    assume "sem s = 0" "i < length (kids s)" "kids s ! i = Writing y" "message (cs ! i) = x @ y"
      "bytes s = unread cs s @ x" "\<forall>j < length (kids s). j \<noteq> i \<longrightarrow> \<not> is_writing (kids s ! j)"
    then show ?thesis using r un
      unfolding pipe_inv_def by (intro disjI2 conjI exI [of _ i] exI [of _ x] exI [of _ y]) simp_all
  qed
  moreover have "hist_inv cs ?s" using inv \<open>pend s\<close> by (simp add: sys_inv_def hist_inv_def)
  moreover have "par_inv cs p ?s"
    using inv q n by (simp add: sys_inv_def par_inv_def take_Suc_conv_app_nth foldR_append)
  ultimately show ?thesis by (simp add: sys_inv_def)
qed

lemma sys_inv_step:
  assumes fam: "family cs p" and inv: "sys_inv cs p s" and st: "sys_step cap cs s s'"
  shows "sys_inv cs p s'"
proof -
  have h: "hist_inv cs s" and pi: "pipe_inv cs s" and pa: "par_inv cs p s"
    using inv by (simp_all add: sys_inv_def)
  from st show ?thesis
  proof cases
    case (do_lock i)
    then show ?thesis unfolding sys_inv_def do_lock(1)
      using pipe_inv_lock [OF pi do_lock(2,4)]
      by (intro conjI hist_inv_kid [OF h do_lock(2)] par_inv_keep [OF pa]) simp_all
  next
    case (do_write i x y)
    then show ?thesis unfolding sys_inv_def do_write(1)
      using pipe_inv_write [OF pi do_write(2,3)]
      by (intro conjI hist_inv_kid [OF h do_write(2)] par_inv_keep [OF pa]) simp_all
  next
    case (do_unlock i)
    have le: "nread s \<le> length (sent s)" using hist_read_le [OF h] by simp
    have "i \<notin> set (sent s)" using h do_unlock(2,3) by (simp add: hist_inv_def)
    moreover have "count_list ((kids s)[i := Unlocked]) Reaped = count_list (kids s) Reaped"
      using count_list_update [OF do_unlock(2), of Unlocked Reaped] do_unlock(3) by simp
    moreover have "insert i (set (sent s)) =
        {j. j < length (kids s) \<and> is_sent ((kids s)[i := Unlocked] ! j)}"
      using h do_unlock(2) by (auto simp: hist_inv_def nth_list_update)
    ultimately have "hist_inv cs s'" using h do_unlock(1) by (auto simp: hist_inv_def)
    then show ?thesis unfolding sys_inv_def do_unlock(1)
      using pipe_inv_unlock [OF pi do_unlock(2,3) le] le par_inv_keep [OF pa] by simp
  next
    case (do_exit i)
    then show ?thesis unfolding sys_inv_def do_exit(1)
      using pipe_inv_quiet [OF pi do_exit(2), of Zombie]
      by (intro conjI hist_inv_kid [OF h do_exit(2)] par_inv_keep [OF pa]) (simp_all add: unread_def)
  next
    case (do_reap i)
    have "count_list ((kids s)[i := Reaped]) Reaped = count_list (kids s) Reaped + 1"
      using count_list_update [OF do_reap(2), of Reaped Reaped] do_reap(3) by simp
    moreover have "{j. j < length (kids s) \<and> is_sent ((kids s)[i := Reaped] ! j)} =
        {j. j < length (kids s) \<and> is_sent (kids s ! j)}"
      using do_reap(2,3) by (auto simp: nth_list_update)
    ultimately have "hist_inv cs s'" using h do_reap(1,4) by (auto simp: hist_inv_def)
    moreover have "pipe_inv cs s'"
      using pipe_inv_quiet [OF pi do_reap(2), of Reaped s'] do_reap(1,3) by (simp add: unread_def)
    ultimately show ?thesis unfolding sys_inv_def do_reap(1)
      using par_inv_keep [OF pa] by simp
  next
    case (do_receive q r)
    from sys_inv_receive [OF fam inv do_receive(2,3)] show ?thesis unfolding do_receive(1) .
  qed
qed

lemma sys_inv_reachable:
  assumes "family cs p" and "(sys_step cap cs)\<^sup>*\<^sup>* (sys_init cs p) s"
  shows "sys_inv cs p s"
  using assms(2) by (induction rule: rtranclp_induct) (auto intro: sys_inv_init sys_inv_step [OF assms(1)])

section \<open>The properties\<close>


text \<open>
  C3: the collected report is the sum.  When the parent's loop ends, in whatever order the children wrote,
  it has read one report of every child and nothing is left in the pipe: each type's count is the
  parent's own plus those of all children, and so are the number of clients and the total of the connect
  times; the largest connect time is that of the children and the parent's initial value.
\<close>

theorem collected_sums:
  assumes "family cs p" and "(sys_step cap cs)\<^sup>*\<^sup>* (sys_init cs p) s" and "collected s"
  shows "bytes s = [] \<and> sem s = 1 \<and> nread s = length cs
    \<and> num_reported_clients (par s) = num_reported_clients p + int (length cs)
    \<and> total_connect_time (par s) = total_connect_time p + sum_list (map connect_time cs)
    \<and> max_connect_time (par s) = Max (insert (max_connect_time p) (connect_time ` set cs))
    \<and> (\<forall>k. count k (par s) = count k p + sum_list (map (count k) cs))"
proof -
  have inv: "pipe_inv cs s" "hist_inv cs s" "par_inv cs p s"
    using sys_inv_reachable [OF assms(1,2)] by (simp_all add: sys_inv_def)
  have reaped: "kids s ! i = Reaped" if "i < length (kids s)" for i
    using assms(3) that by (simp add: collected_def)
  have len: "length (kids s) = length cs" and dist: "distinct (sent s)" using inv(2) by (simp_all add: hist_inv_def)
  have set: "set (sent s) = {..<length cs}" using inv(2) reaped len by (auto simp: hist_inv_def)
  then have ls: "length (sent s) = length cs" using dist by (metis card_lessThan distinct_card)
  have "kids s = replicate (length cs) Reaped" using reaped len by (intro nth_equalityI) simp_all
  then have nr: "nread s = length cs"
    using inv(2) assms(3) by (simp add: hist_inv_def collected_def count_list_eq_length_filter)
  then have "unread cs s = []" using ls by (simp add: unread_def)
  then have pipe: "bytes s = [] \<and> sem s = 1"
    using inv(1) [unfolded pipe_inv_def]
  proof (elim disjE conjE exE)
    fix i y assume "i < length (kids s)" "kids s ! i = Writing y"
    with reaped [of i] show ?thesis by simp
  qed simp

  let ?ds = "map ((!) cs) (sent s)"
  have fam: "family ?ds p" using assms(1) dist set by (intro family_sub) simp_all
  have sd: "set ?ds = set cs" using nth_image [of "length cs" cs] by (simp add: set lessThan_atLeast0)

  from absorb_list [OF fam] inv(3) nr ls
  have "num_reported_clients (par s) = num_reported_clients p + int (length ?ds)"
    "total_connect_time (par s) = total_connect_time p + sum_list (map connect_time ?ds)"
    "max_connect_time (par s) = fold max (map connect_time ?ds) (max_connect_time p)"
    "\<forall>k. count k (par s) = count k p + sum_list (map (count k) ?ds)"
    by (auto simp: par_inv_def)
  moreover have "fold max (map connect_time ?ds) (max_connect_time p) =
      Max (insert (max_connect_time p) (connect_time ` set cs))"
  proof -
    have "set (map connect_time ?ds) = connect_time ` set cs" unfolding set_map [of connect_time] sd ..
    then show ?thesis
      using Max.set_eq_fold [of "max_connect_time p" "map connect_time ?ds"] by (simp only: list.simps(15))
  qed
  ultimately show ?thesis using pipe nr ls all_sum [OF dist set] by simp
qed

text \<open>
  The collection cannot get stuck: if the pipe has room for one report, in every reachable state in which
  the parent is not done some process can take a step.
\<close>

lemma collection_step:
  assumes "family cs p" and "(sys_step cap cs)\<^sup>*\<^sup>* (sys_init cs p) s"
    and cap: "4 + MAX_REPORT_LEN \<le> cap"
  shows "collected s \<or> (\<exists>s'. sys_step cap cs s s')"
proof (rule disjCI)
  assume stuck: "\<nexists>s'. sys_step cap cs s s'"
  have inv: "sys_inv cs p s" by (rule sys_inv_reachable [OF assms(1,2)])
  have pi: "pipe_inv cs s" and h: "hist_inv cs s" using inv by (simp_all add: sys_inv_def)
  have np: "\<not> pend s" using pend_report [OF assms(1) inv] stuck do_receive by metis
  have nz: "kids s ! i \<noteq> Zombie" and nu: "kids s ! i \<noteq> Unlocked" if "i < length (kids s)" for i
    using stuck do_reap [OF that _ np] do_exit [OF that] by blast+
  have nw: "\<not> is_writing (kids s ! i)" if i: "i < length (kids s)" for i
  proof
    assume "is_writing (kids s ! i)"
    then obtain z where z: "kids s ! i = Writing z" by (auto simp: is_writing_def split: phase.splits)
    with stuck do_unlock [OF i] obtain a z' where zz: "z = a # z'" by (cases z) blast+
    from pipe_inv_writer [OF pi i z] obtain x where
      x: "message (cs ! i) = x @ z" "bytes s = unread cs s @ x" by blast
    have "is_sent (kids s ! j) \<longleftrightarrow> kids s ! j = Reaped" if "j < length (kids s)" for j
      using nz [OF that] nu [OF that] by (cases "kids s ! j") simp_all
    then have
 "{j. j < length (kids s) \<and> is_sent (kids s ! j)} = {j. j < length (kids s) \<and> kids s ! j = Reaped}"
      by auto
    then have "length (sent s) = count_list (kids s) Reaped"
      using h by (simp add: hist_inv_def count_list_eq_length_filter length_filter_conv_card eq_commute)
         (metis distinct_card)
    then have "unread cs s = []" using h np by (simp add: unread_def hist_inv_def)
    moreover have "i < length cs" using i h by (simp add: hist_inv_def)
    then have "length (message (cs ! i)) \<le> cap"
      using message_length [of "cs ! i"] assms(1) cap by (force simp: family_def)
    ultimately have "length (bytes s) + length [a] \<le> cap" using x zz by simp
    with stuck do_write [OF i, of "[a]" z' cap cs] z zz show False by auto
  qed
  have "kids s ! i \<noteq> Ready" if i: "i < length (kids s)" for i
  proof
    assume "kids s ! i = Ready"
    moreover have "0 < sem s" using pi nw unfolding pipe_inv_def by force
    ultimately show False using stuck do_lock [OF i] by blast
  qed
  with nz nu nw have "kids s ! i = Reaped" if "i < length (kids s)" for i
    using that by (cases "kids s ! i") fastforce+
  then show "collected s" using np by (auto simp: collected_def in_set_conv_nth)
qed

text \<open>The work left: what is still to be written, and the steps after it.\<close>

fun phase_work :: "client \<Rightarrow> phase \<Rightarrow> nat" where
  "phase_work c Ready = length (message c) + 5"
| "phase_work c (Writing y) = length y + 4"
| "phase_work c Unlocked = 3"
| "phase_work c Zombie = 2"
| "phase_work c Reaped = 0"

definition work :: "client list \<Rightarrow> system \<Rightarrow> nat" where
  "work cs s = sum_list (map2 phase_work cs (kids s)) + (if pend s then 1 else 0)"

lemma sum_list_update_nat:
  "i < length xs \<Longrightarrow> i < length cs \<Longrightarrow>
   sum_list (map2 f cs (xs[i := y])) + f (cs ! i) (xs ! i) = sum_list (map2 f cs xs) + (f (cs ! i) y :: nat)"
proof (induction cs arbitrary: xs i)
  case (Cons c cs)
  then obtain x xs' where xs: "xs = x # xs'" by (cases xs) auto
  show ?case
  proof (cases i)
    case (Suc j)
    with Cons xs show ?thesis by (fastforce simp: algebra_simps)
  qed (simp add: xs)
qed simp

lemma work_step:
  assumes "length (kids s) = length cs" "sys_step cap cs s s'"
  shows "work cs s' < work cs s \<and> length (kids s') = length cs"
  using assms(2)
proof cases
  case (do_lock i)
  then show ?thesis
    using sum_list_update_nat [of i "kids s" cs phase_work "Writing (message (cs ! i))"] assms(1)
    by (simp add: work_def)
next
  case (do_write i x y)
  then obtain a z where x: "x = a # z" by (cases x) auto
  show ?thesis
    using sum_list_update_nat [of i "kids s" cs phase_work "Writing y"] assms(1) do_write
    by (simp add: work_def x)
next
  case (do_unlock i)
  then show ?thesis
    using sum_list_update_nat [of i "kids s" cs phase_work Unlocked] assms(1) by (simp add: work_def)
next
  case (do_exit i)
  then show ?thesis
    using sum_list_update_nat [of i "kids s" cs phase_work Zombie] assms(1) by (simp add: work_def)
next
  case (do_reap i)
  then show ?thesis
    using sum_list_update_nat [of i "kids s" cs phase_work Reaped] assms(1) by (simp add: work_def)
next
  case (do_receive q r)
  with assms(1) show ?thesis by (simp add: work_def)
qed

lemma collection_bound:
  assumes "(sys_step cap cs ^^ n) (sys_init cs p) s"
  shows "n \<le> sum_list (map (\<lambda>c. length (message c) + 5) cs)"
proof -
  have run: "(sys_step cap cs ^^ n) s0 s \<Longrightarrow> length (kids s0) = length cs \<Longrightarrow> work cs s + n \<le> work cs s0" for s0 s n
  proof (induction n arbitrary: s)
    case (Suc n)
    then obtain s1 where s1: "(sys_step cap cs ^^ n) s0 s1" "sys_step cap cs s1 s" by auto
    have "length (kids s1) = length cs"
      using s1(1) Suc.prems(2)
      by (induction n arbitrary: s1) (auto dest: work_step [rotated])
    with Suc.IH [OF s1(1) Suc.prems(2)] work_step [OF _ s1(2)] show ?case by fastforce
  qed simp
  have "map2 phase_work cs (replicate (length cs) Ready) = map (\<lambda>c. length (message c) + 5) cs"
    by (induction cs) simp_all
  then have "work cs (sys_init cs p) = sum_list (map (\<lambda>c. length (message c) + 5) cs)"
    by (simp add: work_def sys_init_def)
  with run [OF assms] show ?thesis by (simp add: sys_init_def)
qed

lemma collection_finishes:
  assumes fam: "family cs p" and "(sys_step cap cs)\<^sup>*\<^sup>* (sys_init cs p) s" and cap: "4 + MAX_REPORT_LEN \<le> cap"
  shows "\<exists>s'. (sys_step cap cs)\<^sup>*\<^sup>* s s' \<and> collected s'"
proof -
  have run: "\<exists>s'. (sys_step cap cs)\<^sup>*\<^sup>* s s' \<and> collected s'"
    if "(sys_step cap cs)\<^sup>*\<^sup>* (sys_init cs p) s" "length (kids s) = length cs" for s
    using that
  proof (induction "work cs s" arbitrary: s rule: less_induct)
    case less
    show ?case
    proof (cases "collected s")
      case False
      with collection_step [OF fam less.prems(1) cap] obtain s1 where s1: "sys_step cap cs s s1" by blast
      from less.hyps [OF _ rtranclp.rtrancl_into_rtrancl [OF less.prems(1) s1]] work_step [OF less.prems(2) s1]
      show ?thesis using converse_rtranclp_into_rtranclp [of "sys_step cap cs", OF s1] by blast
    qed blast
  qed
  from run [OF assms(2)] sys_inv_reachable [OF fam assms(2)] show ?thesis
    by (simp add: sys_inv_def hist_inv_def)
qed

text \<open>
  C5: the collection always ends, with all reports collected.  A run takes at most as many steps as the
  reports have bytes, plus five for each child; and from wherever it stands a run can be continued to a
  state in which the parent has returned from its loop.
\<close>

theorem collection_terminates:
  assumes "family cs p" and "(sys_step cap cs ^^ n) (sys_init cs p) s" and "4 + MAX_REPORT_LEN \<le> cap"
  shows "n \<le> sum_list (map (\<lambda>c. length (message c) + 5) cs)
    \<and> (\<exists>s'. (sys_step cap cs)\<^sup>*\<^sup>* s s' \<and> collected s')"
  using collection_bound [OF assms(2)] collection_finishes [OF assms(1) relpowp_imp_rtranclp [OF assms(2)] assms(3)]
  by blast

section \<open>An example\<close>

text \<open>A parent with one query type and children that have run some queries of it.\<close>

definition example_kid :: "int \<Rightarrow> int \<Rightarrow> client" where
  "example_kid n t = new_Client\<lparr>connect_time := t,
     qb := Some (new_Query_barrel\<lparr>qr := example_report ''s'' n 0 0\<rparr>)\<rparr>"

lemma example_kid_simps:
  "rep (example_kid n t) = [(''s'', Some \<lparr>num_queries = n, min_time = 0, max_time = 0\<rparr>)]"
  "connect_time (example_kid n t) = t"
  "count k (example_kid n t) = (if k = ''s'' then n else 0)"
  "num_reported_clients (example_kid n t) = 0" "total_connect_time (example_kid n t) = 0"
  "max_connect_time (example_kid n t) = 0"
  "qb (example_kid n t) = Some (new_Query_barrel\<lparr>qr := example_report ''s'' n 0 0\<rparr>)"
  by (simp_all add: example_kid_def rep_def count_def example_report_def new_Query_report_def smap_find_def
      new_Client_def)

abbreviation example_kids :: "client list" where
  "example_kids \<equiv> [example_kid 5 2, example_kid 7 1]"

abbreviation example_start :: system where
  "example_start \<equiv> sys_init example_kids (example_kid 0 0)"

lemma example_family: "family example_kids (example_kid 0 0)"
  by (simp add: family_def parent_ok_def reportable_def example_kid_simps smap_ok_def no_nulls_def
      sendable_def int_range_defs MAX_REPORT_LEN_def)

lemma example_cap: "4 + MAX_REPORT_LEN \<le> 1028"
  by (simp add: MAX_REPORT_LEN_def)

lemma example_run: "\<exists>s. (sys_step 1028 example_kids)\<^sup>*\<^sup>* example_start s \<and> collected s"
  using collection_finishes [OF example_family rtranclp.rtrancl_refl example_cap] .


theorem collected_sums_witness:
  "\<exists>s. (sys_step 1028 example_kids)\<^sup>*\<^sup>* example_start s \<and> bytes s = [] \<and>
     num_reported_clients (par s) = 2 \<and> total_connect_time (par s) = 3 \<and> max_connect_time (par s) = 2 \<and>
     count ''s'' (par s) = 12"
proof -
  obtain s where s: "(sys_step 1028 example_kids)\<^sup>*\<^sup>* example_start s" "collected s" using example_run by blast
  from collected_sums [OF example_family s] s(1) show ?thesis
    by (intro exI [of _ s]) (simp add: example_kid_simps)
qed

lemma example_lock:
  "sys_step cap example_kids example_start
     (example_start\<lparr>kids := [Writing (message (example_kid 5 2)), Ready], sem := 0\<rparr>)"
  using do_lock [of 0 example_start cap example_kids] by (simp add: sys_init_def)

theorem collection_terminates_witness:
  "\<exists>s s'. (sys_step 1028 example_kids ^^ 1) example_start s \<and> (sys_step 1028 example_kids)\<^sup>*\<^sup>* s s' \<and> collected s'"
proof -
  let ?s = "example_start\<lparr>kids := [Writing (message (example_kid 5 2)), Ready], sem := 0\<rparr>"
  have "(sys_step 1028 example_kids ^^ 1) example_start ?s" unfolding relpowp_1 by (rule example_lock)
  with collection_terminates [OF example_family this example_cap] show ?thesis by blast
qed

section \<open>Another client's start\<close>

text \<open>
  All clients of a script share the semaphore (one key for the directory), and each sets it to one when it
  starts: \<open>setup_pipe\<close>.  The same system with that step from outside.
\<close>

inductive reset_step :: "nat \<Rightarrow> client list \<Rightarrow> system \<Rightarrow> system \<Rightarrow> bool" for cap cs where
  own: "sys_step cap cs s s' \<Longrightarrow> reset_step cap cs s s'"
| other_setup: "reset_step cap cs s (s\<lparr>sem := 1\<rparr>)"

lemma example_message: "message (example_kid n t) = int_bytes t @ tl (tl (tl (tl (message (example_kid n t)))))"
  if "in_int n" "in_int t" for n t
proof -
  have "reportable (example_kid n t)"
    using that by (simp add: reportable_def example_kid_simps smap_ok_def sendable_def int_range_defs
        MAX_REPORT_LEN_def)
  then show ?thesis by (simp add: message_eq example_kid_simps int_bytes_def Let_def)
qed

text \<open>
  C37: a second client's start breaks the separation.  If another client is initialised while a child
  holds the semaphore, a second child can write into the middle of the first one's report: a state is
  reachable in which the pipe does not start with a report.
\<close>

theorem reset_mixes_reports:
  "\<exists>s. (reset_step 4096 example_kids)\<^sup>*\<^sup>* example_start s \<and> sent s = [1] \<and> nread s = 0
     \<and> is_writing (kids s ! 0) \<and> \<not> (\<exists>x. bytes s = unread example_kids s @ x)"
proof -
  let ?cs = example_kids
  let ?m0 = "message (example_kid 5 2)" and ?m1 = "message (example_kid 7 1)"
  obtain z where m0: "?m0 = CHR 0x02 # z"
    using example_message [of 5 2] by (auto simp: int_range_defs int_bytes_def Let_def char_of_def bit_iff_odd)
  obtain z1 where m1: "?m1 = CHR 0x01 # z1"
    using example_message [of 7 1] by (auto simp: int_range_defs int_bytes_def Let_def char_of_def bit_iff_odd)
  let ?s = "\<lambda>k b n js. example_start\<lparr>kids := k, bytes := b, sem := n, sent := js\<rparr>"
  let ?go = "reset_step 4096 ?cs"
  have ok: "reportable (example_kid 7 1)" using example_family by (simp add: family_def)
  have len: "length ?m1 \<le> 1028" using message_length [OF ok] by (simp add: MAX_REPORT_LEN_def)
  have 1: "?go example_start (?s [Writing ?m0, Ready] [] 0 [])"
    using do_lock [of 0 example_start 4096 ?cs] by (intro own) (simp add: sys_init_def)
  have 2: "?go (?s [Writing ?m0, Ready] [] 0 []) (?s [Writing z, Ready] [CHR 0x02] 0 [])"
    using do_write [of 0 "?s [Writing ?m0, Ready] [] 0 []" "[CHR 0x02]" z 4096 ?cs] m0
    by (intro own) (simp add: sys_init_def)
  have 3: "?go (?s [Writing z, Ready] [CHR 0x02] 0 []) (?s [Writing z, Ready] [CHR 0x02] 1 [])"
    using other_setup [of 4096 ?cs "?s [Writing z, Ready] [CHR 0x02] 0 []"] by (simp add: sys_init_def)

  have 4: "?go (?s [Writing z, Ready] [CHR 0x02] 1 []) (?s [Writing z, Writing ?m1] [CHR 0x02] 0 [])"
    using do_lock [of 1 "?s [Writing z, Ready] [CHR 0x02] 1 []" 4096 ?cs] by (intro own) (simp add: sys_init_def)
  have 5: "?go (?s [Writing z, Writing ?m1] [CHR 0x02] 0 []) (?s [Writing z, Writing []] (CHR 0x02 # ?m1) 0 [])"
    using do_write [of 1 "?s [Writing z, Writing ?m1] [CHR 0x02] 0 []" ?m1 "[]" 4096 ?cs] m1 len
    by (intro own) (simp add: sys_init_def)
  have 6: "?go (?s [Writing z, Writing []] (CHR 0x02 # ?m1) 0 []) (?s [Writing z, Unlocked] (CHR 0x02 # ?m1) 1 [1])"
    using do_unlock [of 1 "?s [Writing z, Writing []] (CHR 0x02 # ?m1) 0 []" 4096 ?cs]
    by (intro own) (simp add: sys_init_def)
  let ?e = "?s [Writing z, Unlocked] (CHR 0x02 # ?m1) 1 [1]"
  note into = rtranclp.rtrancl_into_rtrancl [of ?go]

  have "?go\<^sup>*\<^sup>* example_start ?e"
    by (rule into [OF into [OF into [OF into [OF into [OF r_into_rtranclp [of ?go, OF 1] 2] 3] 4] 5] 6])
  moreover have "\<nexists>x. bytes ?e = unread ?cs ?e @ x" by (simp add: unread_def m1 sys_init_def)
  ultimately show ?thesis by (intro exI [of _ ?e]) (simp add: sys_init_def)
qed


end
