(* ===== verification/Smack_Database.thy ===== *)
theory Smack_Database
  imports Smack_Client
begin

text \<open>
  \<^verbatim>\<open>src/mysql-client.cc\<close> and \<^verbatim>\<open>src/pg-client.cc\<close>: the two implementations of the virtual functions of
  \<open>Client\<close>, each as a value of \<open>db_class\<close>.  The client libraries are records of functions over the world;
  what they return is a table of values.  The PostgreSQL client keeps a pointer to its last result, which
  can be NULL, valid or already freed.
\<close>

section \<open>Result tables\<close>

text \<open>A field of a row is \<open>None\<close> when the database's value is NULL.\<close>

record res_set =
  col_names :: "string list"
  res_rows :: "string option list list"

text \<open>The text both clients write for a result: the names of the fields, then the rows.\<close>

definition cell_text :: "string option \<Rightarrow> string" where
  "cell_text v = (case v of None \<Rightarrow> ''NULL'' | Some s \<Rightarrow> s) @ [TAB]"

definition row_text :: "nat \<Rightarrow> string option list \<Rightarrow> string" where
  "row_text num_fields row = concat (map cell_text (take num_fields row)) @ [NL]"

definition result_text :: "res_set \<Rightarrow> string" where
  "result_text r =
     concat (map (\<lambda>f. c_str f @ [TAB]) (col_names r)) @ [NL] @
     concat (map (row_text (length (col_names r))) (res_rows r))"

section \<open>MySQL\<close>

text \<open>
  The library and the files: \<open>mysql_init\<close> and \<open>mysql_real_connect\<close> (host, user, password, database, port,
  socket), the error number of the connection, \<open>mysql_query\<close>, \<open>mysql_store_result\<close> (which yields all rows
  that \<open>mysql_fetch_row\<close> then gives one by one), \<open>mysql_close\<close>, \<open>mysql_escape_string\<close>; creating a file, and
  writing to a file or, for \<open>None\<close>, to the standard output.
\<close>

record 'w mysql_lib =
  my_real_connect :: "string \<Rightarrow> string \<Rightarrow> string \<Rightarrow> string \<Rightarrow> int \<Rightarrow> string option \<Rightarrow> 'w \<Rightarrow> 'w"
  my_errno :: "'w \<Rightarrow> int"
  my_query :: "string \<Rightarrow> 'w \<Rightarrow> int \<times> 'w"
  my_store_result :: "'w \<Rightarrow> res_set option \<times> 'w"
  my_close :: "'w \<Rightarrow> 'w"
  my_escape :: "string \<Rightarrow> string"
  my_create :: "string \<Rightarrow> 'w \<Rightarrow> bool \<times> 'w"
  my_output :: "string option \<Rightarrow> string \<Rightarrow> 'w \<Rightarrow> 'w"

definition mysql_check_error :: "'w mysql_lib \<Rightarrow> int \<Rightarrow> 'w \<Rightarrow> int result" where
  "mysql_check_error m fatal w =
     (let err = my_errno m w in if err \<noteq> 0 \<and> fatal \<noteq> 0 then die Database_error else Inr err)"

definition mysql_do_connect :: "'w mysql_lib \<Rightarrow> client \<Rightarrow> 'w \<Rightarrow> 'w result" where
  "mysql_do_connect m c w =
     (let w = my_real_connect m (c_str (cl_host c)) (c_str (cl_user c)) (c_str (cl_pass c)) (c_str (cl_db c))
                (atoi (c_str (cl_port c))) (if cl_socket c \<noteq> [] then Some (c_str (cl_socket c)) else None) w
      in mapR (\<lambda>_. w) (mysql_check_error m 1 w))"

definition mysql_safe_query :: "'w mysql_lib \<Rightarrow> string \<Rightarrow> int \<Rightarrow> 'w \<Rightarrow> (int \<times> 'w) result" where
  "mysql_safe_query m q abort_on_error w =
     (let (r, w) = my_query m q w
      in if r \<noteq> 0 then (if abort_on_error \<noteq> 0 then die Query_failed else Inr (-1, w)) else Inr (0, w))"

definition mysql_lose_result :: "'w mysql_lib \<Rightarrow> 'w \<Rightarrow> 'w result" where
  "mysql_lose_result m w = Inr (snd (my_store_result m w))"

text \<open>The end that \<open>compare_result\<close> and \<open>dump_result\<close> share: fetch the result and write it.\<close>

definition mysql_write_result :: "'w mysql_lib \<Rightarrow> string option \<Rightarrow> int \<Rightarrow> 'w \<Rightarrow> (int \<times> 'w) result" where
  "mysql_write_result m target abort_on_error w =
     (case my_store_result m w of
        (None, w) \<Rightarrow> mapR (\<lambda>err. (err, w)) (mysql_check_error m abort_on_error w)
      | (Some r, w) \<Rightarrow> Inr (0, my_output m target (result_text r) w))"

definition mysql_compare_result :: "'w mysql_lib \<Rightarrow> string \<Rightarrow> int \<Rightarrow> 'w \<Rightarrow> (int \<times> 'w) result" where
  "mysql_compare_result m cmp_file abort_on_error w =
     (let (opened, w) = my_create m cmp_file w
      in if \<not> opened then
           (if abort_on_error \<noteq> 0 then die (Compare_open_error cmp_file) else Inr (-1, w))
         else mysql_write_result m (Some cmp_file) abort_on_error w)"

definition mysql_dump_result :: "'w mysql_lib \<Rightarrow> string option \<Rightarrow> int \<Rightarrow> 'w \<Rightarrow> (int \<times> 'w) result" where
  "mysql_dump_result m dump_file abort_on_error w =
     (case dump_file of
        None \<Rightarrow> mysql_write_result m None abort_on_error w
      | Some f \<Rightarrow>
          let (opened, w) = my_create m f w
          in if \<not> opened then (if abort_on_error \<noteq> 0 then die (Dump_open_error f) else Inr (-1, w))
             else mysql_write_result m (Some f) abort_on_error w)"

text \<open>When the count query fails, \<open>num_rows\<close> is left alone; the second number is then not read.\<close>

definition mysql_get_table_info :: "'w mysql_lib \<Rightarrow> string \<Rightarrow> 'w \<Rightarrow> ((int \<times> int) \<times> 'w) result" where
  "mysql_get_table_info m name w =
     bindR (mysql_safe_query m (c_str (''select count(*) from '' @ name)) 0 w) (\<lambda>(r, w).
       if r \<noteq> 0 then Inr ((1, 0), w)
       else case my_store_result m w of
              (None, w) \<Rightarrow> die Store_result_failed
            | (Some rs, w) \<Rightarrow>
                (case res_rows rs of
                   [] \<Rightarrow> die No_count_result
                 | (Some v # _) # _ \<Rightarrow> Inr ((0, atoi (c_str v)), w)
                 | _ \<Rightarrow> undef Null_deref))"

definition mysql_load_table_data :: "'w mysql_lib \<Rightarrow> string \<Rightarrow> string \<Rightarrow> 'w \<Rightarrow> (int \<times> 'w) result" where
  "mysql_load_table_data m table_name data_file_name w =
     mapR (\<lambda>(_, w). (0, w))
       (mysql_safe_query m (c_str (''load data infile '' @ [SQUOTE] @ data_file_name @ [SQUOTE] @
          '' into table '' @ table_name @ '' fields terminated by '' @ [SQUOTE] @ '','' @ [SQUOTE])) 1 w)"

definition mysql_disconnect :: "'w mysql_lib \<Rightarrow> client \<Rightarrow> 'w \<Rightarrow> client \<times> 'w" where
  "mysql_disconnect m c w = (if connected c \<noteq> 0 then (c\<lparr>connected := 0\<rparr>, my_close m w) else (c, w))"

text \<open>\<open>mysql_escape_string\<close> writes a terminating NUL after the bytes it counts.\<close>

definition Mysql_client :: "'w mysql_lib \<Rightarrow> 'w db_class" where
  "Mysql_client m =
     \<lparr>do_connect = mysql_do_connect m, safe_query = mysql_safe_query m, lose_result = mysql_lose_result m,
      disconnect = mysql_disconnect m, db_escape = my_escape m, db_escape_extra = 1,
      get_table_info = mysql_get_table_info m, load_table_data = mysql_load_table_data m,
      dump_result = mysql_dump_result m\<rparr>"

section \<open>PostgreSQL\<close>

text \<open>
  The library: \<open>PQsetdbLogin\<close> (host, port, database, user, password) with the answer of \<open>PQstatus\<close>;
  \<open>PQexec\<close>, given whether the connection pointer is set, with the answer of \<open>PQresultStatus\<close> and the
  table; \<open>PQfinish\<close>; files as above.
\<close>

record 'w pg_lib =
  pq_login :: "string \<Rightarrow> string \<Rightarrow> string \<Rightarrow> string \<Rightarrow> string \<Rightarrow> 'w \<Rightarrow> bool \<times> 'w"
  pq_exec :: "bool \<Rightarrow> string \<Rightarrow> 'w \<Rightarrow> (bool \<times> res_set) option \<times> 'w"
  pq_finish :: "'w \<Rightarrow> 'w"
  pq_create :: "string \<Rightarrow> 'w \<Rightarrow> bool \<times> 'w"
  pq_output :: "string \<Rightarrow> string \<Rightarrow> 'w \<Rightarrow> 'w"

datatype res_ptr = Null | Live res_set | Dangling

record 'w pg =
  pg_con :: bool
  pg_res :: res_ptr
  pg_world :: 'w

definition new_Pg_client :: "'w \<Rightarrow> 'w pg" where
  "new_Pg_client w = \<lparr>pg_con = False, pg_res = Null, pg_world = w\<rparr>"

definition pg_disconnect :: "'w pg_lib \<Rightarrow> client \<Rightarrow> 'w pg \<Rightarrow> client \<times> 'w pg" where
  "pg_disconnect p c s =
     (c, if pg_con s then s\<lparr>pg_con := False, pg_world := pq_finish p (pg_world s)\<rparr> else s)"

definition pg_do_connect :: "'w pg_lib \<Rightarrow> client \<Rightarrow> 'w pg \<Rightarrow> 'w pg result" where
  "pg_do_connect p c s =
     (let (good, w) = pq_login p (c_str (cl_host c)) (c_str (cl_port c)) (c_str (cl_db c)) (c_str (cl_user c))
                        (c_str (cl_pass c)) (pg_world s);
          s = s\<lparr>pg_con := True, pg_world := w\<rparr>
      in if good then Inr s else Inl (Exited 1))"

text \<open>\<open>PQclear\<close> on the pointer as it stands.\<close>

definition pq_clear :: "res_ptr \<Rightarrow> unit result" where
  "pq_clear r = (case r of Dangling \<Rightarrow> undef Use_after_free | _ \<Rightarrow> Inr ())"

definition pg_lose_result :: "'w pg \<Rightarrow> 'w pg result" where
  "pg_lose_result s =
     (case pg_res s of Null \<Rightarrow> Inr s | r \<Rightarrow> mapR (\<lambda>_. s\<lparr>pg_res := Null\<rparr>) (pq_clear r))"

definition pg_safe_query :: "'w pg_lib \<Rightarrow> string \<Rightarrow> int \<Rightarrow> 'w pg \<Rightarrow> (int \<times> 'w pg) result" where
  "pg_safe_query p q abort_on_error s =
     bindR (pq_clear (pg_res s)) (\<lambda>_.
       let (r, w) = pq_exec p (pg_con s) q (pg_world s);
           s = s\<lparr>pg_res := (case r of None \<Rightarrow> Null | Some (_, rs) \<Rightarrow> Live rs), pg_world := w\<rparr>
       in if (case r of None \<Rightarrow> True | Some (ok, _) \<Rightarrow> \<not> ok) then
            bindR (pg_lose_result s) (\<lambda>s. if abort_on_error \<noteq> 0 then die Query_failed else Inr (-1, s))
          else Inr (0, s))"

text \<open>\<open>PQgetvalue(res, 0, 0)\<close>: the empty string for a NULL value, a NULL pointer when there is no row.\<close>

definition pg_get_table_info :: "'w pg_lib \<Rightarrow> string \<Rightarrow> 'w pg \<Rightarrow> ((int \<times> int) \<times> 'w pg) result" where
  "pg_get_table_info p name s =
     bindR (pg_safe_query p (c_str (''select count(*) from '' @ name)) 0 s) (\<lambda>(r, s).
       if r \<noteq> 0 then Inr ((1, 0), s)
       else bindR (case pg_res s of
                     Live rs \<Rightarrow> (case res_rows rs of
                                  (v # _) # _ \<Rightarrow> Inr (atoi (c_str (case v of None \<Rightarrow> '''' | Some x \<Rightarrow> x)))
                                | _ \<Rightarrow> undef Null_deref)
                   | _ \<Rightarrow> undef Null_deref) (\<lambda>n.
            mapR (\<lambda>s. ((0, n), s)) (pg_lose_result s)))"

definition pg_load_table_data :: "'w pg_lib \<Rightarrow> string \<Rightarrow> string \<Rightarrow> 'w pg \<Rightarrow> (int \<times> 'w pg) result" where
  "pg_load_table_data p table_name data_file_name s =
     bindR (pg_safe_query p (c_str (''copy '' @ table_name @ '' from '' @ [SQUOTE] @ data_file_name @
       [SQUOTE] @ '' delimiters '' @ [SQUOTE] @ '','' @ [SQUOTE] @ '' '')) 1 s) (\<lambda>(_, s).
     mapR (\<lambda>(_, s). (0, s)) (pg_safe_query p (c_str (''grant all on '' @ table_name @ '' to public'')) 1 s))"

definition pg_compare_result :: "string \<Rightarrow> int \<Rightarrow> 'w pg \<Rightarrow> (int \<times> 'w pg) result" where
  "pg_compare_result cmp_file abort_on_error s = die Compare_unsupported"

text \<open>
  Without a file the stream is never opened and everything written to it is lost.  At the end the result is
  freed, but the pointer keeps its value.
\<close>

definition pg_dump_result :: "'w pg_lib \<Rightarrow> string option \<Rightarrow> int \<Rightarrow> 'w pg \<Rightarrow> (int \<times> 'w pg) result" where
  "pg_dump_result p dump_file abort_on_error s =
     (let (opened, w) = (case dump_file of None \<Rightarrow> (True, pg_world s) | Some f \<Rightarrow> pq_create p f (pg_world s));
          s = s\<lparr>pg_world := w\<rparr>
      in if \<not> opened then
           (if abort_on_error \<noteq> 0 then die (Dump_open_error (the dump_file)) else Inr (-1, s))
         else case pg_res s of
                Null \<Rightarrow> undef Null_deref
              | Dangling \<Rightarrow> undef Use_after_free
              | Live rs \<Rightarrow>
                  Inr (0, s\<lparr>pg_res := Dangling,
                            pg_world := (case dump_file of None \<Rightarrow> pg_world s
                                         | Some f \<Rightarrow> pq_output p f (result_text rs) (pg_world s))\<rparr>))"

text \<open>The class inherits the escaping function of \<open>Client\<close>.\<close>

definition Pg_client :: "'w pg_lib \<Rightarrow> 'w pg db_class" where
  "Pg_client p =
     \<lparr>do_connect = pg_do_connect p, safe_query = pg_safe_query p, lose_result = pg_lose_result,
      disconnect = pg_disconnect p, db_escape = escape_string, db_escape_extra = 0,
      get_table_info = pg_get_table_info p, load_table_data = pg_load_table_data p,
      dump_result = pg_dump_result p\<rparr>"

text \<open>System calls beside the state of the PostgreSQL client, which they do not touch.\<close>

definition on_world :: "('w \<Rightarrow> 'a \<times> 'w) \<Rightarrow> 'w pg \<Rightarrow> 'a \<times> 'w pg" where
  "on_world f s = (let (x, w) = f (pg_world s) in (x, s\<lparr>pg_world := w\<rparr>))"

definition at_world :: "('w \<Rightarrow> 'w) \<Rightarrow> 'w pg \<Rightarrow> 'w pg" where
  "at_world f s = s\<lparr>pg_world := f (pg_world s)\<rparr>"

definition lift_os :: "'w os \<Rightarrow> 'w pg os" where
  "lift_os os =
     \<lparr>gettimeofday = on_world (gettimeofday os), os_rand = on_world (os_rand os),
      os_srand = at_world (os_srand os), os_sleep = (\<lambda>n. at_world (os_sleep os n)),
      os_usleep = (\<lambda>n. at_world (os_usleep os n)), os_fork = on_world (os_fork os),
      os_wait4 = on_world (os_wait4 os), os_pipe = on_world (os_pipe os),
      os_close = (\<lambda>fd. at_world (os_close os fd)), os_read = (\<lambda>fd n. on_world (os_read os fd n)),
      os_write = (\<lambda>fd bs. on_world (os_write os fd bs)), os_select = (\<lambda>wr fd. on_world (os_select os wr fd)),
      os_ftok = (\<lambda>s. os_ftok os (pg_world s)), os_semget = (\<lambda>k n cr. on_world (os_semget os k n cr)),
      os_setval = (\<lambda>i v. at_world (os_setval os i v)), os_semop = (\<lambda>i d. on_world (os_semop os i d)),
      os_rmid = (\<lambda>i. at_world (os_rmid os i))\<rparr>"

end
