(* ===== verification/Smack_Database_Proofs.thy ===== *)
theory Smack_Database_Proofs
  imports Smack_Database Smack_Client_Proofs Smack_Process
begin

text \<open>
  What the rest of the program relies on in a database client, as the locale \<open>database\<close>, and its two
  providers.  The predicate \<open>ready\<close> says that the client's memory is in order: always for MySQL, and for
  PostgreSQL that the result pointer does not dangle.  \<open>dump_result\<close> is not part of the contract: the
  PostgreSQL version breaks it.
\<close>

section \<open>Memory faults\<close>

abbreviation sound :: "fault \<Rightarrow> bool" where
  "sound e \<equiv> e \<noteq> Undefined Use_after_free"

lemma sound_chk [ends_rule]: "ends (\<lambda>_. True) sound (chk n)"
  by (simp add: chk_def)

lemma sound_put: "ends (\<lambda>_. True) sound (put n b s)"
  by (simp add: put_def)

lemma sound_format1: "ends (\<lambda>_. True) sound (format1 s a)"
  by (induction s a rule: format1.induct) (simp_all add: ends_rule split: option.splits prod.splits)

text \<open>Expanding a query draws from the random generator only, and frees nothing.\<close>

lemma sound_next_word:
  assumes "\<And>g. R g \<Longrightarrow> R (snd (rand g))" "R g"
  shows "ends (\<lambda>(_, _, g). R g) sound (next_word rand (d, g))"
proof (cases d)
  case (Rand_dictionary d')
  with assms show ?thesis
    by (cases "rand g") (force simp: next_word_def rand_next_word_def ends_rule Let_def)
next
  case (Unique_dictionary d')
  with assms sound_format1 show ?thesis
    by (simp add: next_word_def unique_next_word_def ends_rule chk_def)
qed (use assms in \<open>simp_all add: next_word_def seq_next_word_def ends_rule Let_def\<close>)

lemma sound_var_word:
  assumes "\<And>g. R g \<Longrightarrow> R (snd (rand g))" "R g"
  shows "ends (\<lambda>(_, _, g). R g) sound (var_word rand v ds g)"
proof -
  have "ends (\<lambda>(_, _, g). R g) sound (next_word rand (d, g))" for d
    by (rule sound_next_word [where R = R]) (use assms in auto)
  then show ?thesis
    by (simp add: var_word_def ends_rule Let_def case_prod_unfold split: option.splits)
qed

lemma sound_emit: "R (pq_gen s) \<Longrightarrow> ends (\<lambda>s. R (pq_gen s)) sound (emit n c s)"
  by (simp add: emit_def ends_rule put_def)

lemma sound_end_var:
  assumes "\<And>g. R g \<Longrightarrow> R (snd (x_rand x g))" "R (pq_gen s)"
  shows "ends (\<lambda>s. R (pq_gen s)) sound (end_var x n c s)"
proof -
  have 1: "ends (\<lambda>(_, _, g). R g) sound (var_word (x_rand x) (var_buf s) (pq_dicts s) (pq_gen s))"
    by (rule sound_var_word [where R = R]) (use assms in auto)
  show ?thesis
    unfolding end_var_def
    by (rule ends_bind [OF 1]) (auto simp: ends_rule put_escaped_def intro!: sound_emit [where R = R])
qed

lemma sound_parse_query:
  assumes "\<And>g. R g \<Longrightarrow> R (snd (x_rand x g))" "R g"
  shows "ends (\<lambda>(_, _, g). R g) sound (parse_query x n q ds g)"
proof -
  have step: "ends (\<lambda>s. R (pq_gen s)) sound (pq_step x n c s)" if "R (pq_gen s)" for c s
    using that sound_end_var [where R = R, OF assms(1)] by (simp add: pq_step_def sound_emit)
  have "ends (\<lambda>s. R (pq_gen s)) sound (pq_run x n cs s)" if "R (pq_gen s)" for cs s
    using that by (induction cs arbitrary: s) (auto intro: ends_bind step)
  from this [of "pq_start ds g"] show ?thesis
    by (simp add: parse_query_def pq_start_def assms(2))
       (rule ends_bind, assumption, simp add: ends_rule put_def)
qed

lemma sound_update_report: "ends (\<lambda>_. True) sound (update_report t n b)"
  by (simp add: update_report_def report_update_def qtr_update_def ends_rule Let_def chk_def
      split: prod.splits option.splits)

section \<open>The contract\<close>

locale database =
  fixes db :: "'w db_class" and ready :: "'w \<Rightarrow> bool"
  assumes connect_ok: "ready w \<Longrightarrow> ends ready sound (do_connect db c w)"
    and query_ok: "ready w \<Longrightarrow> ends (\<lambda>(r, w). ready w \<and> (r = 0 \<or> r = -1 \<and> a = 0)) sound (safe_query db q a w)"
    and lose_ok: "ready w \<Longrightarrow> ends ready sound (lose_result db w)"
    and disconnect_ok: "ready w \<Longrightarrow> ready (snd (disconnect db c w))"
    and table_ok: "ready w \<Longrightarrow> ends (\<lambda>(_, w). ready w) sound (get_table_info db t w)"
    and load_ok: "ready w \<Longrightarrow> ends (\<lambda>(_, w). ready w) sound (load_table_data db t f w)"
begin

lemma query_ready: "ready w \<Longrightarrow> ends (\<lambda>(_, w). ready w) sound (safe_query db q a w)"
  by (rule ends_weaken [OF query_ok]) auto

text \<open>A client of the contract: what fires queries keeps the database ready, if the clock and the random
  generator do.\<close>

lemma parsed_query_ready:
  assumes "\<And>w. ready w \<Longrightarrow> ready (snd (os_rand os w))" "ready w"
  shows "ends (\<lambda>(_, _, w). ready w) sound (safe_parsed_query db os q n a (c, w))"
proof -
  have "ends (\<lambda>(_, _, w). ready w) sound (parse_query (db_expander db os) n q (dictionaries c) w)"
    by (rule sound_parse_query [where R = ready]) (use assms in \<open>auto simp: db_expander_def\<close>)
  then show ?thesis
    unfolding safe_parsed_query_def prod.case
    by (rule ends_bind) (auto simp: ends_rule intro!: ends_weaken [OF query_ready])
qed

lemma charge_ready:
  assumes "\<And>w. ready w \<Longrightarrow> ready (snd (os_rand os w))" "ready w"
  shows "ends (\<lambda>(_, w). ready w) sound (run_charge db os q (c, w))"
proof -
  have 1: "ends (\<lambda>(_, w). ready w) sound
      (if parsed q \<noteq> 0 then mapR snd (safe_parsed_query db os (query_text q) MAX_QUERY 1 (c, w))
       else mapR (\<lambda>(n, w). (c, w)) (safe_query db (c_str (query_text q)) 1 w))"
    using parsed_query_ready [OF assms] query_ready [OF assms(2)] by (simp add: ends_rule case_prod_unfold)
  show ?thesis
    unfolding run_charge_def prod.case
    by (rule ends_bind [OF 1]) (auto simp: ends_rule intro!: ends_weaken [OF lose_ok])
qed

lemma shot_ready:
  assumes "\<And>w. ready w \<Longrightarrow> ready (snd (os_rand os w))" "\<And>w. ready w \<Longrightarrow> ready (snd (gettimeofday os w))" "ready w"
  shows "ends (\<lambda>(_, w). ready w) sound (fire_shot db os q (c, w))"
proof -
  have 1: "ends (\<lambda>(_, w). ready w) sound (run_charge db os q (c, snd (gettimeofday os w)))"
    using assms by (intro charge_ready) auto
  show ?thesis
    unfolding fire_shot_def prod.case Let_def case_prod_unfold fst_conv snd_conv
    by (rule ends_bind [OF 1])
       (auto simp: ends_rule case_prod_unfold assms(2) split: option.splits
          intro!: ends_weaken [OF sound_update_report])
qed

lemma unload_ready:
  assumes "\<And>w. ready w \<Longrightarrow> ready (snd (os_rand os w))" "\<And>w. ready w \<Longrightarrow> ready (snd (gettimeofday os w))"
    and "\<And>n w. ready w \<Longrightarrow> ready (os_sleep os n w)" "\<And>n w. ready w \<Longrightarrow> ready (os_usleep os n w)" and "ready w"
  shows "ends (\<lambda>(_, w). ready w) sound (unload_query_barrel db os (c, w))"
proof -
  have fire: "ends (\<lambda>(_, w). ready w) sound (fire db os a s)" if "ready (snd s)" for a s
  proof (cases a)
    case (Query_charge q n)
    then show ?thesis
      using that by (cases s) (auto simp: fire_def intro!: ends_repeat shot_ready assms)
  qed (use that assms(3,4) in \<open>simp add: fire_def\<close>)
  have round: "ends (\<lambda>(_, w). ready w) sound (foldR (fire db os) acts s)" if "ready (snd s)" for acts s
    by (rule ends_fold) (use that in \<open>auto intro: fire\<close>)
  show ?thesis
    using assms(5)
    by (auto simp: unload_query_barrel_def intro!: ends_repeat split: option.splits)
       (auto intro: round)
qed

end

section \<open>The providers\<close>

definition pg_ready :: "'w pg \<Rightarrow> bool" where
  "pg_ready s \<longleftrightarrow> pg_res s \<noteq> Dangling"

interpretation mysql: database "Mysql_client m" "\<lambda>w. True" for m
  by unfold_locales
     (auto simp: Mysql_client_def mysql_do_connect_def mysql_check_error_def mysql_safe_query_def
        mysql_lose_result_def mysql_get_table_info_def mysql_load_table_data_def ends_rule Let_def
        split: prod.splits option.splits list.splits)

lemma pg_query_ready:
  "pg_ready s \<Longrightarrow> ends (\<lambda>(r, s). pg_ready s \<and> (r = 0 \<or> r = -1 \<and> a = 0)) sound (pg_safe_query p q a s)"
  by (auto simp: pg_safe_query_def pg_ready_def pq_clear_def pg_lose_result_def ends_rule Let_def
      split: prod.splits option.splits res_ptr.splits)

lemma pg_lose_ready: "pg_ready s \<Longrightarrow> ends pg_ready sound (pg_lose_result s)"
  by (auto simp: pg_lose_result_def pg_ready_def pq_clear_def split: res_ptr.splits)

lemma pg_query_live:
  assumes "pg_ready s" "pg_safe_query p q a s = Inr (r, s')"
  shows "pg_ready s'"
  using pg_query_ready [OF assms(1), of a p q] assms(2) by simp

interpretation postgres: database "Pg_client p" pg_ready for p
proof unfold_locales
  fix s :: "'a pg" and c show "pg_ready s \<Longrightarrow> ends pg_ready sound (do_connect (Pg_client p) c s)"
    by (auto simp: Pg_client_def pg_do_connect_def pg_ready_def Let_def split: prod.splits)
next
  fix s :: "'a pg" and q and a :: int
  show "pg_ready s \<Longrightarrow> ends (\<lambda>(r, s). pg_ready s \<and> (r = 0 \<or> r = -1 \<and> a = 0)) sound
      (safe_query (Pg_client p) q a s)"
    using pg_query_ready by (simp add: Pg_client_def)
next
  fix s :: "'a pg" show "pg_ready s \<Longrightarrow> ends pg_ready sound (lose_result (Pg_client p) s)"
    using pg_lose_ready by (simp add: Pg_client_def)
next
  fix s :: "'a pg" and c show "pg_ready s \<Longrightarrow> pg_ready (snd (disconnect (Pg_client p) c s))"
    by (simp add: Pg_client_def pg_disconnect_def pg_ready_def)
next
  fix s :: "'a pg" and t assume r: "pg_ready s"
  show "ends (\<lambda>(_, s). pg_ready s) sound (get_table_info (Pg_client p) t s)"
    by (auto simp: Pg_client_def pg_get_table_info_def ends_rule pg_lose_result_def pq_clear_def pg_ready_def
        split: res_ptr.splits list.splits intro!: ends_weaken [OF pg_query_ready [OF r]])
next
  fix s :: "'a pg" and t f assume r: "pg_ready s"
  show "ends (\<lambda>(_, s). pg_ready s) sound (load_table_data (Pg_client p) t f s)"
    by (auto simp: Pg_client_def pg_load_table_data_def ends_rule
        intro!: ends_weaken [OF pg_query_ready [OF r]] ends_weaken [OF pg_query_ready])
qed

lemma lift_os_ready:
  "pg_ready s \<Longrightarrow> pg_ready (snd (os_rand (lift_os os) s))"
  "pg_ready s \<Longrightarrow> pg_ready (snd (gettimeofday (lift_os os) s))"
  "pg_ready s \<Longrightarrow> pg_ready (os_sleep (lift_os os) n s)"
  "pg_ready s \<Longrightarrow> pg_ready (os_usleep (lift_os os) n s)"
  by (simp_all add: lift_os_def on_world_def at_world_def pg_ready_def case_prod_unfold Let_def)

section \<open>Properties of the clients\<close>

text \<open>
  C16: a PostgreSQL client can unload its barrel without a memory fault.  When its result pointer does not
  dangle, the whole barrel is fired, with any queries, results and sleeps, without using a freed result,
  and the pointer does not dangle afterwards.
\<close>

theorem pg_barrel_sound:
  assumes "pg_ready s"
  shows "case unload_query_barrel (Pg_client p) (lift_os os) (c, s) of
      Inl e \<Rightarrow> e \<noteq> Undefined Use_after_free
    | Inr (c', s') \<Rightarrow> pg_ready s'"
  using postgres.unload_ready [of "lift_os os" s p c, OF lift_os_ready assms]
  by (auto simp: ends_def split: sum.splits)

text \<open>
  C38: a second query after a saved result frees memory twice.  \<open>dump_result\<close> of the PostgreSQL client frees
  the result but keeps the pointer, so after a \<open>run_save_result\<close> of a query with a result the client's
  next query line has undefined behaviour, whatever the query.
\<close>

theorem pg_save_then_query_crashes:
  assumes "smap_find (query_pool p) qn = Some (Some q)" "has_result_set q \<noteq> 0"
    and "run_save_result (Pg_client lib) os cname c qn f (p, s) = Inr (p', s')"
    and "NUL \<notin> set t"
  shows "execute_method (Pg_client lib) os cname ''query'' [t] c' (p', s') = undef Use_after_free"
proof -
  from assms(1-3) obtain c1 r s1 where
    d: "pg_dump_result lib (if f = ''-'' then None else Some f) 1 s1 = Inr (r, s')"
    by (auto simp: run_save_result_def smap_index_present on_client_def resultE_simps Pg_client_def
        split: prod.splits)
  then have "pg_res s' = Dangling"
    by (auto simp: pg_dump_result_def Let_def split: option.splits prod.splits res_ptr.splits if_splits)
  then show ?thesis
    by (simp add: execute_method_def need_params_def pchar_val_def on_client_def Pg_client_def
        pg_safe_query_def pq_clear_def)
qed

text \<open>A library that answers every query with one row, and a script's pool with one query.\<close>

definition example_pg :: "(nat \<times> string list) pg_lib" where
  "example_pg = \<lparr>pq_login = \<lambda>h p d u pw w. (True, w),
     pq_exec = \<lambda>con q (t, l). (Some (True, \<lparr>col_names = [''a''], res_rows = [[Some ''1'']]\<rparr>), (t, l @ [q])),
     pq_finish = \<lambda>w. w, pq_create = \<lambda>f w. (True, w), pq_output = \<lambda>f s (t, l). (t, l @ [s])\<rparr>"

definition example_save :: process where
  "example_save = new_process\<lparr>query_pool := [(''q'', Some (new_Query\<lparr>query_text := ''select 1'', has_result_set := 1\<rparr>))]\<rparr>"

theorem pg_barrel_sound_witness:
  "case unload_query_barrel (Pg_client example_pg) (lift_os example_os)
      (set_query_barrel example_barrel new_Client, new_Pg_client (0, [])) of
      Inl e \<Rightarrow> e \<noteq> Undefined Use_after_free
    | Inr (c', s') \<Rightarrow> pg_ready s'"
  using pg_barrel_sound [of "new_Pg_client (0, [])" example_pg example_os "set_query_barrel example_barrel new_Client"]
  by (simp add: new_Pg_client_def pg_ready_def)

theorem pg_save_then_query_crashes_witness:
  "\<exists>p' s'. run_save_result (Pg_client example_pg) (lift_os example_os) ''c'' new_Client ''q'' ''out''
      (example_save, new_Pg_client (0, [])) = Inr (p', s')
    \<and> execute_method (Pg_client example_pg) (lift_os example_os) ''c'' ''query'' [''select 2''] new_Client (p', s')
      = undef Use_after_free"
proof -
  let ?q = "new_Query\<lparr>query_text := ''select 1'', has_result_set := 1\<rparr>"
  have q: "smap_find (query_pool example_save) ''q'' = Some (Some ?q)"
    by (simp add: example_save_def smap_find_def)
  have "\<exists>r. run_save_result (Pg_client example_pg) (lift_os example_os) ''c'' new_Client ''q'' ''out''
      (example_save, new_Pg_client (0, [])) = Inr r"
    by (simp add: run_save_result_def smap_index_present [OF q] on_client_def safe_query_object_def new_Query_def
        Pg_client_def pg_safe_query_def pq_clear_def new_Pg_client_def example_pg_def pg_dump_result_def)
  then obtain p' s' where r: "run_save_result (Pg_client example_pg) (lift_os example_os) ''c'' new_Client ''q'' ''out''
      (example_save, new_Pg_client (0, [])) = Inr (p', s')" by auto
  from pg_save_then_query_crashes [OF q _ r, of "''select 2''" new_Client] r show ?thesis by auto
qed

text \<open>
  Comparing a result overwrites the file it should be compared with.  \<open>compare_result\<close> of the MySQL
  client does exactly what \<open>dump_result\<close> does: it creates the file and writes the result to it, and it
  returns 0 whatever the file held.
\<close>

lemma mysql_compare_is_dump:
  assumes "fst (my_create m f w)"
  shows "mysql_compare_result m f a w = mysql_dump_result m (Some f) a w"
  using assms by (simp add: mysql_compare_result_def mysql_dump_result_def case_prod_unfold Let_def)

text \<open>Reading a dump back: lines, and in a line the values that end with a tab.\<close>

definition read_dump :: "string \<Rightarrow> string list list" where
  "read_dump t = map (\<lambda>l. butlast (split_on TAB l)) (butlast (split_on NL t))"

lemma split_ended:
  "\<forall>w \<in> set ws. d \<notin> set w \<Longrightarrow> butlast (split_on d (concat (map (\<lambda>w. w @ [d]) ws))) = ws"
  by (induction ws) (auto simp: split_on_sep)

lemma row_text_alt:
  "row_text n row = concat (map (\<lambda>w. w @ [TAB]) (map (\<lambda>v. case v of None \<Rightarrow> ''NULL'' | Some s \<Rightarrow> s) (take n row))) @ [NL]"
  by (simp add: row_text_def cell_text_def [abs_def] comp_def)

definition plain :: "string \<Rightarrow> bool" where
  "plain s \<longleftrightarrow> TAB \<notin> set s \<and> NL \<notin> set s \<and> NUL \<notin> set s"

text \<open>
  C19: a dumped result can be read back.  When every row has a value for each field and no name or value
  holds a tab, a newline or a NUL, splitting the text at newlines and tabs yields the field names and then
  the rows in order, with the text NULL for a NULL value.
\<close>

theorem dump_read_back:
  assumes "\<forall>f \<in> set (col_names r). plain f" "\<forall>row \<in> set (res_rows r). length row = length (col_names r)"
    and "\<forall>row \<in> set (res_rows r). \<forall>s. Some s \<in> set row \<longrightarrow> plain s"
  shows "read_dump (result_text r) =
    col_names r # map (map (\<lambda>v. case v of None \<Rightarrow> ''NULL'' | Some s \<Rightarrow> s)) (res_rows r)"
proof -
  let ?val = "\<lambda>v. case v of None \<Rightarrow> ''NULL'' | Some s \<Rightarrow> s"
  let ?line = "\<lambda>ws. concat (map (\<lambda>w. w @ [TAB]) ws)"
  let ?tab = "col_names r # map (map ?val) (res_rows r)"
  have plain: "plain s" if "ws \<in> set ?tab" "s \<in> set ws" for ws s
    using that assms(1,3) by (auto simp: plain_def NL_def split: option.splits)
  have cs: "c_str f = f" if "f \<in> set (col_names r)" for f
    using that assms(1) by (intro c_str_id) (simp add: plain_def)
  have rows: "map (row_text (length (col_names r))) (res_rows r) = map (\<lambda>row. ?line (map ?val row) @ [NL]) (res_rows r)"
    using assms(2) by (intro map_cong refl) (simp add: row_text_alt)
  have "result_text r = concat (map (\<lambda>l. l @ [NL]) (map ?line ?tab))"
    unfolding result_text_def rows by (simp add: cs comp_def cong: map_cong)
  moreover have "NL \<notin> set (?line ws)" if "ws \<in> set ?tab" for ws
    using plain [OF that] by (auto simp: plain_def NL_def)
  then have "\<forall>l \<in> set (map ?line ?tab). NL \<notin> set l" unfolding set_map by blast

  ultimately have "butlast (split_on NL (result_text r)) = map ?line ?tab" by (simp only: split_ended)
  moreover have "map (\<lambda>l. butlast (split_on TAB l)) (map ?line ?tab) = ?tab"
    unfolding map_map comp_def
  proof (rule map_idI)
    fix ws assume "ws \<in> set ?tab"
    from plain [OF this] show "butlast (split_on TAB (?line ws)) = ws"
      by (intro split_ended) (auto simp: plain_def)
  qed
  ultimately show ?thesis unfolding read_dump_def by simp

qed

theorem dump_read_back_witness:
  "read_dump (result_text \<lparr>col_names = [''id'', ''name''], res_rows = [[Some ''1'', Some ''x''], [Some ''2'', None]]\<rparr>) =
    [[''id'', ''name''], [''1'', ''x''], [''2'', ''NULL'']]"
  using dump_read_back [of "\<lparr>col_names = [''id'', ''name''], res_rows = [[Some ''1'', Some ''x''], [Some ''2'', None]]\<rparr>"]
  by (auto simp: plain_def NL_def)

definition example_mysql :: "(nat \<times> string list) mysql_lib" where
  "example_mysql = \<lparr>my_real_connect = \<lambda>h u p d n s w. w, my_errno = \<lambda>w. 0,
     my_query = \<lambda>q (t, l). (0, (t, l @ [q])),
     my_store_result = \<lambda>w. (Some \<lparr>col_names = [''a''], res_rows = [[Some ''1'']]\<rparr>, w), my_close = \<lambda>w. w,
     my_escape = escape_string, my_create = \<lambda>f w. (True, w), my_output = \<lambda>f s (t, l). (t, l @ [s])\<rparr>"

end
