(* ===== verification/Smack_Lex.thy ===== *)
theory Smack_Lex
  imports Smack_Text
begin

text \<open>
  \<^verbatim>\<open>src/super-smack-lex.ll\<close>: the scanner of the script language.  Each start condition of the scanner is a
  value of \<open>lex_state\<close>, each rule a branch of \<open>scan\<close>; a longest match is a maximal run of characters, and
  between matches of the same length the rule that comes first wins.  Characters that no rule of the
  initial condition names are skipped.
\<close>

section \<open>Tokens\<close>

datatype token =
    TABLE_SYM | QUERY_SYM | STRING_SYM string | OPEN_SECT_SYM | CLOSE_SECT_SYM | SEMI_SYM | TYPE_SYM
  | HAS_RESULT_SET_SYM | CLIENT_SYM | PARSED_SYM | QUERY_BARREL_SYM | DICT_SYM | SOURCE_SYM | SOURCE_TYPE_SYM
  | USER_SYM | PASS_SYM | DB_SYM | HOST_SYM | IDENT_SYM string | NUMBER_SYM string | DOT_SYM | OPEN_PAREN_SYM
  | CLOSE_PAREN_SYM | MAIN_SYM | COMMA_SYM | DOLLAR_SYM | EQ_SYM | COL_COL_SYM | DELIM_SYM | FILE_SIZE_EQUIV_SYM
  | CREATE_SYM | MIN_ROWS_SYM | DATA_FILE_SYM | GEN_DATA_FILE_SYM | PORT_SYM | SOCKET_SYM

definition keyword_list :: "(string \<times> token) list" where
  "keyword_list =
     [(''query'', QUERY_SYM), (''type'', TYPE_SYM), (''has_result_set'', HAS_RESULT_SET_SYM),
      (''client'', CLIENT_SYM), (''dictionary'', DICT_SYM), (''table'', TABLE_SYM), (''delim'', DELIM_SYM),
      (''file_size_equiv'', FILE_SIZE_EQUIV_SYM), (''create'', CREATE_SYM), (''min_rows'', MIN_ROWS_SYM),
      (''data_file'', DATA_FILE_SYM), (''gen_data_file'', GEN_DATA_FILE_SYM), (''parsed'', PARSED_SYM),
      (''query_barrel'', QUERY_BARREL_SYM), (''source'', SOURCE_SYM), (''source_type'', SOURCE_TYPE_SYM),
      (''main'', MAIN_SYM), (''db'', DB_SYM), (''host'', HOST_SYM), (''user'', USER_SYM), (''pass'', PASS_SYM),
      (''port'', PORT_SYM), (''socket'', SOCKET_SYM)]"

definition symbol_list :: "(char \<times> token) list" where
  "symbol_list =
     [(CHR ''{'', OPEN_SECT_SYM), (CHR ''}'', CLOSE_SECT_SYM), (CHR ''('', OPEN_PAREN_SYM),
      (CHR '')'', CLOSE_PAREN_SYM), (CHR '';'', SEMI_SYM), (CHR ''.'', DOT_SYM), (CHR '','', COMMA_SYM),
      (CHR ''$'', DOLLAR_SYM), (CHR ''='', EQ_SYM)]"

definition is_letter :: "char \<Rightarrow> bool" where
  "is_letter c \<longleftrightarrow> isupper c \<or> islower c"

definition word_token :: "string \<Rightarrow> token" where
  "word_token w = (case map_of keyword_list w of Some t \<Rightarrow> t | None \<Rightarrow> IDENT_SYM w)"

section \<open>The scanner\<close>

datatype lex_state = INITIAL | Q_STR | Q_STR_ESC | COMMENT

text \<open>
  The string being collected is \<open>q_str\<close>; \<open>q_str += yytext\<close> appends a C string, so a NUL adds nothing.  An
  escaped character other than a backslash, a quote and a newline is dropped, and the start condition is
  left as it is.
\<close>

function scan :: "lex_state \<Rightarrow> string \<Rightarrow> string \<Rightarrow> token list" where
  "scan st q_str [] = []"
| "scan INITIAL q_str (c # cs) =
     (if is_letter c then word_token (c # takeWhile is_ident cs) # scan INITIAL q_str (dropWhile is_ident cs)
      else if isdigit c then NUMBER_SYM (c # takeWhile isdigit cs) # scan INITIAL q_str (dropWhile isdigit cs)
      else if c = DQUOTE then scan Q_STR [] cs
      else if c = CHR ''#'' then scan COMMENT q_str cs
      else if c = CHR ''/'' \<and> cs \<noteq> [] \<and> hd cs = CHR ''/'' then scan COMMENT q_str (tl cs)
      else if c = CHR '':'' \<and> cs \<noteq> [] \<and> hd cs = CHR '':'' then COL_COL_SYM # scan INITIAL q_str (tl cs)
      else case map_of symbol_list c of
             Some t \<Rightarrow> t # scan INITIAL q_str cs
           | None \<Rightarrow> scan INITIAL q_str cs)"
| "scan COMMENT q_str (c # cs) = scan (if c = NL then INITIAL else COMMENT) q_str cs"
| "scan Q_STR q_str (c # cs) =
     (if c = BSLASH then scan Q_STR_ESC q_str cs
      else if c = DQUOTE then STRING_SYM q_str # scan INITIAL q_str cs
      else scan Q_STR (q_str @ c_str [c]) cs)"
| "scan Q_STR_ESC q_str (c # cs) =
     (if c = BSLASH \<or> c = DQUOTE \<or> c = NL then scan Q_STR (q_str @ [c]) cs
      else scan Q_STR_ESC q_str cs)"
  by pat_completeness auto
termination
  by (relation "measure (\<lambda>(st, q, s). length s)") (auto simp: le_imp_less_Suc length_dropWhile_le)

definition lex :: "string \<Rightarrow> token list" where
  "lex s = scan INITIAL [] s"

declare scan.simps(2-5) [simp del]

section \<open>Writing tokens\<close>

text \<open>A string literal: backslashes and quotes escaped.\<close>

definition quote_char :: "char \<Rightarrow> string" where
  "quote_char c = (if c = BSLASH \<or> c = DQUOTE then [BSLASH, c] else [c])"

definition quote :: "string \<Rightarrow> string" where
  "quote s = DQUOTE # concat (map quote_char s) @ [DQUOTE]"

text \<open>The text of a token that is not a string, an identifier or a number.\<close>

definition fixed_texts :: "(string \<times> token) list" where
  "fixed_texts = keyword_list @ map (\<lambda>(c, t). ([c], t)) symbol_list @ [(''::'', COL_COL_SYM)]"

definition fixed_text :: "token \<Rightarrow> string" where
  "fixed_text t = (case find (\<lambda>(s, t'). t' = t) fixed_texts of Some (s, _) \<Rightarrow> s | None \<Rightarrow> [])"

definition token_text :: "token \<Rightarrow> string" where
  "token_text t =
     (case t of STRING_SYM s \<Rightarrow> quote s | IDENT_SYM s \<Rightarrow> s | NUMBER_SYM s \<Rightarrow> s | _ \<Rightarrow> fixed_text t)"

definition unlex :: "token list \<Rightarrow> string" where
  "unlex ts = concat (map (\<lambda>t. token_text t @ '' '') ts)"

text \<open>The tokens the scanner can produce.\<close>

definition ident_ok :: "string \<Rightarrow> bool" where
  "ident_ok s \<longleftrightarrow> s \<noteq> [] \<and> is_letter (hd s) \<and> list_all is_ident s \<and> map_of keyword_list s = None"

definition number_ok :: "string \<Rightarrow> bool" where
  "number_ok s \<longleftrightarrow> s \<noteq> [] \<and> list_all isdigit s"

definition token_ok :: "token \<Rightarrow> bool" where
  "token_ok t =
     (case t of STRING_SYM s \<Rightarrow> NUL \<notin> set s | IDENT_SYM s \<Rightarrow> ident_ok s | NUMBER_SYM s \<Rightarrow> number_ok s | _ \<Rightarrow> True)"

section \<open>Lemmas\<close>

lemma scan_quote_body:
  "NUL \<notin> set s \<Longrightarrow> scan Q_STR q (concat (map quote_char s) @ DQUOTE # rest) = STRING_SYM (q @ s) # scan INITIAL (q @ s) rest"
proof (induction s arbitrary: q)
  case (Cons c s)
  have "c_str [c] = [c]" using Cons.prems by (auto simp: c_str_def)
  with Cons show ?case by (auto simp: quote_char_def scan.simps)
qed (simp add: scan.simps)

text \<open>In the initial condition the collected string does not matter.\<close>

lemma scan_forget: "scan INITIAL q s = scan INITIAL [] s \<and> scan COMMENT q s = scan COMMENT [] s"
proof (induction "length s" arbitrary: s q rule: less_induct)
  case less
  show ?case
  proof (cases s)
    case (Cons c cs)
    have l: "length cs < length s" "length (tl cs) < length s"
      "length (dropWhile is_ident cs) < length s" "length (dropWhile isdigit cs) < length s"
      by (simp_all add: Cons le_imp_less_Suc length_dropWhile_le)
    note ih = less [OF l(1), of q] less [OF l(2), of q] less [OF l(3), of q] less [OF l(4), of q]
    have "scan COMMENT q (c # cs) = scan COMMENT [] (c # cs)"
      using ih by (cases "c = NL") (simp_all add: scan.simps)
    moreover have "scan INITIAL q (c # cs) = scan INITIAL [] (c # cs)"
      unfolding scan.simps using ih by (simp split: option.split)
    ultimately show ?thesis by (simp add: Cons)
  qed simp
qed

lemma scan_quote:
  "NUL \<notin> set s \<Longrightarrow> scan INITIAL q (quote s @ rest) = STRING_SYM s # scan INITIAL [] rest"
proof -
  assume "NUL \<notin> set s"
  moreover have "\<not> is_letter DQUOTE" "\<not> isdigit DQUOTE" by (simp_all add: is_letter_def char_class_defs)
  ultimately show ?thesis
    using scan_quote_body [of s "[]" rest] by (simp add: quote_def scan.simps scan_forget [of s])
qed

lemma not_letter_space: "\<not> is_letter (CHR '' '')" "\<not> isdigit (CHR '' '')" "\<not> is_ident (CHR '' '')"
  by (simp_all add: is_letter_def is_ident_def char_class_defs)

lemma scan_space: "scan INITIAL q (CHR '' '' # rest) = scan INITIAL [] rest"
  by (simp add: scan.simps not_letter_space symbol_list_def scan_forget [of q])

lemma takeWhile_run: "list_all P w \<Longrightarrow> \<not> P c \<Longrightarrow> takeWhile P (w @ c # r) = w \<and> dropWhile P (w @ c # r) = c # r"
  by (induction w) auto

lemma letter_not_digit: "is_letter c \<Longrightarrow> \<not> isdigit c"
  by (auto simp: is_letter_def char_class_defs)

lemma scan_word:
  assumes "w \<noteq> []" "is_letter (hd w)" "list_all is_ident w"
  shows "scan INITIAL [] (w @ CHR '' '' # rest) = word_token w # scan INITIAL [] rest"
proof -
  obtain c cs where w: "w = c # cs" using assms(1) by (cases w) auto
  then have "list_all is_ident cs" using assms(3) by simp
  from takeWhile_run [where P = is_ident, OF this not_letter_space(3), of rest] assms(2) show ?thesis
    unfolding w append_Cons scan.simps(2) by (simp add: scan_space)
qed

lemma scan_number:
  assumes "number_ok w"
  shows "scan INITIAL [] (w @ CHR '' '' # rest) = NUMBER_SYM w # scan INITIAL [] rest"
proof -
  obtain c cs where w: "w = c # cs" "isdigit c" "list_all isdigit cs"
    using assms by (cases w) (auto simp: number_ok_def)
  have "\<not> is_letter c" using w(2) letter_not_digit by blast
  with takeWhile_run [where P = isdigit, OF w(3) not_letter_space(2), of rest] w(2) show ?thesis
    unfolding w(1) append_Cons scan.simps(2) by (simp add: scan_space)
qed

lemma keyword_words: "\<forall>(w, t) \<in> set keyword_list. w \<noteq> [] \<and> is_letter (hd w) \<and> list_all is_ident w \<and> word_token w = t"
  by (simp add: keyword_list_def word_token_def is_letter_def is_ident_def char_class_defs)

lemma scan_symbol:
  assumes "map_of symbol_list c = Some t"
  shows "scan INITIAL [] ([c] @ CHR '' '' # rest) = t # scan INITIAL [] rest"
proof -
  have "\<forall>(c, t) \<in> set symbol_list. \<not> is_letter c \<and> \<not> isdigit c \<and> c \<noteq> DQUOTE \<and> c \<noteq> CHR ''#'' \<and> c \<noteq> CHR ''/'' \<and> c \<noteq> CHR '':''"
    by (simp add: symbol_list_def is_letter_def char_class_defs)
  with map_of_SomeD [OF assms] have
    "\<not> is_letter c \<and> \<not> isdigit c \<and> c \<noteq> DQUOTE \<and> c \<noteq> CHR ''#'' \<and> c \<noteq> CHR ''/'' \<and> c \<noteq> CHR '':''" by blast
  then show ?thesis
    unfolding append_Cons append_Nil scan.simps(2) [of _ c] by (simp add: assms scan_space)
qed

lemma fixed_text_symbols:
  "fixed_text OPEN_SECT_SYM = ''{''" "fixed_text CLOSE_SECT_SYM = ''}''" "fixed_text OPEN_PAREN_SYM = ''(''"
  "fixed_text CLOSE_PAREN_SYM = '')''" "fixed_text SEMI_SYM = '';''" "fixed_text DOT_SYM = ''.''"
  "fixed_text COMMA_SYM = '',''" "fixed_text DOLLAR_SYM = ''$''" "fixed_text EQ_SYM = ''=''"
  "fixed_text COL_COL_SYM = ''::''"
  by (simp_all add: fixed_text_def fixed_texts_def keyword_list_def symbol_list_def)

lemma fixed_text_keyword:
  assumes "t \<in> snd ` set keyword_list"
  shows "(fixed_text t, t) \<in> set keyword_list"
  using assms by (auto simp: keyword_list_def fixed_text_def fixed_texts_def)

lemma fixed_text_symbol:
  "t \<in> snd ` set symbol_list \<Longrightarrow>
   map_of symbol_list (hd (fixed_text t)) = Some t \<and> token_text t = [hd (fixed_text t)]"
  by (auto simp: symbol_list_def fixed_text_symbols token_text_def)

lemma token_kinds:
  obtains (str) s where "t = STRING_SYM s" | (ident) s where "t = IDENT_SYM s" | (num) s where "t = NUMBER_SYM s"
    | (kw) "t \<in> snd ` set keyword_list" | (sym) "t \<in> snd ` set symbol_list" | (col) "t = COL_COL_SYM"
proof -
  have "(\<exists>s. t = STRING_SYM s) \<or> (\<exists>s. t = IDENT_SYM s) \<or> (\<exists>s. t = NUMBER_SYM s)
      \<or> t \<in> snd ` set keyword_list \<or> t \<in> snd ` set symbol_list \<or> t = COL_COL_SYM"
    by (cases t) (simp_all add: keyword_list_def symbol_list_def)
  with that show thesis by blast
qed

lemma scan_token:
  assumes "token_ok t"
  shows "scan INITIAL [] (token_text t @ CHR '' '' # rest) = t # scan INITIAL [] rest"
proof -
  show ?thesis
  proof (cases t rule: token_kinds)
    case str
    then show ?thesis using assms by (simp add: token_text_def token_ok_def scan_quote scan_space)
  next
    case (ident s)
    with assms scan_word [of s rest] show ?thesis
      by (simp add: token_text_def token_ok_def ident_ok_def word_token_def)
  next
    case (num s)
    with assms scan_number [of s rest] show ?thesis by (simp add: token_text_def token_ok_def)
  next
    case kw
    then have "token_text t = fixed_text t" by (auto simp: token_text_def keyword_list_def)
    with fixed_text_keyword [OF kw] keyword_words scan_word [of "fixed_text t" rest] show ?thesis by auto
  next
    case sym
    with fixed_text_symbol [OF sym] scan_symbol [of "hd (fixed_text t)" t rest] show ?thesis by simp

  next
    case col
    have "scan INITIAL [] (CHR '':'' # CHR '':'' # CHR '' '' # rest) = COL_COL_SYM # scan INITIAL [] rest"
      unfolding scan.simps(2) [of _ "CHR '':''"] by (simp add: scan_space is_letter_def char_class_defs)
    with col show ?thesis by (simp add: token_text_def fixed_text_symbols)

  qed
qed

lemma lex_unlex: "list_all token_ok ts \<Longrightarrow> lex (unlex ts) = ts"
  by (induction ts) (simp_all add: lex_def unlex_def scan_token)

section \<open>Properties\<close>

text \<open>
  A string literal is read as written.  A string written between quotes, with a backslash before each
  backslash and quote, is scanned as one token that holds the string, newlines included, and the scan goes
  on behind it.
\<close>

lemma string_literal_read_back:
  assumes "NUL \<notin> set s"
  shows "lex (quote s @ rest) = STRING_SYM s # lex rest"
  using scan_quote [OF assms] by (simp add: lex_def)

lemma scan_plain:
  assumes "NUL \<notin> set a" "BSLASH \<notin> set a" "DQUOTE \<notin> set a"
  shows "scan Q_STR q (a @ rest) = scan Q_STR (q @ a) rest"
  using assms
proof (induction a arbitrary: q)
  case (Cons c a)
  have "c_str [c] = [c]" using Cons.prems by (auto simp: c_str_def)
  with Cons show ?case by (auto simp: scan.simps)
qed simp

lemma scan_dropped:
  assumes "NL \<notin> set b" "BSLASH \<notin> set b" "DQUOTE \<notin> set b"
  shows "scan Q_STR_ESC q (b @ rest) = scan Q_STR_ESC q rest"
  using assms by (induction b) (auto simp: scan.simps)

text \<open>
  C39: an unknown escape swallows the rest of the literal.  After a backslash and a character other than a
  backslash, a quote and a newline the scanner stays in the escape condition: everything up to the closing
  quote is dropped, that quote becomes a part of the string, and the literal runs on to the next quote of
  the script.
\<close>

theorem stray_escape_swallows:
  assumes "NUL \<notin> set (a @ c)" "BSLASH \<notin> set (a @ b @ c)" "DQUOTE \<notin> set (a @ b @ c)" "NL \<notin> set b"
    and "x \<notin> {BSLASH, DQUOTE, NL}"
  shows "lex (DQUOTE # a @ [BSLASH, x] @ b @ [DQUOTE] @ c @ [DQUOTE] @ rest) =
    STRING_SYM (a @ [DQUOTE] @ c) # lex rest"
proof -
  have "scan INITIAL [] (DQUOTE # s) = scan Q_STR [] s" for s
    unfolding scan.simps(2) by (simp add: is_letter_def char_class_defs)
  moreover have "scan Q_STR [] (a @ BSLASH # x # b @ DQUOTE # c @ DQUOTE # rest) =
      scan Q_STR_ESC a (x # b @ DQUOTE # c @ DQUOTE # rest)"
    using assms(1-3) scan_plain [of a "[]"] by (simp add: scan.simps)
  moreover have "\<dots> = scan Q_STR (a @ [DQUOTE]) (c @ DQUOTE # rest)"
    using assms(2-5) scan_dropped [of b] by (simp add: scan.simps)
  moreover have "\<dots> = STRING_SYM (a @ DQUOTE # c) # scan INITIAL [] rest"
    using assms(1-3) scan_plain [of c] scan_forget [of _ rest] by (simp add: scan.simps)
  ultimately show ?thesis by (simp add: lex_def)
qed

theorem stray_escape_swallows_witness:
  "lex (DQUOTE # ''a'' @ [BSLASH, CHR ''t''] @ ''b'' @ [DQUOTE] @ '';'' @ [DQUOTE] @ '';'') =
    [STRING_SYM (''a'' @ [DQUOTE] @ '';''), SEMI_SYM]"
  using stray_escape_swallows [of "''a''" "'';''" "''b''" "CHR ''t''" "'';''"]
  by (simp add: NL_def lex_def scan.simps(1,2) is_letter_def char_class_defs symbol_list_def)

end
