(* ===== verification/Smack_Grammar.thy ===== *)
theory Smack_Grammar
  imports Smack_Lex Smack_Parse "HOL-Library.Monad_Syntax"
begin

text \<open>
  \<^verbatim>\<open>src/super-smack-yacc.yy\<close>: the language of scripts.  A production is a constructor of the syntax tree and
  a branch of a parsing function; the left-recursive lists of the grammar are loops.  The generated parser
  runs the action of a section or of a line of the main section as soon as it is complete, so the result is
  the list of sections and lines completed before the first syntax error, and whether there was none.
\<close>

section \<open>Syntax\<close>

datatype expr =
    Number string
  | Str string
  | Argument string
  | Variable string
  | Report_param string string string
  | Client_param string string
  | Concat expr expr

datatype line = Call string string "expr list" | Assign string expr

datatype script_section =
    Query_section string "query_def_line list"
  | Dict_section string "dict_def_line list"
  | Client_section string "client_def_line list"
  | Table_section string "table_def_line list"

section \<open>Single tokens\<close>

definition starts :: "token \<Rightarrow> token list \<Rightarrow> bool" where
  "starts t ts = (case ts of t' # _ \<Rightarrow> t' = t | [] \<Rightarrow> False)"

definition expect :: "token \<Rightarrow> token list \<Rightarrow> token list option" where
  "expect t ts = (case ts of t' # ts' \<Rightarrow> if t' = t then Some ts' else None | [] \<Rightarrow> None)"

type_synonym 'a parser = "token list \<Rightarrow> ('a \<times> token list) option"

definition p_ident :: "string parser" where
  "p_ident ts = (case ts of IDENT_SYM s # ts' \<Rightarrow> Some (s, ts') | _ \<Rightarrow> None)"

definition p_string :: "string parser" where
  "p_string ts = (case ts of STRING_SYM s # ts' \<Rightarrow> Some (s, ts') | _ \<Rightarrow> None)"

definition p_number :: "string parser" where
  "p_number ts = (case ts of NUMBER_SYM s # ts' \<Rightarrow> Some (s, ts') | _ \<Rightarrow> None)"

lemma token_simps [simp]:
  "starts t (t' # ts) \<longleftrightarrow> t' = t" "\<not> starts t []"
  "expect t (t # ts) = Some ts"
  "p_ident (IDENT_SYM s # ts) = Some (s, ts)" "p_string (STRING_SYM s # ts) = Some (s, ts)"
  "p_number (NUMBER_SYM s # ts) = Some (s, ts)"
  by (simp_all add: starts_def expect_def p_ident_def p_string_def p_number_def)

lemma expect_Some: "expect t ts = Some ts' \<longleftrightarrow> ts = t # ts'"
  by (auto simp: expect_def split: list.splits if_splits)

lemma p_ident_Some: "p_ident ts = Some (s, ts') \<longleftrightarrow> ts = IDENT_SYM s # ts'"
  by (auto simp: p_ident_def split: list.splits token.splits)

lemma p_string_Some: "p_string ts = Some (s, ts') \<longleftrightarrow> ts = STRING_SYM s # ts'"
  by (auto simp: p_string_def split: list.splits token.splits)

lemma p_number_Some: "p_number ts = Some (s, ts') \<longleftrightarrow> ts = NUMBER_SYM s # ts'"
  by (auto simp: p_number_def split: list.splits token.splits)

lemmas token_Some = expect_Some p_ident_Some p_string_Some p_number_Some

section \<open>Expressions\<close>

text \<open>After a client's name: one or two more names.\<close>

definition client_expr :: "string \<Rightarrow> expr parser" where
  "client_expr a ts =
     do { ts \<leftarrow> expect COL_COL_SYM ts;
          (b, ts) \<leftarrow> p_ident ts;
          if starts COL_COL_SYM ts then do { (c, ts) \<leftarrow> p_ident (tl ts); Some (Report_param a b c, ts) }
          else Some (Client_param a b, ts) }"

definition simple_expr :: "expr parser" where
  "simple_expr ts =
     (case p_number ts of
        Some (s, ts) \<Rightarrow> Some (Number s, ts)
      | None \<Rightarrow>
     (case p_string ts of
        Some (s, ts) \<Rightarrow> Some (Str s, ts)
      | None \<Rightarrow>
     (case p_ident ts of
        Some (a, ts) \<Rightarrow> client_expr a ts
      | None \<Rightarrow>
        do { ts \<leftarrow> expect DOLLAR_SYM ts;
             case p_number ts of
               Some (s, ts) \<Rightarrow> Some (Argument s, ts)
             | None \<Rightarrow> do { (v, ts) \<leftarrow> p_ident ts; Some (Variable v, ts) } })))"

lemma simple_expr_shorter: "simple_expr ts = Some (e, ts') \<Longrightarrow> length ts' < length ts"
  by (auto simp: simple_expr_def client_expr_def token_Some Option.bind_eq_Some_conv
      split: option.splits if_splits) (simp add: starts_def split: list.splits)

function expr_rest :: "expr \<Rightarrow> expr parser" where
  "expr_rest e ts =
     (if starts DOT_SYM ts then
        (case simple_expr (tl ts) of
           None \<Rightarrow> None
         | Some (e', ts') \<Rightarrow> expr_rest (Concat e e') ts')
      else Some (e, ts))"
  by pat_completeness auto
termination
  by (relation "measure (\<lambda>(e, ts). length ts)") (auto dest: simple_expr_shorter)

declare expr_rest.simps [simp del]

definition p_expr :: "expr parser" where
  "p_expr ts = do { (e, ts) \<leftarrow> simple_expr ts; expr_rest e ts }"

lemma expr_rest_length: "expr_rest e ts = Some (e', ts') \<Longrightarrow> length ts' \<le> length ts"
proof (induction e ts rule: expr_rest.induct)
  case (1 e ts)
  from 1(2) show ?case
    by (subst (asm) expr_rest.simps) (force split: if_splits option.splits dest: 1(1) simple_expr_shorter)
qed

lemma p_expr_shorter: "p_expr ts = Some (e, ts') \<Longrightarrow> length ts' < length ts"
  by (auto simp: p_expr_def Option.bind_eq_Some_conv dest!: simple_expr_shorter expr_rest_length)

section \<open>Lines of the main section\<close>

function params_rest :: "expr list \<Rightarrow> expr list parser" where
  "params_rest es ts =
     (if starts COMMA_SYM ts then
        (case p_expr (tl ts) of
           None \<Rightarrow> None
         | Some (e, ts') \<Rightarrow> params_rest (es @ [e]) ts')
      else Some (es, ts))"
  by pat_completeness auto
termination
  by (relation "measure (\<lambda>(es, ts). length ts)") (auto dest: p_expr_shorter)

declare params_rest.simps [simp del]

text \<open>An empty list may be followed by a comma.\<close>

definition p_params :: "expr list parser" where
  "p_params ts =
     (if starts CLOSE_PAREN_SYM ts \<or> starts COMMA_SYM ts then params_rest [] ts
      else do { (e, ts) \<leftarrow> p_expr ts; params_rest [e] ts })"

definition method_name :: "string parser" where
  "method_name ts = (if starts QUERY_SYM ts then Some (''query'', tl ts) else p_ident ts)"

definition p_line :: "line parser" where
  "p_line ts =
     (if starts DOLLAR_SYM ts then
        do { (v, ts) \<leftarrow> p_ident (tl ts);
             ts \<leftarrow> expect EQ_SYM ts;
             (e, ts) \<leftarrow> p_expr ts;
             ts \<leftarrow> expect SEMI_SYM ts;
             Some (Assign v e, ts) }
      else
        do { (c, ts) \<leftarrow> p_ident ts;
             ts \<leftarrow> expect DOT_SYM ts;
             (m, ts) \<leftarrow> method_name ts;
             ts \<leftarrow> expect OPEN_PAREN_SYM ts;
             (ps, ts) \<leftarrow> p_params ts;
             ts \<leftarrow> expect CLOSE_PAREN_SYM ts;
             ts \<leftarrow> expect SEMI_SYM ts;
             Some (Call c m ps, ts) })"

lemma params_rest_length: "params_rest es ts = Some (es', ts') \<Longrightarrow> length ts' \<le> length ts"
proof (induction es ts rule: params_rest.induct)
  case (1 es ts)
  from 1(2) show ?case
    by (subst (asm) params_rest.simps) (force split: if_splits option.splits dest: 1(1) p_expr_shorter)
qed

lemma p_params_length: "p_params ts = Some (ps, ts') \<Longrightarrow> length ts' \<le> length ts"
  by (auto simp: p_params_def Option.bind_eq_Some_conv split: if_splits
      dest!: p_expr_shorter params_rest_length)

lemma method_name_length: "method_name ts = Some (m, ts') \<Longrightarrow> length ts' \<le> length ts"
  by (auto simp: method_name_def token_Some split: if_splits)

lemma p_line_shorter: "p_line ts = Some (l, ts') \<Longrightarrow> length ts' < length ts"
  by (cases ts) (auto simp: p_line_def Option.bind_eq_Some_conv token_Some split: if_splits
      dest!: p_expr_shorter p_params_length method_name_length)

function main_lines :: "token list \<Rightarrow> line list \<times> bool" where
  "main_lines ts =
     (case p_line ts of
        None \<Rightarrow> ([], False)
      | Some (l, ts') \<Rightarrow>
          if starts CLOSE_SECT_SYM ts' then ([l], tl ts' = [])
          else (let (ls, good) = main_lines ts' in (l # ls, good)))"
  by pat_completeness auto
termination
  by (relation "measure length") (auto dest: p_line_shorter)

declare main_lines.simps [simp del]

section \<open>Sections\<close>

text \<open>A line of a section: a keyword, a string and a semicolon.\<close>

type_synonym 'l kinds = "token \<Rightarrow> (string \<Rightarrow> 'l) option"

definition p_def_line :: "'l kinds \<Rightarrow> 'l parser" where
  "p_def_line kinds ts =
     (case ts of
        [] \<Rightarrow> None
      | t # ts \<Rightarrow>
          do { f \<leftarrow> kinds t;
               (s, ts) \<leftarrow> p_string ts;
               ts \<leftarrow> expect SEMI_SYM ts;
               Some (f s, ts) })"

lemma p_def_line_shorter: "p_def_line k ts = Some (l, ts') \<Longrightarrow> length ts' < length ts"
  by (auto simp: p_def_line_def Option.bind_eq_Some_conv token_Some split: list.splits)

function p_def_lines :: "'l kinds \<Rightarrow> 'l list parser" where
  "p_def_lines kinds ts =
     (case p_def_line kinds ts of
        None \<Rightarrow> None
      | Some (l, ts') \<Rightarrow>
          if starts CLOSE_SECT_SYM ts' then Some ([l], tl ts')
          else map_option (\<lambda>(ls, ts). (l # ls, ts)) (p_def_lines kinds ts'))"
  by pat_completeness auto
termination
  by (relation "measure (\<lambda>(k, ts). length ts)") (auto dest: p_def_line_shorter)

declare p_def_lines.simps [simp del]

lemma p_def_lines_shorter: "p_def_lines k ts = Some (ls, ts') \<Longrightarrow> length ts' < length ts"
proof (induction k ts arbitrary: ls ts' rule: p_def_lines.induct)
  case (1 k ts)
  from 1(2) obtain l us where l: "p_def_line k ts = Some (l, us)"
    by (subst (asm) p_def_lines.simps) (auto split: option.splits)
  show ?case
  proof (cases "starts CLOSE_SECT_SYM us")
    case True
    with 1(2) l show ?thesis by (subst (asm) p_def_lines.simps) (auto dest: p_def_line_shorter)
  next
    case False
    with 1(2) l obtain ms where "p_def_lines k us = Some (ms, ts')"
      by (subst (asm) p_def_lines.simps) auto
    from 1(1) [OF l refl False this] p_def_line_shorter [OF l] show ?thesis by simp
  qed
qed


definition query_kinds :: "query_def_line kinds" where
  "query_kinds t =
     (case t of QUERY_SYM \<Rightarrow> Some Query_query_def_line | TYPE_SYM \<Rightarrow> Some Query_type_def_line
      | HAS_RESULT_SET_SYM \<Rightarrow> Some Query_has_result_set_def_line | PARSED_SYM \<Rightarrow> Some Query_parsed_def_line
      | _ \<Rightarrow> None)"

definition dict_kinds :: "dict_def_line kinds" where
  "dict_kinds t =
     (case t of TYPE_SYM \<Rightarrow> Some Dict_dict_type_def_line | SOURCE_TYPE_SYM \<Rightarrow> Some Dict_source_type_def_line
      | SOURCE_SYM \<Rightarrow> Some Dict_source_def_line | DELIM_SYM \<Rightarrow> Some Dict_delim_def_line
      | FILE_SIZE_EQUIV_SYM \<Rightarrow> Some Dict_file_size_equiv_def_line | _ \<Rightarrow> None)"

definition client_kinds :: "client_def_line kinds" where
  "client_kinds t =
     (case t of QUERY_BARREL_SYM \<Rightarrow> Some Client_query_barrel_def_line | USER_SYM \<Rightarrow> Some Client_user_def_line
      | PASS_SYM \<Rightarrow> Some Client_pass_def_line | DB_SYM \<Rightarrow> Some Client_db_def_line
      | HOST_SYM \<Rightarrow> Some Client_host_def_line | PORT_SYM \<Rightarrow> Some Client_port_def_line
      | SOCKET_SYM \<Rightarrow> Some Client_socket_def_line | _ \<Rightarrow> None)"

definition table_kinds :: "table_def_line kinds" where
  "table_kinds t =
     (case t of CLIENT_SYM \<Rightarrow> Some Table_client_def_line | CREATE_SYM \<Rightarrow> Some Table_create_def_line
      | MIN_ROWS_SYM \<Rightarrow> Some Table_min_rows_def_line | DATA_FILE_SYM \<Rightarrow> Some Table_data_file_def_line
      | GEN_DATA_FILE_SYM \<Rightarrow> Some Table_gen_data_file_def_line | _ \<Rightarrow> None)"

definition p_body :: "(string \<Rightarrow> 'l list \<Rightarrow> script_section) \<Rightarrow> 'l kinds \<Rightarrow> script_section parser" where
  "p_body f kinds ts =
     do { (n, ts) \<leftarrow> p_string ts;
          ts \<leftarrow> expect OPEN_SECT_SYM ts;
          (ls, ts) \<leftarrow> p_def_lines kinds ts;
          Some (f n ls, ts) }"

definition p_section :: "script_section parser" where
  "p_section ts =
     (if starts QUERY_SYM ts then p_body Query_section query_kinds (tl ts)
      else if starts DICT_SYM ts then p_body Dict_section dict_kinds (tl ts)
      else if starts CLIENT_SYM ts then p_body Client_section client_kinds (tl ts)
      else if starts TABLE_SYM ts then p_body Table_section table_kinds (tl ts)
      else None)"

lemma p_body_shorter: "p_body f k ts = Some (s, ts') \<Longrightarrow> length ts' < length ts"
  by (auto simp: p_body_def Option.bind_eq_Some_conv token_Some dest!: p_def_lines_shorter)

lemma p_section_shorter: "p_section ts = Some (s, ts') \<Longrightarrow> length ts' < length ts"
  by (cases ts) (auto simp: p_section_def split: if_splits dest!: p_body_shorter)

section \<open>Programs\<close>

text \<open>One or more sections, then the main section: what was completed and whether the program is correct.\<close>

function p_program :: "token list \<Rightarrow> script_section list \<times> line list \<times> bool" where
  "p_program ts =
     (case p_section ts of
        None \<Rightarrow> ([], [], False)
      | Some (s, ts') \<Rightarrow>
          if starts MAIN_SYM ts' then
            (case expect OPEN_SECT_SYM (tl ts') of
               None \<Rightarrow> ([s], [], False)
             | Some ts'' \<Rightarrow> ([s], main_lines ts''))
          else (let (ss, rest) = p_program ts' in (s # ss, rest)))"
  by pat_completeness auto
termination
  by (relation "measure length") (auto dest: p_section_shorter)

declare p_program.simps [simp del]

definition yyparse :: "string \<Rightarrow> script_section list \<times> line list \<times> bool" where
  "yyparse text = p_program (lex text)"

end
