(* ===== verification/Smack_Grammar_Proofs.thy ===== *)
theory Smack_Grammar_Proofs
  imports Smack_Grammar
begin

text \<open>
  Writing scripts, and reading them back: the parser yields exactly the sections and lines that were
  written, for every syntax tree that the grammar can produce.
\<close>

section \<open>Expressions\<close>

fun expr_tokens :: "expr \<Rightarrow> token list" where
  "expr_tokens (Number s) = [NUMBER_SYM s]"
| "expr_tokens (Str s) = [STRING_SYM s]"
| "expr_tokens (Argument s) = [DOLLAR_SYM, NUMBER_SYM s]"
| "expr_tokens (Variable v) = [DOLLAR_SYM, IDENT_SYM v]"
| "expr_tokens (Report_param a b c) = [IDENT_SYM a, COL_COL_SYM, IDENT_SYM b, COL_COL_SYM, IDENT_SYM c]"
| "expr_tokens (Client_param a b) = [IDENT_SYM a, COL_COL_SYM, IDENT_SYM b]"
| "expr_tokens (Concat a b) = expr_tokens a @ DOT_SYM # expr_tokens b"

text \<open>The dot associates to the left; numbers, names and strings are those of the scanner.\<close>

fun is_concat :: "expr \<Rightarrow> bool" where
  "is_concat (Concat a b) = True"
| "is_concat _ = False"

fun expr_ok :: "expr \<Rightarrow> bool" where
  "expr_ok (Number s) = number_ok s"
| "expr_ok (Str s) = (NUL \<notin> set s)"
| "expr_ok (Argument s) = number_ok s"
| "expr_ok (Variable v) = ident_ok v"
| "expr_ok (Report_param a b c) = (ident_ok a \<and> ident_ok b \<and> ident_ok c)"
| "expr_ok (Client_param a b) = (ident_ok a \<and> ident_ok b)"
| "expr_ok (Concat a b) = (expr_ok a \<and> expr_ok b \<and> \<not> is_concat b)"

lemma simple_expr_read:
  "\<not> is_concat e \<Longrightarrow> \<not> starts COL_COL_SYM ts \<Longrightarrow> simple_expr (expr_tokens e @ ts) = Some (e, ts)"
  by (cases e) (simp_all add: simple_expr_def client_expr_def p_number_def p_string_def p_ident_def expect_def)

lemma p_expr_rest:
  "expr_ok e \<Longrightarrow> \<not> starts COL_COL_SYM ts \<Longrightarrow> p_expr (expr_tokens e @ ts) = expr_rest e ts"
proof (induction e arbitrary: ts)
  case (Concat a b)
  have "p_expr (expr_tokens (Concat a b) @ ts) = expr_rest a (DOT_SYM # expr_tokens b @ ts)"
    using Concat.IH(1) [of "DOT_SYM # expr_tokens b @ ts"] Concat.prems by simp
  also have "\<dots> = expr_rest (Concat a b) ts"
    using Concat.prems simple_expr_read [of b ts] by (subst expr_rest.simps) simp
  finally show ?case .
qed (simp_all add: p_expr_def simple_expr_read [of _ ts for ts, simplified] simple_expr_def client_expr_def
      p_number_def p_string_def p_ident_def expect_def)

lemma p_expr_read:
  assumes "expr_ok e" "\<not> starts COL_COL_SYM ts" "\<not> starts DOT_SYM ts"
  shows "p_expr (expr_tokens e @ ts) = Some (e, ts)"
  using p_expr_rest [OF assms(1,2)] assms(3) by (simp add: expr_rest.simps)

lemma expr_tokens_start: "starts t (expr_tokens e @ ts) \<Longrightarrow> t \<noteq> CLOSE_PAREN_SYM \<and> t \<noteq> COMMA_SYM"
  by (induction e arbitrary: ts) auto

section \<open>Lines\<close>

fun params_tokens :: "expr list \<Rightarrow> token list" where
  "params_tokens [] = []"
| "params_tokens [e] = expr_tokens e"
| "params_tokens (e # es) = expr_tokens e @ COMMA_SYM # params_tokens es"

fun line_tokens :: "line \<Rightarrow> token list" where
  "line_tokens (Call c m ps) =
     [IDENT_SYM c, DOT_SYM, if m = ''query'' then QUERY_SYM else IDENT_SYM m, OPEN_PAREN_SYM] @
     params_tokens ps @ [CLOSE_PAREN_SYM, SEMI_SYM]"
| "line_tokens (Assign v e) = [DOLLAR_SYM, IDENT_SYM v, EQ_SYM] @ expr_tokens e @ [SEMI_SYM]"

fun line_ok :: "line \<Rightarrow> bool" where
  "line_ok (Call c m ps) = (ident_ok c \<and> (m = ''query'' \<or> ident_ok m) \<and> list_all expr_ok ps)"
| "line_ok (Assign v e) = (ident_ok v \<and> expr_ok e)"

lemma params_rest_read:
  "list_all expr_ok qs \<Longrightarrow>
   params_rest ps (concat (map (\<lambda>e. COMMA_SYM # expr_tokens e) qs) @ CLOSE_PAREN_SYM # ts) =
     Some (ps @ qs, CLOSE_PAREN_SYM # ts)"
proof (induction qs arbitrary: ps)
  case (Cons q qs)
  let ?r = "concat (map (\<lambda>e. COMMA_SYM # expr_tokens e) qs) @ CLOSE_PAREN_SYM # ts"
  have "\<not> starts COL_COL_SYM ?r" "\<not> starts DOT_SYM ?r" by (cases qs; simp)+
  then have "p_expr (expr_tokens q @ ?r) = Some (q, ?r)" using Cons.prems by (simp add: p_expr_read)
  with Cons show ?case by (subst params_rest.simps) simp
qed (simp add: params_rest.simps)

lemma params_tokens_Cons:
  "params_tokens (e # es) = expr_tokens e @ concat (map (\<lambda>e. COMMA_SYM # expr_tokens e) es)"
  by (induction es arbitrary: e) auto

lemma p_params_read:
  assumes "list_all expr_ok ps"
  shows "p_params (params_tokens ps @ CLOSE_PAREN_SYM # ts) = Some (ps, CLOSE_PAREN_SYM # ts)"
proof (cases ps)
  case Nil
  then show ?thesis by (simp add: p_params_def params_rest.simps)
next
  case (Cons e es)
  let ?r = "concat (map (\<lambda>e. COMMA_SYM # expr_tokens e) es) @ CLOSE_PAREN_SYM # ts"
  have "\<not> starts COL_COL_SYM ?r" "\<not> starts DOT_SYM ?r" by (cases es; simp)+
  then have "p_expr (expr_tokens e @ ?r) = Some (e, ?r)" using assms Cons by (simp add: p_expr_read)
  moreover have "\<not> starts CLOSE_PAREN_SYM (expr_tokens e @ ?r)" "\<not> starts COMMA_SYM (expr_tokens e @ ?r)"
    using expr_tokens_start by blast+
  ultimately show ?thesis
    using params_rest_read [of es "[e]" ts] assms Cons by (simp add: p_params_def params_tokens_Cons)
qed

lemma method_name_read: "method_name ((if m = ''query'' then QUERY_SYM else IDENT_SYM m) # ts) = Some (m, ts)"
  by (simp add: method_name_def)

lemma p_line_read:
  assumes "line_ok l"
  shows "p_line (line_tokens l @ ts) = Some (l, ts)"
proof (cases l)
  case (Call c m ps)
  with assms p_params_read [of ps "SEMI_SYM # ts"] method_name_read [of m] show ?thesis
    by (simp add: p_line_def del: if_split)
next
  case (Assign v e)
  with assms p_expr_read [of e "SEMI_SYM # ts"] show ?thesis by (simp add: p_line_def)
qed

lemma line_tokens_start: "\<not> starts CLOSE_SECT_SYM (line_tokens l @ ts)"
  by (cases l) simp_all

lemma main_lines_read:
  "ls \<noteq> [] \<Longrightarrow> list_all line_ok ls \<Longrightarrow> main_lines (concat (map line_tokens ls) @ [CLOSE_SECT_SYM]) = (ls, True)"
proof (induction ls rule: list_nonempty_induct)
  case (single l)
  then show ?case by (subst main_lines.simps) (simp add: p_line_read)
next
  case (cons l ls)
  let ?r = "concat (map line_tokens ls) @ [CLOSE_SECT_SYM]"
  have "\<not> starts CLOSE_SECT_SYM ?r"
    using cons.hyps by (cases ls) (simp_all add: line_tokens_start)
  with cons show ?case by (subst main_lines.simps) (simp add: p_line_read)
qed

section \<open>Sections and programs\<close>

definition def_tokens :: "('l \<Rightarrow> token \<times> string) \<Rightarrow> 'l \<Rightarrow> token list" where
  "def_tokens parts l = [fst (parts l), STRING_SYM (snd (parts l)), SEMI_SYM]"

text \<open>The keyword and the string of a line of a section; a query section has no line for its name.\<close>

fun query_parts :: "query_def_line \<Rightarrow> token \<times> string" where
  "query_parts (Query_name_def_line s) = (QUERY_SYM, s)"
| "query_parts (Query_query_def_line s) = (QUERY_SYM, s)"
| "query_parts (Query_type_def_line s) = (TYPE_SYM, s)"
| "query_parts (Query_has_result_set_def_line s) = (HAS_RESULT_SET_SYM, s)"
| "query_parts (Query_parsed_def_line s) = (PARSED_SYM, s)"

fun dict_parts :: "dict_def_line \<Rightarrow> token \<times> string" where
  "dict_parts (Dict_dict_type_def_line s) = (TYPE_SYM, s)"
| "dict_parts (Dict_source_type_def_line s) = (SOURCE_TYPE_SYM, s)"
| "dict_parts (Dict_source_def_line s) = (SOURCE_SYM, s)"
| "dict_parts (Dict_delim_def_line s) = (DELIM_SYM, s)"
| "dict_parts (Dict_file_size_equiv_def_line s) = (FILE_SIZE_EQUIV_SYM, s)"

fun client_parts :: "client_def_line \<Rightarrow> token \<times> string" where
  "client_parts (Client_query_barrel_def_line s) = (QUERY_BARREL_SYM, s)"
| "client_parts (Client_user_def_line s) = (USER_SYM, s)"
| "client_parts (Client_pass_def_line s) = (PASS_SYM, s)"
| "client_parts (Client_db_def_line s) = (DB_SYM, s)"
| "client_parts (Client_host_def_line s) = (HOST_SYM, s)"
| "client_parts (Client_port_def_line s) = (PORT_SYM, s)"
| "client_parts (Client_socket_def_line s) = (SOCKET_SYM, s)"

fun table_parts :: "table_def_line \<Rightarrow> token \<times> string" where
  "table_parts (Table_client_def_line s) = (CLIENT_SYM, s)"
| "table_parts (Table_create_def_line s) = (CREATE_SYM, s)"
| "table_parts (Table_min_rows_def_line s) = (MIN_ROWS_SYM, s)"
| "table_parts (Table_data_file_def_line s) = (DATA_FILE_SYM, s)"
| "table_parts (Table_gen_data_file_def_line s) = (GEN_DATA_FILE_SYM, s)"

definition body_tokens :: "('l \<Rightarrow> token \<times> string) \<Rightarrow> string \<Rightarrow> 'l list \<Rightarrow> token list" where
  "body_tokens parts n ls = [STRING_SYM n, OPEN_SECT_SYM] @ concat (map (def_tokens parts) ls) @ [CLOSE_SECT_SYM]"

fun section_tokens :: "script_section \<Rightarrow> token list" where
  "section_tokens (Query_section n ls) = QUERY_SYM # body_tokens query_parts n ls"
| "section_tokens (Dict_section n ls) = DICT_SYM # body_tokens dict_parts n ls"
| "section_tokens (Client_section n ls) = CLIENT_SYM # body_tokens client_parts n ls"
| "section_tokens (Table_section n ls) = TABLE_SYM # body_tokens table_parts n ls"

definition body_ok :: "('l \<Rightarrow> token \<times> string) \<Rightarrow> string \<Rightarrow> 'l list \<Rightarrow> bool" where
  "body_ok parts n ls \<longleftrightarrow> NUL \<notin> set n \<and> ls \<noteq> [] \<and> list_all (\<lambda>l. NUL \<notin> set (snd (parts l))) ls"

fun section_ok :: "script_section \<Rightarrow> bool" where
  "section_ok (Query_section n ls) =
     (body_ok query_parts n ls \<and> list_all (\<lambda>l. \<forall>s. l \<noteq> Query_name_def_line s) ls)"
| "section_ok (Dict_section n ls) = body_ok dict_parts n ls"
| "section_ok (Client_section n ls) = body_ok client_parts n ls"
| "section_ok (Table_section n ls) = body_ok table_parts n ls"

definition program_tokens :: "script_section list \<Rightarrow> line list \<Rightarrow> token list" where
  "program_tokens ss ls =
     concat (map section_tokens ss) @ [MAIN_SYM, OPEN_SECT_SYM] @ concat (map line_tokens ls) @ [CLOSE_SECT_SYM]"

definition script_ok :: "script_section list \<Rightarrow> line list \<Rightarrow> bool" where
  "script_ok ss ls \<longleftrightarrow> ss \<noteq> [] \<and> ls \<noteq> [] \<and> list_all section_ok ss \<and> list_all line_ok ls"

lemma p_def_lines_read:
  assumes "k CLOSE_SECT_SYM = None"
  shows "ls \<noteq> [] \<Longrightarrow> \<forall>l \<in> set ls. \<exists>f. k (fst (parts l)) = Some f \<and> f (snd (parts l)) = l \<Longrightarrow>
    p_def_lines k (concat (map (def_tokens parts) ls) @ CLOSE_SECT_SYM # ts) = Some (ls, ts)"
proof (induction ls rule: list_nonempty_induct)
  case (single l)
  then show ?case by (subst p_def_lines.simps) (auto simp: p_def_line_def def_tokens_def)
next
  case (cons l ls)
  let ?r = "concat (map (def_tokens parts) ls) @ CLOSE_SECT_SYM # ts"
  have "\<not> starts CLOSE_SECT_SYM ?r"
    using cons.hyps cons.prems assms by (cases ls) (auto simp: def_tokens_def)
  moreover have "p_def_line k (def_tokens parts l @ ?r) = Some (l, ?r)"
    using cons.prems by (auto simp: p_def_line_def def_tokens_def)
  ultimately show ?case using cons by (subst p_def_lines.simps) simp
qed

lemma p_body_read:
  assumes "k CLOSE_SECT_SYM = None" "body_ok parts n ls"
    and "\<forall>l \<in> set ls. \<exists>f. k (fst (parts l)) = Some f \<and> f (snd (parts l)) = l"
  shows "p_body F k (body_tokens parts n ls @ ts) = Some (F n ls, ts)"
  using p_def_lines_read [of k ls parts ts] assms by (simp add: p_body_def body_tokens_def body_ok_def)

lemma p_section_read:
  assumes "section_ok s"
  shows "p_section (section_tokens s @ ts) = Some (s, ts)"
proof (cases s)
  case (Query_section n ls)
  have "\<exists>f. query_kinds (fst (query_parts l)) = Some f \<and> f (snd (query_parts l)) = l"
    if "\<forall>s. l \<noteq> Query_name_def_line s" for l
    by (cases l) (use that in \<open>simp_all add: query_kinds_def\<close>)
  then have "\<exists>f. query_kinds (fst (query_parts l)) = Some f \<and> f (snd (query_parts l)) = l" if "l \<in> set ls" for l
    using that assms Query_section by (simp add: list_all_iff)
  with Query_section assms show ?thesis

    using p_body_read [of query_kinds query_parts n ls Query_section ts] by (simp add: p_section_def query_kinds_def)
next
  case (Dict_section n ls)
  have "\<exists>f. dict_kinds (fst (dict_parts l)) = Some f \<and> f (snd (dict_parts l)) = l" for l
    by (cases l) (simp_all add: dict_kinds_def)
  with Dict_section assms show ?thesis
    using p_body_read [of dict_kinds dict_parts n ls Dict_section ts] by (simp add: p_section_def dict_kinds_def)
next
  case (Client_section n ls)
  have "\<exists>f. client_kinds (fst (client_parts l)) = Some f \<and> f (snd (client_parts l)) = l" for l
    by (cases l) (simp_all add: client_kinds_def)
  with Client_section assms show ?thesis
    using p_body_read [of client_kinds client_parts n ls Client_section ts]
    by (simp add: p_section_def client_kinds_def)
next
  case (Table_section n ls)
  have "\<exists>f. table_kinds (fst (table_parts l)) = Some f \<and> f (snd (table_parts l)) = l" for l
    by (cases l) (simp_all add: table_kinds_def)
  with Table_section assms show ?thesis
    using p_body_read [of table_kinds table_parts n ls Table_section ts]
    by (simp add: p_section_def table_kinds_def)
qed

lemma section_tokens_start: "\<not> starts MAIN_SYM (section_tokens s @ ts)"
  by (cases s) simp_all

lemma p_program_read:
  assumes "ls \<noteq> []" "list_all line_ok ls"
  shows "ss \<noteq> [] \<Longrightarrow> list_all section_ok ss \<Longrightarrow> p_program (program_tokens ss ls) = (ss, ls, True)"
proof (induction ss rule: list_nonempty_induct)
  case (single s)
  then show ?case
    using main_lines_read [OF assms] by (subst p_program.simps) (simp add: program_tokens_def p_section_read)
next
  case (cons s ss)
  have "program_tokens (s # ss) ls = section_tokens s @ program_tokens ss ls" by (simp add: program_tokens_def)
  moreover have "\<not> starts MAIN_SYM (program_tokens ss ls)"
    using cons.hyps by (cases ss) (simp_all add: program_tokens_def section_tokens_start)
  ultimately show ?case using cons by (subst p_program.simps) (simp add: p_section_read)
qed

section \<open>The text of a script\<close>

lemma expr_tokens_ok: "expr_ok e \<Longrightarrow> list_all token_ok (expr_tokens e)"
  by (induction e) (simp_all add: token_ok_def)

lemma params_tokens_ok: "list_all expr_ok es \<Longrightarrow> list_all token_ok (params_tokens es)"
  by (induction es rule: params_tokens.induct) (simp_all add: expr_tokens_ok token_ok_def)

lemma line_tokens_ok: "line_ok l \<Longrightarrow> list_all token_ok (line_tokens l)"
  by (cases l) (auto simp: expr_tokens_ok params_tokens_ok token_ok_def)

lemma body_tokens_ok:
  assumes "body_ok parts n ls" "\<And>l. token_ok (fst (parts l))"
  shows "list_all token_ok (body_tokens parts n ls)"
  using assms by (auto simp: body_ok_def body_tokens_def def_tokens_def list_all_iff token_ok_def)

lemma section_tokens_ok: "section_ok s \<Longrightarrow> list_all token_ok (section_tokens s)"
proof (cases s)
  case (Query_section n ls)
  moreover have "token_ok (fst (query_parts l))" for l by (cases l) (simp_all add: token_ok_def)
  ultimately show "section_ok s \<Longrightarrow> list_all token_ok (section_tokens s)"
    by (simp add: body_tokens_ok token_ok_def)
next
  case (Dict_section n ls)
  moreover have "token_ok (fst (dict_parts l))" for l by (cases l) (simp_all add: token_ok_def)
  ultimately show "section_ok s \<Longrightarrow> list_all token_ok (section_tokens s)"
    by (simp add: body_tokens_ok token_ok_def)
next
  case (Client_section n ls)
  moreover have "token_ok (fst (client_parts l))" for l by (cases l) (simp_all add: token_ok_def)
  ultimately show "section_ok s \<Longrightarrow> list_all token_ok (section_tokens s)"
    by (simp add: body_tokens_ok token_ok_def)
next
  case (Table_section n ls)
  moreover have "token_ok (fst (table_parts l))" for l by (cases l) (simp_all add: token_ok_def)
  ultimately show "section_ok s \<Longrightarrow> list_all token_ok (section_tokens s)"
    by (simp add: body_tokens_ok token_ok_def)
qed

lemma program_tokens_ok: "script_ok ss ls \<Longrightarrow> list_all token_ok (program_tokens ss ls)"
  using section_tokens_ok line_tokens_ok
  by (fastforce simp: script_ok_def program_tokens_def list_all_iff token_ok_def)

lemma script_read:
  assumes "script_ok ss ls"
  shows "yyparse (unlex (program_tokens ss ls)) = (ss, ls, True)"
  using assms lex_unlex [OF program_tokens_ok [OF assms]] p_program_read [of ls ss]
  by (simp add: yyparse_def script_ok_def)

text \<open>
  C15: a script is read as written.  For every list of sections and lines that the grammar can produce, the
  text written from it token by token is scanned and parsed into exactly these sections and lines, without
  a syntax error: strings with quotes, backslashes and newlines, keywords, expressions with several dots,
  empty parameter lists and the method \<open>query\<close>, whose name is a keyword, included.
\<close>

theorem script_read_back:
  assumes "script_ok ss ls"
  shows "yyparse (unlex (program_tokens ss ls)) = (ss, ls, True)"
  by (rule script_read [OF assms])

definition example_script :: "script_section list \<times> line list" where
  "example_script =
     ([Query_section ''q'' [Query_query_def_line ''select 1'', Query_type_def_line ''t'']],
      [Assign ''n'' (Number ''5''), Call ''c'' ''query'' [Concat (Str ''select '') (Variable ''n'')],
       Call ''c'' ''disconnect'' []])"

lemma example_script_ok: "script_ok (fst example_script) (snd example_script)"
  by (simp add: example_script_def script_ok_def body_ok_def ident_ok_def number_ok_def keyword_list_def
      is_letter_def is_ident_def char_class_defs)

theorem script_read_back_witness:
  "yyparse (unlex (program_tokens (fst example_script) (snd example_script))) =
     (fst example_script, snd example_script, True)"
  by (rule script_read_back [OF example_script_ok])

end
