(* ===== verification/Smack_Grammar_Spec.thy ===== *)
theory Smack_Grammar_Spec
  imports Smack_Grammar
begin

text \<open>
  The grammar of \<^verbatim>\<open>src/super-smack-yacc.yy\<close> as it is written: one rule for each production, left-recursive
  where the productions are.  \<open>%left DOT_SYM\<close> makes the right operand of a dot a simple expression.  The
  parsing functions of \<open>Smack_Grammar\<close> accept exactly the token lists that the grammar derives, and yield
  the syntax tree of the derivation.
\<close>

section \<open>The productions\<close>

inductive simple_p :: "token list \<Rightarrow> expr \<Rightarrow> bool" where
  "simple_p [NUMBER_SYM s] (Number s)"
| "simple_p [STRING_SYM s] (Str s)"
| "simple_p [DOLLAR_SYM, NUMBER_SYM s] (Argument s)"
| "simple_p [DOLLAR_SYM, IDENT_SYM v] (Variable v)"
| "simple_p [IDENT_SYM a, COL_COL_SYM, IDENT_SYM b, COL_COL_SYM, IDENT_SYM c] (Report_param a b c)"
| "simple_p [IDENT_SYM a, COL_COL_SYM, IDENT_SYM b] (Client_param a b)"

inductive expr_p :: "token list \<Rightarrow> expr \<Rightarrow> bool" where
  expr_simple: "simple_p ts e \<Longrightarrow> expr_p ts e"
| expr_dot: "expr_p ts a \<Longrightarrow> simple_p us b \<Longrightarrow> expr_p (ts @ DOT_SYM # us) (Concat a b)"

inductive params_p :: "token list \<Rightarrow> expr list \<Rightarrow> bool" where
  params_none: "params_p [] []"
| params_one: "expr_p ts e \<Longrightarrow> params_p ts [e]"
| params_more: "params_p ts es \<Longrightarrow> expr_p us e \<Longrightarrow> params_p (ts @ COMMA_SYM # us) (es @ [e])"

inductive method_p :: "token \<Rightarrow> string \<Rightarrow> bool" where
  "method_p (IDENT_SYM m) m"
| "method_p QUERY_SYM ''query''"

inductive line_p :: "token list \<Rightarrow> line \<Rightarrow> bool" where
  line_call: "method_p t m \<Longrightarrow> params_p ts es \<Longrightarrow>
    line_p ([IDENT_SYM c, DOT_SYM, t, OPEN_PAREN_SYM] @ ts @ [CLOSE_PAREN_SYM, SEMI_SYM]) (Call c m es)"
| line_assign: "expr_p ts e \<Longrightarrow> line_p ([DOLLAR_SYM, IDENT_SYM v, EQ_SYM] @ ts @ [SEMI_SYM]) (Assign v e)"

text \<open>The shape of all lists of the grammar but that of parameters: one, or a list and one more.\<close>

inductive many :: "(token list \<Rightarrow> 'a \<Rightarrow> bool) \<Rightarrow> token list \<Rightarrow> 'a list \<Rightarrow> bool" for P where
  many_one: "P ts x \<Longrightarrow> many P ts [x]"
| many_more: "many P ts xs \<Longrightarrow> P us x \<Longrightarrow> many P (ts @ us) (xs @ [x])"

inductive def_line_p :: "'l kinds \<Rightarrow> token list \<Rightarrow> 'l \<Rightarrow> bool" for kinds where
  "kinds t = Some f \<Longrightarrow> def_line_p kinds [t, STRING_SYM s, SEMI_SYM] (f s)"

inductive body_p :: "'l kinds \<Rightarrow> token list \<Rightarrow> string \<times> 'l list \<Rightarrow> bool" for kinds where
  "many (def_line_p kinds) ts ls \<Longrightarrow>
    body_p kinds ([STRING_SYM n, OPEN_SECT_SYM] @ ts @ [CLOSE_SECT_SYM]) (n, ls)"

inductive section_p :: "token list \<Rightarrow> script_section \<Rightarrow> bool" where
  "body_p query_kinds ts (n, q) \<Longrightarrow> section_p (QUERY_SYM # ts) (Query_section n q)"
| "body_p dict_kinds ts (n, d) \<Longrightarrow> section_p (DICT_SYM # ts) (Dict_section n d)"
| "body_p client_kinds ts (n, c) \<Longrightarrow> section_p (CLIENT_SYM # ts) (Client_section n c)"
| "body_p table_kinds ts (n, t) \<Longrightarrow> section_p (TABLE_SYM # ts) (Table_section n t)"

inductive program_p :: "token list \<Rightarrow> script_section list \<Rightarrow> line list \<Rightarrow> bool" where
  program: "many section_p ts ss \<Longrightarrow> many line_p us ls \<Longrightarrow>
    program_p (ts @ [MAIN_SYM, OPEN_SECT_SYM] @ us @ [CLOSE_SECT_SYM]) ss ls"

inductive_simps line_p_iff: "line_p ts l"
inductive_simps body_p_iff: "body_p k ts (n, ls)"
inductive_simps section_p_iff: "section_p ts s"
inductive_simps def_line_p_iff: "def_line_p k ts l"
inductive_simps program_p_iff: "program_p ts ss ls"

section \<open>Lists from the left\<close>

lemma many_Cons:
  assumes "many P us xs" "P ts x"
  shows "many P (ts @ us) (x # xs)"
  using assms
proof (induction rule: many.induct)
  case (many_one us y)
  then show ?case using many_more [OF many.many_one [of P ts x], of us y] by simp
next
  case (many_more us xs vs y)
  then show ?case using many.many_more [of P "ts @ us" "x # xs" vs y] by simp
qed

lemma many_parts: "many P ts xs \<longleftrightarrow> (\<exists>tss. list_all2 P tss xs \<and> ts = concat tss \<and> xs \<noteq> [])"
proof
  assume "many P ts xs"
  then show "\<exists>tss. list_all2 P tss xs \<and> ts = concat tss \<and> xs \<noteq> []"
  proof (induction rule: many.induct)
    case (many_one ts x)
    then show ?case by (intro exI [of _ "[ts]"]) simp
  next
    case (many_more ts xs us x)
    then obtain tss where "list_all2 P tss xs" "ts = concat tss" by blast
    with many_more.hyps show ?case by (intro exI [of _ "tss @ [us]"]) (simp add: list_all2_appendI)
  qed
next
  assume "\<exists>tss. list_all2 P tss xs \<and> ts = concat tss \<and> xs \<noteq> []"
  then obtain tss where t: "list_all2 P tss xs" "ts = concat tss" "xs \<noteq> []" by blast
  from t(3,1) show "many P ts xs" unfolding t(2)
  proof (induction xs arbitrary: tss rule: list_nonempty_induct)
    case (single x)
    then show ?case by (auto simp: list_all2_Cons2 intro: many_one)
  next
    case (cons x xs)
    then show ?case by (auto simp: list_all2_Cons2 intro!: many_Cons)
  qed
qed

text \<open>Induction from the left.\<close>

lemma many_induct [consumes 1, case_names one more]:
  assumes "many P ts xs" and "\<And>ts x. P ts x \<Longrightarrow> Q ts [x]"
    and "\<And>ts x us xs. P ts x \<Longrightarrow> many P us xs \<Longrightarrow> Q us xs \<Longrightarrow> Q (ts @ us) (x # xs)"
  shows "Q ts xs"
proof -
  from assms(1) obtain tss where t: "list_all2 P tss xs" "ts = concat tss" "xs \<noteq> []" by (auto simp: many_parts)
  from t(3,1) show ?thesis unfolding t(2)
  proof (induction xs arbitrary: tss rule: list_nonempty_induct)
    case (single x)
    then show ?case by (auto simp: list_all2_Cons2 intro: assms(2))
  next
    case (cons x xs)
    then obtain us uss where u: "tss = us # uss" "P us x" "list_all2 P uss xs" by (auto simp: list_all2_Cons2)
    with cons have "Q (concat uss) xs" "many P (concat uss) xs" by (auto simp: many_parts)
    with u show ?case by (simp add: assms(3))
  qed
qed

section \<open>What the parser accepts is derived\<close>

lemma starts_iff: "starts t ts \<longleftrightarrow> (\<exists>us. ts = t # us)"
  by (cases ts) (auto simp: starts_def)

lemma simple_expr_sound: "simple_expr ts = Some (e, ts') \<Longrightarrow> \<exists>us. ts = us @ ts' \<and> simple_p us e"
  by (auto simp: simple_expr_def client_expr_def token_Some Option.bind_eq_Some_conv simple_p.simps
      starts_iff split: option.splits if_splits)

lemma expr_rest_sound:
  "expr_rest e ts = Some (e', ts') \<Longrightarrow> expr_p us e \<Longrightarrow> \<exists>vs. ts = vs @ ts' \<and> expr_p (us @ vs) e'"
proof (induction e ts arbitrary: us rule: expr_rest.induct)
  case (1 e ts)
  show ?case
  proof (cases "starts DOT_SYM ts")
    case True
    with 1(2) obtain b ts1 where b: "simple_expr (tl ts) = Some (b, ts1)" "expr_rest (Concat e b) ts1 = Some (e', ts')"
      by (subst (asm) expr_rest.simps) (auto split: option.splits)
    from simple_expr_sound [OF b(1)] obtain vs where v: "tl ts = vs @ ts1" "simple_p vs b" by blast
    from expr_dot [OF 1(3) v(2)] 1(1) [OF True b(1) refl b(2)] obtain ws where
      "ts1 = ws @ ts'" "expr_p ((us @ DOT_SYM # vs) @ ws) e'" by blast
    with v(1) True show ?thesis by (intro exI [of _ "DOT_SYM # vs @ ws"]) (auto simp: starts_iff)
  next
    case False
    with 1(2,3) show ?thesis by (subst (asm) expr_rest.simps) auto
  qed
qed

lemma p_expr_sound: "p_expr ts = Some (e, ts') \<Longrightarrow> \<exists>us. ts = us @ ts' \<and> expr_p us e"
proof -
  assume "p_expr ts = Some (e, ts')"
  then obtain a ts1 where a: "simple_expr ts = Some (a, ts1)" "expr_rest a ts1 = Some (e, ts')"
    by (auto simp: p_expr_def Option.bind_eq_Some_conv)
  from simple_expr_sound [OF a(1)] obtain us where u: "ts = us @ ts1" "expr_p us a" by (auto intro: expr_simple)
  from expr_rest_sound [OF a(2) u(2)] u(1) show ?thesis by auto
qed

lemma params_rest_sound:
  "params_rest es ts = Some (es', ts') \<Longrightarrow> params_p us es \<Longrightarrow> \<exists>vs. ts = vs @ ts' \<and> params_p (us @ vs) es'"
proof (induction es ts arbitrary: us rule: params_rest.induct)
  case (1 es ts)
  show ?case
  proof (cases "starts COMMA_SYM ts")
    case True
    with 1(2) obtain e ts1 where e: "p_expr (tl ts) = Some (e, ts1)" "params_rest (es @ [e]) ts1 = Some (es', ts')"
      by (subst (asm) params_rest.simps) (auto split: option.splits)
    from p_expr_sound [OF e(1)] obtain vs where v: "tl ts = vs @ ts1" "expr_p vs e" by blast
    from params_more [OF 1(3) v(2)] 1(1) [OF True e(1) refl e(2)] obtain ws where
      "ts1 = ws @ ts'" "params_p ((us @ COMMA_SYM # vs) @ ws) es'" by blast
    with v(1) True show ?thesis by (intro exI [of _ "COMMA_SYM # vs @ ws"]) (auto simp: starts_iff)
  next
    case False
    with 1(2,3) show ?thesis by (subst (asm) params_rest.simps) auto
  qed
qed

lemma p_params_sound: "p_params ts = Some (es, ts') \<Longrightarrow> \<exists>us. ts = us @ ts' \<and> params_p us es"
proof -
  assume p: "p_params ts = Some (es, ts')"
  show ?thesis
  proof (cases "starts CLOSE_PAREN_SYM ts \<or> starts COMMA_SYM ts")
    case True
    with p have "params_rest [] ts = Some (es, ts')" by (simp add: p_params_def)
    from params_rest_sound [OF this params_none] show ?thesis by simp
  next
    case False
    with p obtain e ts1 where e: "p_expr ts = Some (e, ts1)" "params_rest [e] ts1 = Some (es, ts')"
      by (auto simp: p_params_def Option.bind_eq_Some_conv)
    from p_expr_sound [OF e(1)] obtain us where u: "ts = us @ ts1" "params_p us [e]" by (auto intro: params_one)
    from params_rest_sound [OF e(2) u(2)] u(1) show ?thesis by auto
  qed
qed

lemma method_name_sound: "method_name ts = Some (m, ts') \<Longrightarrow> \<exists>t. ts = t # ts' \<and> method_p t m"
  by (auto simp: method_name_def token_Some method_p.simps starts_iff split: if_splits)

lemma p_line_sound: "p_line ts = Some (l, ts') \<Longrightarrow> \<exists>us. ts = us @ ts' \<and> line_p us l"
proof (cases "starts DOLLAR_SYM ts")
  case True
  assume "p_line ts = Some (l, ts')"
  with True obtain v e ts1 where "ts = DOLLAR_SYM # IDENT_SYM v # EQ_SYM # ts1" "p_expr ts1 = Some (e, SEMI_SYM # ts')"
    "l = Assign v e"
    by (auto simp: p_line_def Option.bind_eq_Some_conv token_Some starts_iff)
  with p_expr_sound [of ts1] line_assign show ?thesis by fastforce
next
  case False
  assume "p_line ts = Some (l, ts')"
  with False obtain c m ts1 ts2 es where t: "ts = IDENT_SYM c # DOT_SYM # ts1" "method_name ts1 = Some (m, OPEN_PAREN_SYM # ts2)"
    "p_params ts2 = Some (es, CLOSE_PAREN_SYM # SEMI_SYM # ts')" "l = Call c m es"
    by (auto simp: p_line_def Option.bind_eq_Some_conv token_Some)
  from method_name_sound [OF t(2)] p_params_sound [OF t(3)] obtain t' us where
    m: "ts1 = t' # OPEN_PAREN_SYM # ts2" "method_p t' m" "ts2 = us @ CLOSE_PAREN_SYM # SEMI_SYM # ts'" "params_p us es"
    by blast
  from line_call [OF m(2,4), of c] t(1,4) m(1,3) show ?thesis
    by (intro exI [of _ "[IDENT_SYM c, DOT_SYM, t', OPEN_PAREN_SYM] @ us @ [CLOSE_PAREN_SYM, SEMI_SYM]"]) simp
qed

lemma main_lines_sound:
  "main_lines ts = (ls, True) \<Longrightarrow> \<exists>us. ts = us @ [CLOSE_SECT_SYM] \<and> many line_p us ls"
proof (induction ts arbitrary: ls rule: main_lines.induct)
  case (1 ts)
  from 1(2) obtain l ts1 where l: "p_line ts = Some (l, ts1)"
    by (subst (asm) main_lines.simps) (auto split: option.splits)
  from p_line_sound [OF l] obtain us where u: "ts = us @ ts1" "line_p us l" by blast
  show ?case
  proof (cases "starts CLOSE_SECT_SYM ts1")
    case True
    with l have "main_lines ts = ([l], tl ts1 = [])" by (subst main_lines.simps) simp
    with 1(2) True have "ts1 = [CLOSE_SECT_SYM]" "ls = [l]" by (auto simp: starts_iff)
    with u many_one show ?thesis by auto
  next
    case False
    with 1(2) l obtain ms where m: "main_lines ts1 = (ms, True)" "ls = l # ms"
      by (subst (asm) main_lines.simps) (auto split: prod.splits)
    with 1(1) [OF l refl False m(1)] u many_Cons [of line_p _ ms us l] show ?thesis by fastforce
  qed
qed

lemma p_def_line_sound: "p_def_line k ts = Some (l, ts') \<Longrightarrow> \<exists>us. ts = us @ ts' \<and> def_line_p k us l"
  by (auto simp: p_def_line_def Option.bind_eq_Some_conv token_Some def_line_p_iff split: list.splits)

lemma p_def_lines_sound:
  "p_def_lines k ts = Some (ls, ts') \<Longrightarrow> \<exists>us. ts = us @ CLOSE_SECT_SYM # ts' \<and> many (def_line_p k) us ls"
proof (induction k ts arbitrary: ls ts' rule: p_def_lines.induct)
  case (1 k ts)
  from 1(2) obtain l ts1 where l: "p_def_line k ts = Some (l, ts1)"
    by (subst (asm) p_def_lines.simps) (auto split: option.splits)
  from p_def_line_sound [OF l] obtain us where u: "ts = us @ ts1" "def_line_p k us l" by blast
  show ?case
  proof (cases "starts CLOSE_SECT_SYM ts1")
    case True
    with l have "p_def_lines k ts = Some ([l], tl ts1)" by (subst p_def_lines.simps) simp
    with 1(2) True have "ts1 = CLOSE_SECT_SYM # ts'" "ls = [l]" by (auto simp: starts_iff)
    with u many_one show ?thesis by auto
  next
    case False
    with 1(2) l obtain ms where m: "p_def_lines k ts1 = Some (ms, ts')" "ls = l # ms"
      by (subst (asm) p_def_lines.simps) auto
    with 1(1) [OF l refl False m(1)] u many_Cons [of "def_line_p k" _ ms us l] show ?thesis by fastforce
  qed
qed

lemma p_body_sound:
  "p_body F k ts = Some (s, ts') \<Longrightarrow> \<exists>us n ls. ts = us @ ts' \<and> body_p k us (n, ls) \<and> s = F n ls"
proof -
  assume "p_body F k ts = Some (s, ts')"
  then obtain n ts1 ls where n: "ts = STRING_SYM n # OPEN_SECT_SYM # ts1" "p_def_lines k ts1 = Some (ls, ts')" "s = F n ls"
    by (auto simp: p_body_def Option.bind_eq_Some_conv token_Some)
  from p_def_lines_sound [OF n(2)] obtain us where "ts1 = us @ CLOSE_SECT_SYM # ts'" "many (def_line_p k) us ls"
    by blast
  with n show ?thesis
    by (intro exI [of _ "[STRING_SYM n, OPEN_SECT_SYM] @ us @ [CLOSE_SECT_SYM]"]) (auto intro: body_p.intros [of k us, simplified])
qed

lemma cancel_tail: "t # us @ ts = vs @ ts \<longleftrightarrow> vs = t # us"
  using append_same_eq [of "t # us" ts vs] by auto

lemma p_section_sound: "p_section ts = Some (s, ts') \<Longrightarrow> \<exists>us. ts = us @ ts' \<and> section_p us s"
  by (cases ts)
     (auto simp: p_section_def cancel_tail split: if_splits dest!: p_body_sound intro: section_p.intros)


lemma p_program_sound: "p_program ts = (ss, ls, True) \<Longrightarrow> program_p ts ss ls"
proof -
  have "\<exists>us vs. ts = us @ [MAIN_SYM, OPEN_SECT_SYM] @ vs @ [CLOSE_SECT_SYM] \<and> many section_p us ss \<and> many line_p vs ls"
    if "p_program ts = (ss, ls, True)"
    using that
  proof (induction ts arbitrary: ss rule: p_program.induct)
    case (1 ts)
    from 1(2) obtain s ts1 where s: "p_section ts = Some (s, ts1)"
      by (subst (asm) p_program.simps) (auto split: option.splits)
    from p_section_sound [OF s] obtain us where u: "ts = us @ ts1" "section_p us s" by blast
    show ?case
    proof (cases "starts MAIN_SYM ts1")
      case True
      with 1(2) s obtain ts2 where "ts1 = MAIN_SYM # OPEN_SECT_SYM # ts2" "main_lines ts2 = (ls, True)" "ss = [s]"
        by (subst (asm) p_program.simps) (auto simp: starts_iff token_Some split: option.splits)
      with main_lines_sound [of ts2 ls] u many_one [of section_p us s] show ?thesis by auto
    next
      case False
      with 1(2) s obtain rs where r: "p_program ts1 = (rs, ls, True)" "ss = s # rs"
        by (subst (asm) p_program.simps) (auto split: prod.splits)
      from 1(1) [OF s refl False r(1)] obtain ws vs where
        "ts1 = ws @ [MAIN_SYM, OPEN_SECT_SYM] @ vs @ [CLOSE_SECT_SYM]" "many section_p ws rs" "many line_p vs ls" by blast
      with u r(2) many_Cons [of section_p ws rs us s] show ?thesis
        by (intro exI [of _ "us @ ws"] exI [of _ vs]) simp
    qed
  qed
  then show "p_program ts = (ss, ls, True) \<Longrightarrow> program_p ts ss ls" by (auto simp: program_p_iff)
qed

section \<open>What is derived the parser accepts\<close>

lemma simple_expr_complete:
  "simple_p us e \<Longrightarrow> \<not> starts COL_COL_SYM ts \<Longrightarrow> simple_expr (us @ ts) = Some (e, ts)"
  by (induction rule: simple_p.induct)
     (simp_all add: simple_expr_def client_expr_def p_number_def p_string_def p_ident_def expect_def)

lemma p_expr_complete:
  "expr_p us e \<Longrightarrow> \<not> starts COL_COL_SYM ts \<Longrightarrow> p_expr (us @ ts) = expr_rest e ts"
proof (induction arbitrary: ts rule: expr_p.induct)
  case (expr_simple us e)
  then show ?case by (simp add: p_expr_def simple_expr_complete)
next
  case (expr_dot us a vs b)
  then have "p_expr ((us @ DOT_SYM # vs) @ ts) = expr_rest a (DOT_SYM # vs @ ts)" by simp
  also have "\<dots> = expr_rest (Concat a b) ts"
    using simple_expr_complete [OF expr_dot(2,4)] by (subst expr_rest.simps) simp
  finally show ?case .
qed

lemma p_expr_ends:
  assumes "expr_p us e" "\<not> starts COL_COL_SYM ts" "\<not> starts DOT_SYM ts"
  shows "p_expr (us @ ts) = Some (e, ts)"
  using p_expr_complete [OF assms(1,2)] assms(3) by (simp add: expr_rest.simps)

lemma expr_p_start: "expr_p us e \<Longrightarrow> \<not> starts CLOSE_PAREN_SYM (us @ ts) \<and> \<not> starts COMMA_SYM (us @ ts)"
  by (induction arbitrary: ts rule: expr_p.induct) (auto elim: simple_p.cases)

lemma p_params_complete:
  "params_p us es \<Longrightarrow> starts COMMA_SYM ts \<or> starts CLOSE_PAREN_SYM ts \<Longrightarrow> p_params (us @ ts) = params_rest es ts"
proof (induction arbitrary: ts rule: params_p.induct)
  case (params_one us e)
  then have "p_expr (us @ ts) = Some (e, ts)" by (intro p_expr_ends) (auto simp: starts_iff)
  with expr_p_start [OF params_one(1), of ts] show ?case by (simp add: p_params_def)
next
  case (params_more us es vs e)
  then have "p_expr (vs @ ts) = Some (e, ts)" by (intro p_expr_ends) (auto simp: starts_iff)
  moreover have "p_params ((us @ COMMA_SYM # vs) @ ts) = params_rest es (COMMA_SYM # vs @ ts)"
    using params_more.IH by simp
  ultimately show ?case by (simp add: params_rest.simps [of es])
qed (auto simp: p_params_def)

lemma p_line_complete: "line_p us l \<Longrightarrow> p_line (us @ ts) = Some (l, ts)"
proof (induction rule: line_p.induct)
  case (line_call t m us es c)
  have "p_params (us @ CLOSE_PAREN_SYM # SEMI_SYM # ts) = Some (es, CLOSE_PAREN_SYM # SEMI_SYM # ts)"
    using p_params_complete [OF line_call(2)] by (simp add: params_rest.simps)
  moreover have "method_name (t # xs) = Some (m, xs)" for xs
    using line_call(1) by (auto simp: method_p.simps method_name_def)
  ultimately show ?case by (simp add: p_line_def)
next
  case (line_assign us e v)
  then show ?case using p_expr_ends [of us e "SEMI_SYM # ts"] by (simp add: p_line_def)
qed

lemma line_p_start: "line_p us l \<Longrightarrow> \<not> starts CLOSE_SECT_SYM (us @ ts)"
  by (auto simp: line_p.simps)

lemma many_start: "many P us xs \<Longrightarrow> (\<And>us x ts. P us x \<Longrightarrow> \<not> starts t (us @ ts)) \<Longrightarrow> \<not> starts t (us @ ts)"
  by (induction rule: many_induct) simp_all

lemma main_lines_complete: "many line_p us ls \<Longrightarrow> main_lines (us @ [CLOSE_SECT_SYM]) = (ls, True)"
proof (induction rule: many_induct)
  case (one us l)
  then show ?case by (subst main_lines.simps) (simp add: p_line_complete)
next
  case (more us l vs ls)
  have "\<not> starts CLOSE_SECT_SYM (vs @ [CLOSE_SECT_SYM])"
    by (rule many_start [OF more(2)]) (rule line_p_start)
  with more show ?case by (subst main_lines.simps) (simp add: p_line_complete)
qed

lemma p_def_lines_complete:
  assumes "k CLOSE_SECT_SYM = None"
  shows "many (def_line_p k) us ls \<Longrightarrow> p_def_lines k (us @ CLOSE_SECT_SYM # ts) = Some (ls, ts)"
proof (induction rule: many_induct)
  case (one us l)
  then show ?case by (subst p_def_lines.simps) (auto simp: p_def_line_def def_line_p_iff)
next
  case (more us l vs ls)
  have "\<not> starts CLOSE_SECT_SYM (vs @ CLOSE_SECT_SYM # ts)"
    by (rule many_start [OF more(2)]) (use assms in \<open>auto simp: def_line_p_iff\<close>)
  moreover have "p_def_line k (us @ xs) = Some (l, xs)" for xs
    using more(1) by (auto simp: p_def_line_def def_line_p_iff)
  ultimately show ?case using more.IH by (subst p_def_lines.simps) simp
qed

lemma p_body_complete:
  "k CLOSE_SECT_SYM = None \<Longrightarrow> body_p k us (n, ls) \<Longrightarrow> p_body F k (us @ ts) = Some (F n ls, ts)"
  by (auto simp: p_body_def body_p_iff p_def_lines_complete)

lemma kinds_end:
  "query_kinds CLOSE_SECT_SYM = None" "dict_kinds CLOSE_SECT_SYM = None"
  "client_kinds CLOSE_SECT_SYM = None" "table_kinds CLOSE_SECT_SYM = None"
  by (simp_all add: query_kinds_def dict_kinds_def client_kinds_def table_kinds_def)

lemma p_section_complete: "section_p us s \<Longrightarrow> p_section (us @ ts) = Some (s, ts)"
  by (auto simp: p_section_def section_p_iff p_body_complete kinds_end)

lemma p_program_complete: "program_p ts ss ls \<Longrightarrow> p_program ts = (ss, ls, True)"
proof -
  have "p_program (us @ [MAIN_SYM, OPEN_SECT_SYM] @ vs @ [CLOSE_SECT_SYM]) = (ss, ls, True)"
    if "many section_p us ss" "many line_p vs ls" for us vs
    using that(1)
  proof (induction rule: many_induct)
    case (one us s)
    then show ?case
      using main_lines_complete [OF that(2)] by (subst p_program.simps) (simp add: p_section_complete)
  next
    case (more us s ws ss)
    have "\<not> starts MAIN_SYM (ws @ xs)" for xs
      by (rule many_start [OF more(2)]) (auto simp: section_p_iff)
    with more show ?case by (subst p_program.simps) (simp add: p_section_complete)
  qed
  then show "program_p ts ss ls \<Longrightarrow> p_program ts = (ss, ls, True)" by (auto simp: program_p_iff)
qed

section \<open>The parser is the grammar\<close>

text \<open>
  C13: the parser accepts the language of the grammar.  A script is accepted with the sections \<open>ss\<close> and the
  lines \<open>ls\<close> exactly when the productions derive its tokens with this syntax tree; so a script has at most
  one meaning, and every other script is a syntax error.
\<close>

theorem parser_is_grammar:
  "yyparse text = (ss, ls, True) \<longleftrightarrow> program_p (lex text) ss ls"
  unfolding yyparse_def by (rule iffI, erule p_program_sound, erule p_program_complete)

end

