(* ===== verification/Smack_Script.thy ===== *)
theory Smack_Script
  imports Smack_Grammar Smack_Process
begin

text \<open>
  What a script does: the actions of \<^verbatim>\<open>src/super-smack-yacc.yy\<close> on the pools and variables of the process,
  and the main program of \<^verbatim>\<open>src/super-smack.cc\<close>.  A section enters an object into its pool, a line of the
  main section calls a method of a client or assigns a variable.
\<close>

section \<open>Expressions\<close>

text \<open>
  \<open>argv\<close> are the arguments left after the options, the name of the script first.  \<open>$n\<close> with a number that
  \<open>atoi\<close> makes negative reads before the array.
\<close>

fun eval :: "string list \<Rightarrow> process \<Rightarrow> expr \<Rightarrow> val result" where
  "eval argv p (Number s) = Inr (val_set_string s new_Val)"
| "eval argv p (Str s) = Inr (val_set_string s new_Val)"
| "eval argv p (Argument s) =
     (let n = atoi (c_str s)
      in if n \<ge> int (length argv) then die (Argument_missing n (int (length argv) - 1))
         else if n < 0 then undef Out_of_bounds
         else Inr (val_set_string (argv ! nat n) new_Val))"
| "eval argv p (Variable v) =
     (case fst (smap_index v (var_hash p)) of
        None \<Rightarrow> die (Uninitialized_variable v)
      | Some x \<Rightarrow> Inr x)"
| "eval argv p (Report_param a b c) =
     (case fst (smap_index a (client_pool p)) of
        None \<Rightarrow> die (Client_undefined a)
      | Some cl \<Rightarrow> get_param_val2 b c cl)"
| "eval argv p (Client_param a b) =
     (case fst (smap_index a (client_pool p)) of
        None \<Rightarrow> die (Client_undefined a)
      | Some cl \<Rightarrow> get_param_val1 b cl)"
| "eval argv p (Concat a b) =
     bindR (eval argv p a) (\<lambda>x. mapR (\<lambda>y. val_concat y x) (eval argv p b))"

text \<open>The parameters of a call, from left to right.\<close>

fun eval_params :: "string list \<Rightarrow> process \<Rightarrow> expr list \<Rightarrow> string list result" where
  "eval_params argv p [] = Inr []"
| "eval_params argv p (e # es) =
     bindR (eval argv p e) (\<lambda>v. mapR (Cons (strval v)) (eval_params argv p es))"

section \<open>Lines\<close>

definition assign :: "string \<Rightarrow> val \<Rightarrow> process \<Rightarrow> process" where
  "assign name x p =
     (let (v, m) = smap_index name (var_hash p);
          v = (case v of None \<Rightarrow> new_Val\<lparr>delete_me_not := True\<rparr> | Some v \<Rightarrow> v)
      in p\<lparr>var_hash := smap_put name (Some (val_set x v)) m\<rparr>)"

definition exec_line :: "'w db_class \<Rightarrow> 'w os \<Rightarrow> string list \<Rightarrow> line \<Rightarrow> process \<times> 'w \<Rightarrow>
    (process \<times> 'w) result option" where
  "exec_line db os argv l = (\<lambda>(p, w).
     case l of
       Call c m es \<Rightarrow>
         (case eval_params argv p es of
            Inl e \<Rightarrow> Some (Inl e)
          | Inr ps \<Rightarrow> execute db os \<lparr>ml_client = c, ml_method = m, param_list = ps\<rparr> (p, w))
     | Assign v e \<Rightarrow> Some (mapR (\<lambda>x. (assign v x p, w)) (eval argv p e)))"

fun exec_lines :: "'w db_class \<Rightarrow> 'w os \<Rightarrow> string list \<Rightarrow> line list \<Rightarrow> process \<times> 'w \<Rightarrow>
    (process \<times> 'w) result option" where
  "exec_lines db os argv [] s = Some (Inr s)"
| "exec_lines db os argv (l # ls) s =
     (case exec_line db os argv l s of
        None \<Rightarrow> None
      | Some r \<Rightarrow> (case r of Inl e \<Rightarrow> Some (Inl e) | Inr s \<Rightarrow> exec_lines db os argv ls s))"

section \<open>Sections\<close>

text \<open>\<open>new_client\<close> is what \<open>new_client(db_type)\<close> returns: the class of the clients, \<open>None\<close> for NULL.\<close>

definition run_section :: "'w db_class \<Rightarrow> 'w os \<Rightarrow> host \<Rightarrow> 'w shell \<Rightarrow> 'k option \<Rightarrow> script_section \<Rightarrow>
    process \<times> 'w \<Rightarrow> (process \<times> 'w) result" where
  "run_section db os h sh new_client sec = (\<lambda>(p, w).
     case sec of
       Query_section n ls \<Rightarrow>
         let q = (fold set_q_param ls new_Query)\<lparr>query_name := n\<rparr>
         in Inr (p\<lparr>query_pool := smap_put n (Some q) (query_pool p)\<rparr>, w)
     | Dict_section n ls \<Rightarrow>
         mapR (\<lambda>d. (p\<lparr>dict_pool := smap_put n (Some d) (dict_pool p)\<rparr>, w))
           (make_dict h ((fold update_dict_def ls new_Dict_def)\<lparr>dd_name := n\<rparr>))
     | Client_section n ls \<Rightarrow>
         bindR (foldR update_client_def ls (new_Client_def, query_pool p)) (\<lambda>(cd, pool).
         mapR (\<lambda>c. (p\<lparr>query_pool := pool, client_pool := smap_put n (Some (c\<lparr>cl_name := n\<rparr>)) (client_pool p)\<rparr>, w))
           (make_client new_client (dict_pool p) cd))
     | Table_section n ls \<Rightarrow>
         mapR (\<lambda>(pool, w). (p\<lparr>client_pool := pool\<rparr>, w))
           (validate_table db os sh (fold update_table_def ls new_Table_def) n (client_pool p, w)))"

text \<open>The sections in order, then the lines; a syntax error ends the process where it is met.\<close>

definition do_parse :: "'w db_class \<Rightarrow> 'w os \<Rightarrow> host \<Rightarrow> 'w shell \<Rightarrow> 'k option \<Rightarrow> string list \<Rightarrow> string \<Rightarrow>
    process \<times> 'w \<Rightarrow> (process \<times> 'w) result option" where
  "do_parse db os h sh new_client argv text s =
     (let (ss, ls, good) = yyparse text
      in case foldR (run_section db os h sh new_client) ss s of
           Inl e \<Rightarrow> Some (Inl e)
         | Inr s \<Rightarrow>
             map_option (\<lambda>r. bindR r (\<lambda>s. if good then Inr s else die Parse_error))
               (exec_lines db os argv ls s))"

section \<open>The main program\<close>

text \<open>\<open>usage()\<close> lists the engines and returns, unless the table has no end.\<close>

definition usage :: "'k registry \<Rightarrow> int \<Rightarrow> 'a result" where
  "usage r status = bindR (engine_lines (engines r)) (\<lambda>_. Inl (Exited status))"

text \<open>\<open>getopt_long\<close> is the list of options it returns, each with its argument; \<open>db_type\<close> and \<open>datadir\<close>.\<close>

fun get_options :: "'k registry \<Rightarrow> (char \<times> string) list \<Rightarrow> int \<times> string option \<Rightarrow> (int \<times> string option) result" where
  "get_options r [] s = Inr s"
| "get_options r ((c, optarg) # opts) (n, dir) =
     (if c = CHR ''h'' then usage r 0
      else if c = CHR ''V'' then Inl (Exited 0)
      else if c = CHR ''d'' then bindR (set_db_type optarg r) (\<lambda>n. get_options r opts (n, dir))
      else if c = CHR ''D'' then get_options r opts (n, Some optarg)
      else usage r 1)"

text \<open>\<open>set_parse_file\<close>: the text the script is read from.\<close>

definition set_parse_file :: "(string \<Rightarrow> string option) \<Rightarrow> string \<Rightarrow> string result" where
  "set_parse_file open_file fname =
     (case open_file fname of None \<Rightarrow> die (Input_open_error fname) | Some text \<Rightarrow> Inr text)"

definition wait_for_client_threads :: "(int \<Rightarrow> 'w \<Rightarrow> 'w) \<Rightarrow> process \<times> 'w \<Rightarrow> process \<times> 'w" where
  "wait_for_client_threads waitpid = (\<lambda>(p, w). (p, fold waitpid (client_pids p) w))"

text \<open>A class for a process that has no engine; its functions are never reached.\<close>

definition no_class :: "'w db_class" where
  "no_class = \<lparr>do_connect = (\<lambda>c w. undef Null_deref), safe_query = (\<lambda>q a w. undef Null_deref),
     lose_result = (\<lambda>w. undef Null_deref), disconnect = (\<lambda>c w. (c, w)), db_escape = (\<lambda>s. s),
     db_escape_extra = 0, get_table_info = (\<lambda>t w. undef Null_deref),
     load_table_data = (\<lambda>t f w. undef Null_deref), dump_result = (\<lambda>f a w. undef Null_deref)\<rparr>"

text \<open>
  \<open>main\<close>: the options, the script (\<open>input\<close> is the standard input), the run, and the wait.  The engines of
  the registry are the classes themselves; \<open>args\<close> are the arguments after the options.
\<close>

definition super_smack :: "'w db_class registry \<Rightarrow> 'w os \<Rightarrow> (int \<Rightarrow> 'w \<Rightarrow> 'w) \<Rightarrow> host \<Rightarrow> 'w shell \<Rightarrow>
    (string \<Rightarrow> string option) \<Rightarrow> string \<Rightarrow> (char \<times> string) list \<Rightarrow> string list \<Rightarrow> 'w \<Rightarrow>
    (process \<times> 'w) result option" where
  "super_smack r os waitpid h sh open_file input opts args w =
     (case bindR (get_options r opts (1, datadir h)) (\<lambda>(n, dir).
             mapR (\<lambda>text. (n, dir, text))
               (case args of [] \<Rightarrow> Inr input | f # _ \<Rightarrow> set_parse_file open_file f)) of
        Inl e \<Rightarrow> Some (Inl e)
      | Inr (n, dir, text) \<Rightarrow>
          let k = new_client_id n r
          in map_option
               (mapR (\<lambda>(p, w). if current_client p = ''main'' then wait_for_client_threads waitpid (p, w) else (p, w)))
               (do_parse (case k of None \<Rightarrow> no_class | Some db \<Rightarrow> db) os (h\<lparr>datadir := dir\<rparr>)
                  (sh\<lparr>sh_datadir := dir\<rparr>) k args text (new_process, w)))"

end
