(* ===== verification/Smack_Script_Proofs.thy ===== *)
theory Smack_Script_Proofs
  imports Smack_Script Smack_Parse_Proofs
begin

text \<open>
  How the processes of a script share its lines: the process \<open>main\<close> only forks, a client's process runs
  the client's own lines, and setting the rounds and unloading the barrel adds the plan to the counts.

\<close>

section \<open>Literal parameters\<close>

text \<open>Expressions whose value does not depend on the process.\<close>

fun literal :: "expr \<Rightarrow> bool" where
  "literal (Number s) = True"
| "literal (Str s) = True"
| "literal (Concat a b) = (literal a \<and> literal b)"
| "literal _ = False"

lemma literal_eval: "literal e \<Longrightarrow> \<exists>v. \<forall>p. eval argv p e = Inr v"
proof (induction e)
  case (Concat a b)
  then obtain x y where "\<forall>p. eval argv p a = Inr x" "\<forall>p. eval argv p b = Inr y" by auto
  then show ?case by simp
qed simp_all

lemma literal_params: "list_all literal es \<Longrightarrow> \<exists>ps. \<forall>p. eval_params argv p es = Inr ps"
proof (induction es)
  case (Cons e es)
  then obtain ps v where "\<forall>p. eval_params argv p es = Inr ps" "\<forall>p. eval argv p e = Inr v"
    using literal_eval by fastforce
  then show ?case by simp
qed simp

section \<open>Whose line it is\<close>

text \<open>A line that calls a method of another client than \<open>c\<close>; every process looks at the \<open>init\<close> lines.\<close>

fun foreign :: "string \<Rightarrow> line \<Rightarrow> bool" where
  "foreign c (Call c' m es) = (c' \<noteq> c \<and> m \<noteq> ''init'')"
| "foreign c (Assign v e) = False"

fun literal_line :: "line \<Rightarrow> bool" where
  "literal_line (Call c m es) = list_all literal es"
| "literal_line (Assign v e) = literal e"

lemma foreign_skipped:
  assumes "foreign c l" "literal_line l" "current_client p = c"
  shows "exec_line db os argv l (p, w) = Some (Inr (p, w))"
proof (cases l)
  case (Call c' m es)
  with literal_params [of es argv] assms show ?thesis by (auto simp: exec_line_def execute_def)
qed (use assms in simp)

lemma store_client_current [simp]: "current_client (store_client n c p) = current_client p"
  by (simp add: store_client_def split: option.splits)

lemma on_client_current:
  "on_client n c f (p, w) = Inr (p', w') \<Longrightarrow> current_client p' = current_client p"
  by (auto simp: on_client_def mapR_eq_Inr)

lemma collect_threads_current:
  "collect_threads db os n c (p, w) = Some (Inr (p', w')) \<Longrightarrow> current_client p' = current_client p"
  by (auto simp: collect_threads_def say_def resultE_simps)

lemma run_save_current:
  "run_save_result db os n c q f (p, w) = Inr (p', w') \<Longrightarrow> current_client p' = current_client p"
  by (auto simp: run_save_result_def Let_def split: prod.splits option.splits dest!: on_client_current)

lemma execute_method_current:
  assumes "execute_method db os n m ps c (p, w) = Inr (p', w')" "current_client p \<noteq> ''main''"
  shows "current_client p' = current_client p"
  using assms
  by (auto simp: execute_method_def execute_init_def need_params_def resultE_simps say_def
      split: if_splits dest!: on_client_current run_save_current)

lemma exec_line_current:
  assumes "exec_line db os argv l (p, w) = Some (Inr (p', w'))" "current_client p \<noteq> ''main''"
  shows "current_client p' = current_client p"
proof (cases l)
  case (Call c m es)
  then show ?thesis
    using assms
    by (auto simp: exec_line_def execute_def Let_def split: sum.splits if_splits prod.splits option.splits
        dest: execute_method_current collect_threads_current)
next
  case (Assign v e)
  with assms show ?thesis
    by (cases "smap_index v (var_hash p)") (auto simp: exec_line_def assign_def Let_def mapR_eq_Inr)
qed




section \<open>The main process\<close>

text \<open>Forking \<open>n\<close> times: the children's process ids.\<close>

fun forks :: "'w os \<Rightarrow> nat \<Rightarrow> 'w \<Rightarrow> int list \<times> 'w" where
  "forks os 0 w = ([], w)"
| "forks os (Suc n) w = (let (pid, w) = os_fork os w; (pids, w) = forks os n w in (pid # pids, w))"

fun is_init :: "line \<Rightarrow> bool" where
  "is_init (Call c m es) = (m = ''init'')"
| "is_init (Assign v e) = False"

fun starts_client :: "process \<Rightarrow> line \<Rightarrow> bool" where
  "starts_client p (Call c m es) =
     (c \<noteq> ''main'' \<and> list_all literal es \<and> (m = ''init'' \<longrightarrow> (\<exists>cl. smap_find (client_pool p) c = Some (Some cl))))"
| "starts_client p (Assign v e) = False"

lemma main_line_effect:
  assumes "current_client p = ''main''" "starts_client p l" "0 < fst (os_fork os w)"
  shows "exec_line db os argv l (p, w) = Some (Inr
    (if is_init l then (p\<lparr>client_pids := client_pids p @ [fst (os_fork os w)]\<rparr>, snd (os_fork os w)) else (p, w)))"
proof (cases l)
  case (Call c m es)
  show ?thesis
  proof (cases "m = ''init''")
    case True
    then obtain cl where "smap_find (client_pool p) c = Some (Some cl)" using assms(2) Call by auto
    then have "smap_index c (client_pool p) = (Some cl, client_pool p)" by (rule smap_index_present)
    with literal_params [of es argv] assms Call True show ?thesis
      by (cases "os_fork os w")
         (auto simp: exec_line_def execute_def execute_method_def execute_init_def Let_def)
  next
    case False
    with literal_params [of es argv] assms Call show ?thesis by (auto simp: exec_line_def execute_def)
  qed
qed (use assms in simp)



section \<open>Rounds\<close>

lemma qb_load_client [simp]: "qb (load_client p c) = qb c"
  by (simp add: load_client_def split: option.splits)

lemma qb_set_num_rounds: "qb c = Some b \<Longrightarrow> qb (set_num_rounds n c) = Some (b\<lparr>num_rounds := n\<rparr>)"
  by (simp add: set_num_rounds_def barrel_set_num_rounds_def)

lemma store_client_find:
  "smap_ok (client_pool p) \<Longrightarrow> smap_find (client_pool (store_client n c p)) n = Some (Some c)"
  by (simp add: store_client_def sm.find_put_same split: option.splits)

lemma exec_own_line:
  assumes "smap_find (client_pool p) c = Some (Some cl)" "current_client p = c"
    and "eval_params argv p es = Inr ps" "m \<noteq> ''collect_threads''"
  shows "exec_line db os argv (Call c m es) (p, w) = Some (execute_method db os c m ps cl (p, w))"
  using assms by (simp add: exec_line_def execute_def smap_index_present [OF assms(1)])

lemma set_rounds_line:
  assumes "smap_find (client_pool p) c = Some (Some cl)" "current_client p = c" "eval argv p e = Inr v"
  shows "exec_line db os argv (Call c ''set_num_rounds'' [e]) (p, w) =
    Some (Inr (store_client c (set_num_rounds (atoi (c_str (strval v))) (load_client p cl)) p, w))"
  using exec_own_line [OF assms(1,2), of argv "[e]" "[strval v]" "''set_num_rounds''" db os w] assms(3)
  by (simp add: execute_method_def need_params_def int_val_def pchar_val_def on_client_def)

lemma unload_line:
  assumes "smap_find (client_pool p) c = Some (Some cl)" "current_client p = c"
  shows "exec_line db os argv (Call c ''unload_query_barrel'' []) (p, w) =
    Some (mapR (\<lambda>(cl', w'). (store_client c cl' p, w')) (unload_query_barrel db os (load_client p cl, w)))"
  using exec_own_line [OF assms, of argv "[]" "[]" "''unload_query_barrel''" db os w] by
 (simp add: execute_method_def on_client_def)

text \<open>
  The lines \<open>c.set_num_rounds(e); c.unload_query_barrel();\<close> run the barrel \<open>n\<close> times, where \<open>n\<close> is the
  number that \<open>e\<close> evaluates to.  In the client's process both lines return; afterwards the client in the
  pool has, for each type, \<open>n\<close> times the shots of its plan added to its count, or the process has ended with
  the fault of one of the queries or a count that leaves the range of \<open>int\<close>.
\<close>

lemma script_rounds:
  assumes "smap_find (client_pool p) c = Some (Some cl)" "current_client p = c" "smap_ok (client_pool p)"
    and "qb cl = Some b" "barrel_ok b" "eval argv p e = Inr v"
  shows "case exec_lines db os argv [Call c ''set_num_rounds'' [e], Call c ''unload_query_barrel'' []] (p, w) of
      None \<Rightarrow> False
    | Some (Inl f) \<Rightarrow> f = Undefined Signed_overflow \<or>
        (\<exists>q n c w. Query_charge q n \<in> set (actions b) \<and> run_charge db os q (c, w) = Inl f)
    | Some (Inr (p', w')) \<Rightarrow> (\<exists>cl' b'. smap_find (client_pool p') c = Some (Some cl') \<and> qb cl' = Some b' \<and>
        (\<forall>k. query_count k b' = query_count k b + max 0 (atoi (c_str (strval v))) * shots_all k (actions b)))"
proof -
  let ?n = "atoi (c_str (strval v))"
  let ?cl = "set_num_rounds ?n (load_client p cl)" and ?b = "b\<lparr>num_rounds := ?n\<rparr>"
  let ?p = "store_client c ?cl p"
  have find: "smap_find (client_pool ?p) c = Some (Some ?cl)" "smap_ok (client_pool ?p)"
    using assms(3) by (simp_all add: store_client_find) (simp add: store_client_def sm.invar_put split: option.splits)
  have q: "qb (load_client ?p ?cl) = Some ?b" using assms(4) by (simp add: qb_set_num_rounds)
  have b: "barrel_ok ?b" "query_count k ?b = query_count k b" "actions ?b = actions b" "num_rounds ?b = ?n" for k
    using assms(5) by (simp_all add: barrel_ok_def typed_def query_count_def)
  have 2: "exec_line db os argv (Call c ''unload_query_barrel'' []) (?p, w) =
      Some (mapR (\<lambda>(cl', w'). (store_client c cl' ?p, w')) (unload_query_barrel db os (load_client ?p ?cl, w)))"
    using assms(2) by (intro unload_line [OF find(1)]) simp
  show ?thesis
    using unload_plan [OF q b(1), of db os w] find(2)
    by (auto simp: set_rounds_line [OF assms(1,2,6)] 2 b store_client_find split: sum.splits)
qed

end
