(* ===== verification/Smack_Sync.thy ===== *)
theory Smack_Sync
  imports Smack_Collect
begin

text \<open>
  \<open>Client::thread_sync\<close> of a parent, as the loop over system calls that it is: over every world in which
  \<open>wait4\<close>, \<open>select\<close> and \<open>read\<close> do what their documentation says it computes what the system of
  \<open>Smack_Collect\<close> computes, interrupted calls included.
\<close>

section \<open>What the parent relies on\<close>

text \<open>
  \<open>children w\<close> children are left to wait for, \<open>stream w\<close> are the bytes that can still be read from the pipe, and
  \<open>intr w\<close> bounds the number of interrupted calls in a row.
\<close>

definition parent_calls :: "'w os \<Rightarrow> int \<Rightarrow> ('w \<Rightarrow> nat) \<Rightarrow> ('w \<Rightarrow> string) \<Rightarrow> ('w \<Rightarrow> nat) \<Rightarrow> bool" where
  "parent_calls os fd children stream intr \<longleftrightarrow>
     (\<forall>w. case os_wait4 os w of (r, w') \<Rightarrow>
        stream w' = stream w \<and>
        (case r of Sys_ok \<Rightarrow> children w = Suc (children w') | Sys_intr \<Rightarrow> children w' = children w \<and> intr w' < intr w
                 | Sys_error \<Rightarrow> children w = 0 \<and> children w' = 0)) \<and>
     (\<forall>w. case os_select os False fd w of (r, w') \<Rightarrow>
        stream w' = stream w \<and> children w' = children w \<and> r \<noteq> Sys_error \<and> (r = Sys_intr \<longrightarrow> intr w' < intr w)) \<and>
     (\<forall>n w. \<exists>w'. os_read os fd n w = (Some (take n (stream w)), w') \<and> stream w' = drop n (stream w) \<and>
        children w' = children w)"

lemma parent_wait:
  assumes "parent_calls os fd children stream intr" "os_wait4 os w = (r, w')"
  shows "stream w' = stream w" "r = Sys_ok \<Longrightarrow> children w = Suc (children w')"
    "r = Sys_intr \<Longrightarrow> children w' = children w \<and> intr w' < intr w" "r = Sys_error \<Longrightarrow> children w = 0 \<and> children w' = 0"
  using assms(1) [unfolded parent_calls_def, THEN conjunct1, rule_format, of w] assms(2) by auto

lemma parent_select:
  assumes "parent_calls os fd children stream intr" "os_select os False fd w = (r, w')"
  shows "stream w' = stream w" "children w' = children w" "r \<noteq> Sys_error" "r = Sys_intr \<Longrightarrow> intr w' < intr w"
  using assms(1) [unfolded parent_calls_def, THEN conjunct2, THEN conjunct1, rule_format, of w] assms(2) by auto

lemma parent_read:
  assumes "parent_calls os fd children stream intr"
  shows "\<exists>w'. os_read os fd n w = (Some (take n (stream w)), w') \<and> stream w' = drop n (stream w) \<and> children w' = children w"
  using assms unfolding parent_calls_def by blast

section \<open>The loops\<close>

lemma select_wait_returns:
  assumes "parent_calls os fd children stream intr"
  shows "\<exists>w'. select_wait os False fd w = Some (Inr w') \<and> stream w' = stream w \<and> children w' = children w"
proof (induction "intr w" arbitrary: w rule: less_induct)
  case less
  obtain r w1 where s: "os_select os False fd w = (r, w1)" by fastforce
  note c = parent_select [OF assms s]
  show ?case
  proof (cases r)
    case Sys_ok
    with s c show ?thesis by (subst select_wait.simps) simp
  next
    case Sys_intr
    with less [of w1] s c show ?thesis by (subst select_wait.simps) simp
  qed (use c in simp)
qed

text \<open>Reading a report leaves the children alone.\<close>

lemma recv_keeps:
  assumes "\<And>n w. children (snd (rd n w)) = children w"
  shows "recv_loop rd n w m = Inr (m', w') \<Longrightarrow> children w' = children w"
proof (induction n arbitrary: w m)
  case (Suc n)
  from Suc.prems obtain m1 w1 go where s: "recv_step rd w m = Inr (m1, w1, go)"
    and r: "(if go then recv_loop rd n w1 m1 else Inr (m1, w1)) = Inr (m', w')"
    by (auto simp: bindR_eq_Inr)
  have k: "rd l v = (x, v') \<Longrightarrow> children v' = children v" for l v x v' using assms [of l v] by simp
  have "children w1 = children w"
    using s k by (auto simp: recv_step_def Let_def mapR_eq_Inr split: prod.splits option.splits if_splits)
  with r Suc.IH [of w1 m1] show ?case by (auto split: if_splits)
qed simp

lemma update_keeps:
  assumes "\<And>n w. children (snd (rd n w)) = children w" "update_from_fd rd w q = Inr (q', w')"
  shows "children w' = children w"
proof -
  from assms(2) obtain x w1 where r: "rd 1 w = (Some x, w1)"
    and "w' = w1 \<or> (\<exists>n m m'. recv_loop rd n w1 m = Inr (m', w'))"
    by (auto simp: update_from_fd_def mapR_eq_Inr split: prod.splits option.splits if_splits)
  then have "children w' = children w1" using recv_keeps [of children rd, OF assms(1)] by blast

  with assms(1) [of 1 w] r show ?thesis by simp
qed

lemma receive_from_stream:
  assumes calls: "parent_calls os fd children stream intr" and fd: "fst (report_pipe p) = fd"
    and c: "reportable c" and ab: "absorb c p = Inr p'" and w: "stream w = message c @ rest"
  shows "\<exists>w'. receive_report os (p, w) = Inr (p', w') \<and> stream w' = rest \<and> children w' = children w"
proof -
  obtain bc where bc: "qb c = Some bc" using c by (auto simp: reportable_def)
  have rc: "rep c = type_reports (qr bc)" by (simp add: rep_def bc)
  let ?body = "char_of (length (rep c)) # body_bytes (rep c)"
  have stream: "byte_stream (os_read os fd) stream"
    by unfold_locales (use parent_read [OF calls] in blast)
  have keep: "children (snd (os_read os fd n v)) = children v" for n v
    using parent_read [OF calls, of n v] by auto
  from parent_read [OF calls, of 4 w] obtain w1 where
    r4: "os_read os fd 4 w = (Some (int_bytes (connect_time c)), w1)" "stream w1 = ?body @ rest" "children w1 = children w"
    using w by (auto simp: message_eq [OF c])
  have ct: "int_of_bytes (int_bytes (connect_time c)) = connect_time c"
    using c by (intro int_of_bytes_int_bytes) (simp add: reportable_def)
  have ne: "int_bytes (connect_time c) \<noteq> []" by (simp flip: length_0_conv)
  from ab obtain p1 b m where n: "note_connect_time (connect_time c) p = Inr p1" "qb p1 = Some b"
    "merge_all (rep c) (type_reports (qr b)) = Inr m" "p' = p1\<lparr>qb := Some (b\<lparr>qr := (qr b)\<lparr>type_reports := m\<rparr>\<rparr>)\<rparr>"
    by (auto simp: absorb_def resultE_simps split: option.splits)
  have "list_all sendable (type_reports (qr bc))" using c by (simp add: reportable_def rc)
  from byte_stream.update_from_fd_merges [OF stream this reportable_bytes [OF c bc] r4(2), of "qr b"]
  obtain w2 where u: "update_from_fd (os_read os fd) w1 (qr b) = Inr ((qr b)\<lparr>type_reports := m\<rparr>, w2)" "stream w2 = rest"
    using n(3) by (auto simp: rc)
  have "children w2 = children w" using update_keeps [OF keep u(1)] r4(3) by simp
  with u n r4(1) ct ne fd show ?thesis by (simp add: receive_report_def fd_update_report_def)
qed

lemma absorb_keeps:
  "absorb c p = Inr p' \<Longrightarrow> report_pipe p' = report_pipe p \<and> parent_thread p' = parent_thread p"
  by (auto simp: absorb_def note_connect_time_def resultE_simps split: option.splits)

text \<open>Interrupted calls of \<open>wait4\<close> are repeated until one is not.\<close>

lemma wait_loop_intr:
  assumes "parent_calls os fd children stream intr"
  shows "\<exists>v. wait_loop os (p, w) = wait_loop os (p, v) \<and> fst (os_wait4 os v) \<noteq> Sys_intr
    \<and> children v = children w \<and> stream v = stream w"
proof (induction "intr w" arbitrary: w rule: less_induct)
  case less
  obtain r w1 where s: "os_wait4 os w = (r, w1)" by fastforce
  show ?case
  proof (cases "r = Sys_intr")
    case True
    with s have "wait_loop os (p, w) = wait_loop os (p, w1)" by (subst wait_loop.simps) simp
    with less [of w1] parent_wait [OF assms s] True show ?thesis by simp
  qed (use s in auto)
qed

lemma wait_loop_collects:
  assumes calls: "parent_calls os fd children stream intr"
  shows "\<forall>c \<in> set cs. reportable c \<Longrightarrow> foldR absorb cs p = Inr p' \<Longrightarrow> fst (report_pipe p) = fd \<Longrightarrow>
    parent_thread p \<noteq> 0 \<Longrightarrow> children w = length cs \<Longrightarrow> stream w = concat (map message cs) @ rest \<Longrightarrow>
    \<exists>w'. wait_loop os (p, w) = Some (Inr (p', w')) \<and> children w' = 0 \<and> stream w' = rest"
proof (induction cs arbitrary: p w)
  case Nil
  from wait_loop_intr [OF calls, of p w] obtain v where
    v: "wait_loop os (p, w) = wait_loop os (p, v)" "fst (os_wait4 os v) \<noteq> Sys_intr" "children v = children w" "stream v = stream w"
    by blast
  obtain r w1 where s: "os_wait4 os v = (r, w1)" by fastforce
  note c = parent_wait [OF calls s]
  have "r = Sys_error" using c v s Nil.prems(5) by (cases r) auto
  with s c v Nil.prems show ?case by (subst v(1), subst wait_loop.simps) simp
next
  case (Cons d ds)
  from wait_loop_intr [OF calls, of p w] obtain v where
    v: "wait_loop os (p, w) = wait_loop os (p, v)" "fst (os_wait4 os v) \<noteq> Sys_intr" "children v = children w" "stream v = stream w"
    by blast
  obtain r w1 where s: "os_wait4 os v = (r, w1)" by fastforce
  note c = parent_wait [OF calls s]
  have r: "r = Sys_ok" using c v s Cons.prems(5) by (cases r) auto
  obtain p1 where p1: "absorb d p = Inr p1" "foldR absorb ds p1 = Inr p'" using Cons.prems(2) by (auto simp: bindR_eq_Inr)
  from select_wait_returns [OF calls, of w1] obtain w2 where
    w2: "select_wait os False fd w1 = Some (Inr w2)" "stream w2 = stream w1" "children w2 = children w1" by blast
  have "stream w2 = message d @ concat (map message ds) @ rest" using w2 c(1) v(4) Cons.prems(6) by simp
  from receive_from_stream [OF calls Cons.prems(3) _ p1(1) this] Cons.prems(1) obtain w3 where
    w3: "receive_report os (p, w2) = Inr (p1, w3)" "stream w3 = concat (map message ds) @ rest" "children w3 = children w2"
    by auto
  have "\<exists>w'. wait_loop os (p1, w3) = Some (Inr (p', w')) \<and> children w' = 0 \<and> stream w' = rest"
    using Cons.prems p1 w3 w2(3) c(2) r v(3) absorb_keeps [OF p1(1)] by (intro Cons.IH) auto
  with s r w2(1) w3(1) Cons.prems(3,4) show ?case
    by (subst v(1), subst wait_loop.simps) (simp add: transfer_report_data_def)
qed

lemma thread_sync_sums:
  assumes "parent_calls os (fst (report_pipe p)) children stream intr" "family cs p" "parent_thread p \<noteq> 0"
    and "children w = length cs" "stream w = concat (map message cs)"
  shows "\<exists>p' w'. thread_sync db os (p, w) = Some (Inr (p', w')) \<and> children w' = 0 \<and> stream w' = [] \<and> parent_ok p'
    \<and> num_reported_clients p' = num_reported_clients p + int (length cs)
    \<and> total_connect_time p' = total_connect_time p + sum_list (map connect_time cs)
    \<and> max_connect_time p' = fold max (map connect_time cs) (max_connect_time p)
    \<and> (\<forall>k. count k p' = count k p + sum_list (map (count k) cs))"
proof -
  from absorb_list [OF assms(2)] obtain p' where p': "foldR absorb cs p = Inr p'" "parent_ok p'"
    "num_reported_clients p' = num_reported_clients p + int (length cs)"
    "total_connect_time p' = total_connect_time p + sum_list (map connect_time cs)"
    "max_connect_time p' = fold max (map connect_time cs) (max_connect_time p)"
    "\<forall>k. count k p' = count k p + sum_list (map (count k) cs)" by blast
  have "\<forall>c \<in> set cs. reportable c" using assms(2) by (simp add: family_def)
  from wait_loop_collects [OF assms(1) this p'(1) refl assms(3,4), of "[]"] assms(3,5) p'(2-6)
  show ?thesis by (auto simp: thread_sync_def)
qed


text \<open>A world with two children, whose first two calls are interrupted.\<close>

definition family_os :: "(nat \<times> string \<times> nat) os" where
  "family_os = \<lparr>gettimeofday = \<lambda>w. (Timeval 0 0, w), os_rand = \<lambda>w. (0, w), os_srand = \<lambda>w. w,
     os_sleep = \<lambda>n w. w, os_usleep = \<lambda>n w. w, os_fork = \<lambda>w. (- 1, w),
     os_wait4 = \<lambda>(k, s, i). if i > 0 then (Sys_intr, (k, s, i - 1))
       else if k = 0 then (Sys_error, (k, s, i)) else (Sys_ok, (k - 1, s, i)),
     os_pipe = \<lambda>w. (None, w), os_close = \<lambda>fd w. w,
     os_read = \<lambda>fd n (k, s, i). (Some (take n s), (k, drop n s, i)), os_write = \<lambda>fd bs w. (- 1, w),
     os_select = \<lambda>wr fd (k, s, i). if i > 0 then (Sys_intr, (k, s, i - 1)) else (Sys_ok, (k, s, i)),
     os_ftok = \<lambda>w. 0, os_semget = \<lambda>k n cr w. (0, w), os_setval = \<lambda>i v w. w, os_semop = \<lambda>i d w. (0, w),
     os_rmid = \<lambda>i w. w\<rparr>"

lemma family_os_calls: "parent_calls family_os fd fst (\<lambda>w. fst (snd w)) (\<lambda>w. snd (snd w))"
  by (auto simp: parent_calls_def family_os_def)


end
