(* ===== verification/Smack_Failure.thy ===== *)
theory Smack_Failure
  imports Smack_Collect
begin

text \<open>
  \<^verbatim>\<open>src/die.cc\<close>: what a fatal error does to the other processes.  \<open>die\<close> removes the semaphore that
  \<open>setup_pipe\<close> noted in \<open>kill_sem_id\<close>; a child that locks or unlocks it afterwards dies in turn.
\<close>

section \<open>The end of a process\<close>

text \<open>\<open>kill_sem_id\<close> is -1 until a pipe is set up.\<close>

definition die_exit :: "'w os \<Rightarrow> int \<Rightarrow> 'w \<Rightarrow> int \<times> 'w" where
  "die_exit os kill_sem_id w = (1, if kill_sem_id \<noteq> -1 then os_rmid os kill_sem_id w else w)"

text \<open>
  The children and the parent as in \<open>sys_step\<close>, with a flag that says whether the semaphore exists.  A child
  can fail at any time before it reports (a query fails, say); without the semaphore a child that wants to
  report fails, and one that has written its report fails when it unlocks.
\<close>

inductive fail_step :: "nat \<Rightarrow> client list \<Rightarrow> system \<times> bool \<Rightarrow> system \<times> bool \<Rightarrow> bool" for cap cs where
  works: "sys_step cap cs s s' \<Longrightarrow> fail_step cap cs (s, True) (s', True)"
| works_on: "sys_step cap cs s s' \<Longrightarrow> sem s' = sem s \<Longrightarrow> fail_step cap cs (s, False) (s', False)"
| fails: "i < length (kids s) \<Longrightarrow> kids s ! i = Ready \<Longrightarrow>
    fail_step cap cs (s, b) (s\<lparr>kids := (kids s)[i := Zombie]\<rparr>, False)"
| fails_unlock: "i < length (kids s) \<Longrightarrow> kids s ! i = Writing [] \<Longrightarrow>
    fail_step cap cs (s, False) (s\<lparr>kids := (kids s)[i := Zombie], sent := sent s @ [i]\<rparr>, False)"

text \<open>A child that has not begun to report, and never will.\<close>

definition silent :: "nat \<Rightarrow> system \<Rightarrow> bool" where
  "silent i s \<longleftrightarrow> i < length (kids s) \<and> kids s ! i \<in> {Ready, Zombie, Reaped} \<and> i \<notin> set (sent s)"

lemma silent_step:
  assumes "sys_step cap cs s s'" "sem s' = sem s" "silent i s"
  shows "silent i s'"
  using assms by (cases rule: sys_stepE) (auto simp: silent_def nth_list_update split: if_splits)

lemma silent_fail_step: "fail_step cap cs (s, False) (s', b) \<Longrightarrow> silent i s \<Longrightarrow> \<not> b \<and> silent i s'"
proof (induction "(s, False)" "(s', b)" rule: fail_step.induct)
  case (works_on)
  then show ?case using silent_step by blast
next
  case (fails j)
  then show ?case by (auto simp: silent_def nth_list_update split: if_splits)
next
  case (fails_unlock j)
  then show ?case by (auto simp: silent_def nth_list_update split: if_splits)
qed simp

lemma silent_fail_run:
  "(fail_step cap cs)\<^sup>*\<^sup>* (s, False) t \<Longrightarrow> silent i s \<Longrightarrow> \<not> snd t \<and> silent i (fst t)"
proof (induction rule: rtranclp_induct)
  case (step t u)
  then show ?case using silent_fail_step [of cap cs "fst t" "fst u" "snd u" i] by (cases t; cases u) auto
qed simp



end
