(* ===== verification/Smack_Benchmark.thy ===== *)
theory Smack_Benchmark
  imports Smack_Sync
begin

text \<open>
  A whole benchmark: the client that \<open>create_threads\<close> copies to its children, the lines \<open>connect()\<close> and
  \<open>unload_query_barrel()\<close> that each process runs on its copy, the report of each child, and the sum that
  the parent prints.
\<close>

section \<open>What a run changes\<close>

text \<open>
  A run changes the dictionaries and the statistics of a client: its types stay, and a report that could be
  sent before can be sent after.
\<close>

definition worked :: "client \<Rightarrow> client \<Rightarrow> bool" where
  "worked c c' \<longleftrightarrow> (\<exists>ds b b'. qb c = Some b \<and> c' = c\<lparr>dictionaries := ds, qb := Some b'\<rparr> \<and> barrel_ok b' \<and>
     actions b' = actions b \<and> map fst (type_reports (qr b')) = map fst (type_reports (qr b)) \<and>
     (list_all sendable (type_reports (qr b)) \<longrightarrow> list_all sendable (type_reports (qr b'))))"

lemma worked_refl: "qb c = Some b \<Longrightarrow> barrel_ok b \<Longrightarrow> worked c c"
  unfolding worked_def by (intro exI [of _ "dictionaries c"] exI [of _ b]) (cases c, simp)

lemma worked_trans: "worked c c' \<Longrightarrow> worked c' c'' \<Longrightarrow> worked c c''"
  by (fastforce simp: worked_def)

lemma safe_parsed_query_dicts:
  "safe_parsed_query db os q n ab (c, w) = Inr (i, c', w') \<Longrightarrow> \<exists>ds. c' = c\<lparr>dictionaries := ds\<rparr>"
  by (simp only: safe_parsed_query_def prod.case resultE_simps split_paired_Ex) auto

lemma run_charge_dicts:
  assumes "run_charge db os q (c, w) = Inr (c', w')"
  shows "\<exists>ds. c' = c\<lparr>dictionaries := ds\<rparr>"
proof -
  have same: "\<exists>ds. c = c\<lparr>dictionaries := ds\<rparr>" by (rule exI [of _ "dictionaries c"]) simp
  from assms obtain c1 w1 where
    1: "(if parsed q \<noteq> 0 then mapR snd (safe_parsed_query db os (query_text q) MAX_QUERY 1 (c, w))
         else mapR (\<lambda>(n, w). (c, w)) (safe_query db (c_str (query_text q)) 1 w)) = Inr (c1, w1)"
    and 2: "(if has_result_set q \<noteq> 0 then mapR (\<lambda>w. (c1, w)) (lose_result db w1) else Inr (c1, w1)) = Inr (c', w')"
    by (simp only: run_charge_def prod.case bindR_eq_Inr split_paired_Ex) blast
  from 1 same have "\<exists>ds. c1 = c\<lparr>dictionaries := ds\<rparr>"
    by (cases "parsed q = 0") (auto simp: mapR_eq_Inr dest: safe_parsed_query_dicts)
  moreover from 2 have "c' = c1" by (cases "has_result_set q = 0") (auto simp: mapR_eq_Inr)
  ultimately show ?thesis by simp
qed

lemma qtr_update_sendable:
  assumes "qtr_update t r = Inr r'" "in_int t" "in_int (min_time r)" "in_int (max_time r)"
  shows "in_int (num_queries r') \<and> in_int (max_time r') \<and> in_int (min_time r')"
  using assms by (auto simp: qtr_update_def Let_def mapR_eq_Inr chk_eq_Inr split: if_splits)

lemma update_report_sendable:
  assumes ok: "barrel_ok b" "NUL \<notin> set k" "typed b k" and t: "in_int t" and up: "update_report k t b = Inr b'"
  shows "map fst (type_reports (qr b')) = map fst (type_reports (qr b)) \<and>
    (list_all sendable (type_reports (qr b)) \<longrightarrow> list_all sendable (type_reports (qr b')))"
proof -
  let ?m = "type_reports (qr b)"
  have m: "smap_ok ?m" using ok(1) by (simp add: barrel_ok_def)
  obtain r where r: "smap_find ?m k = Some (Some r)" using ok(3) by (auto simp: typed_def)
  from up obtain r' where r': "qtr_update t r = Inr r'" "type_reports (qr b') = smap_put k (Some r') ?m"
    by (auto simp: update_report_def report_update_def c_str_id ok(2) smap_index_present [OF r] mapR_eq_Inr)
  have k: "k \<in> set (map fst ?m)" by (rule key_of [OF m r])
  have keys: "map fst (smap_put k (Some r') ?m) = map fst ?m" by (rule keys_put_present [OF k m])
  have "list_all sendable (smap_put k (Some r') ?m)" if s: "list_all sendable ?m"
  proof -
    have "(k, Some r) \<in> set ?m" using r smap_entries [OF m] by simp
    with s have "sendable (k, Some r)" by (auto simp: list_all_iff)
    with qtr_update_sendable [OF r'(1) t] have "sendable (k, Some r')" by (simp add: sendable_def)
    moreover have "(k', p) = (k, Some r') \<or> (k', p) \<in> set ?m" if "(k', p) \<in> set (smap_put k (Some r') ?m)" for k' p
      using that smap_entries [OF sm.invar_put [OF m]] smap_entries [OF m] sm.find_put [OF m]
      by (auto split: if_splits)
    ultimately show ?thesis using s by (auto simp: list_all_iff)
  qed
  with keys r'(2) show ?thesis by simp
qed

lemma in_int_elapsed [simp]: "in_int (elapsed_ms s e)"
  by (simp add: elapsed_ms_def in_int_to_int32)

lemma fire_shot_worked:
  assumes "qb c = Some b" "barrel_ok b" "Query_charge q n \<in> set (actions b)"
    and "fire_shot db os q (c, w) = Inr (c', w')"
  shows "worked c c'"
proof -
  obtain s w1 where g: "gettimeofday os w = (s, w1)" by fastforce
  from assms(4) obtain c2 w2 where rc: "run_charge db os q (c, w1) = Inr (c2, w2)"
    by (auto simp: fire_shot_def g bindR_eq_Inr)
  obtain e w3 where g2: "gettimeofday os w2 = (e, w3)" by fastforce
  from run_charge_dicts [OF rc] obtain ds where ds: "c2 = c\<lparr>dictionaries := ds\<rparr>" by blast
  with assms(1,4) obtain b' where b': "update_report (type_name q) (elapsed_ms s e) b = Inr b'" "c' = c2\<lparr>qb := Some b'\<rparr>"
    by (auto simp: fire_shot_def g rc g2 mapR_eq_Inr)
  have ty: "NUL \<notin> set (type_name q)" "typed b (type_name q)" using assms(2,3) by (auto simp: barrel_ok_def)
  from update_report_sendable [OF assms(2) ty in_int_elapsed b'(1)]
    update_report_counted [OF assms(2) ty, of "elapsed_ms s e"] b' ds assms(1)
  show ?thesis by (auto simp: worked_def)
qed

lemma unload_worked:
  assumes "qb c = Some b" "barrel_ok b"
  shows "ends (\<lambda>s. worked c (fst s)) (\<lambda>_. True) (unload_query_barrel db os (c, w))"
proof -
  let ?P = "\<lambda>s. worked c (fst s)"
  have shot: "ends ?P (\<lambda>_. True) (fire_shot db os q s)"
    if "?P s" "Query_charge q n \<in> set (actions b)" for q n s
  proof (cases "fire_shot db os q s")
    case (Inr s')
    obtain c1 w1 c2 w2 where s: "s = (c1, w1)" "s' = (c2, w2)" by fastforce
    from that(1) s(1) assms obtain b1 where "qb c1 = Some b1" "barrel_ok b1" "actions b1 = actions b"
      by (auto simp: worked_def)
    with fire_shot_worked [of c1 b1 q n db os w1 c2 w2] that Inr s show ?thesis by (auto intro: worked_trans)
  qed simp
  have act: "ends ?P (\<lambda>_. True) (fire db os a s)" if "?P s" "a \<in> set (actions b)" for a s
  proof (cases a)
    case (Query_charge q n)
    have "ends ?P (\<lambda>_. True) (repeatR (nat n) (fire_shot db os q) s)"
      by (rule ends_repeat [where P = ?P, OF that(1)]) (use shot that(2) Query_charge in blast)
    then show ?thesis by (simp add: fire_def Query_charge)
  next
    case (Sleep_action x y)
    then show ?thesis using that(1) by (cases s) (simp add: fire_def)
  qed
  have "ends ?P (\<lambda>_. True) (repeatR (nat (num_rounds b)) (foldR (fire db os) (actions b)) (c, w))"
  proof (rule ends_repeat)
    show "?P (c, w)" using worked_refl [OF assms] by simp
    show "ends ?P (\<lambda>_. True) (foldR (fire db os) (actions b) s)" if "?P s" for s
      by (rule ends_fold [where P = ?P, OF that]) (use act in blast)
  qed
  then show ?thesis by (simp add: unload_query_barrel_def assms(1))
qed


section \<open>The processes of a benchmark\<close>

text \<open>The lines between \<open>create_threads\<close> and \<open>collect_threads\<close>, and the copies they run on.\<close>

definition smack_run :: "'w db_class \<Rightarrow> 'w os \<Rightarrow> client \<times> 'w \<Rightarrow> (client \<times> 'w) result" where
  "smack_run db os s = bindR (connect db os s) (unload_query_barrel db os)"

definition child_copy :: "client \<Rightarrow> client" where
  "child_copy c = c\<lparr>parent_thread := 0, running_threads := 0\<rparr>"

text \<open>A client that is ready to be copied: nothing counted yet, and a report that fits the buffer.\<close>

definition fresh :: "client \<Rightarrow> query_barrel \<Rightarrow> bool" where
  "fresh c b \<longleftrightarrow> qb c = Some b \<and> barrel_ok b \<and> list_all sendable (type_reports (qr b)) \<and>
     (\<forall>k. query_count k b = 0) \<and> 1 + length (body_bytes (type_reports (qr b))) \<le> MAX_REPORT_LEN \<and>
     num_reported_clients c = 0 \<and> total_connect_time c = 0 \<and> max_connect_time c = 0"

text \<open>The number of bytes of a report depends on its types only.\<close>

lemma length_body_keys:
  "no_nulls m \<Longrightarrow> no_nulls m' \<Longrightarrow> map fst m = map fst m' \<Longrightarrow> length (body_bytes m) = length (body_bytes m')"
proof (induction m arbitrary: m')
  case (Cons e m)
  then obtain e' n where m': "m' = e' # n" "fst e = fst e'" "map fst m = map fst n" by (cases m') auto
  have "length (body_bytes m) = length (body_bytes n)"
    using Cons.prems m'(1,3) by (intro Cons.IH) (auto simp: no_nulls_def)
  with Cons.prems(1,2) m' show ?case by (cases e; cases e') (auto simp: no_nulls_def)
qed simp

lemma query_count_count: "qb c = Some b \<Longrightarrow> count k c = query_count k b"
  by (simp add: count_def rep_def query_count_def)

lemma connect_effect:
  assumes "connect db os (c, w) = Inr (c', w')"
  shows "\<exists>t. in_int t \<and> c' = (if parent_thread c \<noteq> 0 then
      c\<lparr>connect_time := t, num_reported_clients := num_reported_clients c + 1,
        total_connect_time := total_connect_time c + t, connected := 1\<rparr>
      else c\<lparr>connect_time := t, connected := 1\<rparr>)"
proof -
  obtain s w1 where g: "gettimeofday os w = (s, w1)" by fastforce
  from assms obtain w2 where d: "do_connect db c w1 = Inr w2" by (auto simp: connect_def g bindR_eq_Inr)
  obtain e w3 where g2: "gettimeofday os w2 = (e, w3)" by fastforce
  from assms show ?thesis
    by (intro exI [of _ "elapsed_ms s e"])
       (auto simp: connect_def g d g2 Let_def resultE_simps chk_eq_Inr split: if_splits)
qed

text \<open>What a process has after its lines: the plan's counts, and a report that can be sent.\<close>

lemma smack_run_result:
  assumes "fresh c b" "smack_run db os (c, w) = Inr (c', w')"
  shows "\<exists>t b'. qb c' = Some b' \<and> barrel_ok b' \<and> reportable c' \<and> connect_time c' = t \<and>
    map fst (rep c') = map fst (type_reports (qr b)) \<and>
    (\<forall>k. count k c' = max 0 (num_rounds b) * shots_all k (actions b)) \<and>
    report_pipe c' = report_pipe c \<and> parent_thread c' = parent_thread c \<and> max_connect_time c' = 0 \<and>
    num_reported_clients c' = (if parent_thread c \<noteq> 0 then 1 else 0) \<and>
    total_connect_time c' = (if parent_thread c \<noteq> 0 then t else 0)"
proof -
  from assms(2) obtain c1 w1 where 1: "connect db os (c, w) = Inr (c1, w1)" "unload_query_barrel db os (c1, w1) = Inr (c', w')"
    by (auto simp: smack_run_def bindR_eq_Inr)
  from connect_effect [OF 1(1)] obtain t where t: "in_int t" "c1 = (if parent_thread c \<noteq> 0 then
      c\<lparr>connect_time := t, num_reported_clients := num_reported_clients c + 1,
        total_connect_time := total_connect_time c + t, connected := 1\<rparr>
      else c\<lparr>connect_time := t, connected := 1\<rparr>)" by blast
  have b: "qb c = Some b" "barrel_ok b" "list_all sendable (type_reports (qr b))" "\<And>k. query_count k b = 0"
    "1 + length (body_bytes (type_reports (qr b))) \<le> MAX_REPORT_LEN"
    using assms(1) by (simp_all add: fresh_def)
  have q1: "qb c1 = Some b" using b(1) t(2) by simp
  from unload_worked [OF q1 b(2), of db os w1] 1(2) obtain ds b' where
    w: "c' = c1\<lparr>dictionaries := ds, qb := Some b'\<rparr>" "barrel_ok b'" "actions b' = actions b"
      "map fst (type_reports (qr b')) = map fst (type_reports (qr b))" "list_all sendable (type_reports (qr b'))"
    using b(3) q1 by (auto simp: worked_def)
  from unload_plan [OF q1 b(2), of db os w1] 1(2) w(1) b(4) have
    cnt: "query_count k b' = max 0 (num_rounds b) * shots_all k (actions b)" for k by simp
  have len: "length (body_bytes (type_reports (qr b'))) = length (body_bytes (type_reports (qr b)))"
    using w(2,4) b(2) by (intro length_body_keys) (simp_all add: barrel_ok_def)
  have q': "qb c' = Some b'" by (simp add: w(1))
  then have r': "rep c' = type_reports (qr b')" by (simp add: rep_def)
  have ct: "connect_time c' = t" using t(2) by (simp add: w(1))
  have "reportable c'"
    unfolding reportable_def r' using w(2,5) b(5) len t(1) by (simp add: q' ct barrel_ok_def)
  moreover have "connect_time c' = t" "report_pipe c' = report_pipe c" "parent_thread c' = parent_thread c"
    "max_connect_time c' = 0" "num_reported_clients c' = (if parent_thread c \<noteq> 0 then 1 else 0)"
    "total_connect_time c' = (if parent_thread c \<noteq> 0 then t else 0)"
    using t(2) assms(1) by (simp_all add: w(1) fresh_def)
  ultimately show ?thesis
    using w(2,4) cnt q' by (intro exI [of _ t] exI [of _ b']) (simp add: r' query_count_count)
qed

lemma shots_nonneg: "0 \<le> shots k a"
  by (cases a) simp_all

lemma fresh_child:
 "fresh c b \<Longrightarrow> fresh (child_copy c) b"
  by (simp add: fresh_def child_copy_def)

text \<open>
  The counts of a benchmark are clients times rounds times shots.  A client with an unused barrel is
  copied to its children; every child and the parent connect and unload the barrel on their copies, in any
  worlds and whatever the queries do, and all of them get through.  Then \<open>thread_sync\<close> of the parent, over
  system calls that behave as documented and with the reports of the children in the pipe, returns with
  exactly one client counted for each process, their connect times added up, the largest connect time of the
  children, and for every query type the number of processes times the rounds times the shots of the plan.
\<close>

lemma benchmark_sums:
  assumes c: "fresh c b" "parent_thread c \<noteq> 0"
    and kids: "\<forall>d \<in> set cs. 0 \<le> connect_time d \<and> (\<exists>db os w w'. smack_run db os (child_copy c, w) = Inr (d, w' :: 'v))"
    and parent: "smack_run db os (c, w0) = Inr (p, w1)" "0 \<le> connect_time p"
    and room: "int (length cs) < INT_MAX" "connect_time p + sum_list (map connect_time cs) \<le> INT_MAX"
      "\<forall>k. (1 + int (length cs)) * (max 0 (num_rounds b) * shots_all k (actions b)) \<le> INT_MAX"
    and calls: "parent_calls os (fst (report_pipe c)) children stream intr"
      "children w = length cs" "stream w = concat (map message cs)"
  shows "\<exists>p' w'. thread_sync db os (p, w) = Some (Inr (p', w')) \<and> children w' = 0 \<and> stream w' = [] \<and> qb p' \<noteq> None
    \<and> num_reported_clients p' = 1 + int (length cs)
    \<and> total_connect_time p' = connect_time p + sum_list (map connect_time cs)
    \<and> max_connect_time p' = fold max (map connect_time cs) 0
    \<and> (\<forall>k. count k p' = (1 + int (length cs)) * (max 0 (num_rounds b) * shots_all k (actions b)))"
proof -
  let ?n = "\<lambda>k. max 0 (num_rounds b) * shots_all k (actions b)"
  from smack_run_result [OF c(1) parent(1)] c(2) obtain bp where p: "qb p = Some bp" "barrel_ok bp"
    "map fst (rep p) = map fst (type_reports (qr b))" "\<And>k. count k p = ?n k" "report_pipe p = report_pipe c"
    "parent_thread p \<noteq> 0" "num_reported_clients p = 1" "total_connect_time p = connect_time p" "max_connect_time p = 0" by auto
  have d: "reportable d \<and> map fst (rep d) = map fst (rep p) \<and> 0 \<le> connect_time d \<and> (\<forall>k. count k d = ?n k)"
    if "d \<in> set cs" for d
  proof -
    from kids that obtain db' :: "'v db_class" and os' v v' where
      "smack_run db' os' (child_copy c, v) = Inr (d, v')" and t: "0 \<le> connect_time d" by blast
    from smack_run_result [OF fresh_child [OF c(1)] this(1)] t p(3) show ?thesis by auto
  qed
  have nn: "0 \<le> ?n k" for k
    using shots_nonneg by (auto simp: shots_all_def intro!: mult_nonneg_nonneg sum_list_nonneg)
  have sum: "sum_list (map (count k) cs) = int (length cs) * ?n k" for k
  proof -
    have "sum_list (map (count k) cs) = sum_list (map (\<lambda>_. ?n k) cs)"
      using d by (intro arg_cong [where f = sum_list] map_cong) auto
    then show ?thesis by (simp add: sum_list_triv)
  qed
  have "parent_ok p" using p(1,2) by (simp add: parent_ok_def rep_def barrel_ok_def)
  then have fam: "family cs p"
    using d p nn room parent(2) by (simp add: family_def sum algebra_simps)
  have "parent_calls os (fst (report_pipe p)) children stream intr" using calls(1) p(5) by simp
  from thread_sync_sums [where db = db, OF this fam p(6) calls(2,3)] p(4,7-9) sum show ?thesis
    by (auto simp: algebra_simps parent_ok_def)
qed


abbreviation example_client :: client where
  "example_client \<equiv> set_query_barrel example_barrel new_Client"

lemma example_fresh: "fresh example_client example_barrel"
  using example_barrel_ok
  by (auto simp: fresh_def set_query_barrel_def example_barrel_actions sendable_def new_qtr_def int_range_defs
      query_count_def smap_find_def MAX_REPORT_LEN_def new_Client_def split: option.splits)

text \<open>A database client whose queries succeed, over any world.\<close>

definition idle_db :: "'w db_class" where
  "idle_db = \<lparr>do_connect = \<lambda>c w. Inr w, safe_query = \<lambda>q ab w. Inr (0, w), lose_result = Inr,
     disconnect = \<lambda>c w. (c, w), db_escape = escape_string, db_escape_extra = 0,
     get_table_info = \<lambda>t w. Inr ((0, 5), w), load_table_data = \<lambda>t f w. Inr (0, w),
     dump_result = \<lambda>f ab w. Inr (0, w)\<rparr>"

lemma example_smack_run:
  assumes "c \<in> {example_client, child_copy example_client}"
  shows "\<exists>d w'. smack_run idle_db family_os (c, w) = Inr (d, w') \<and> connect_time d = 0"
proof -
  have g: "gettimeofday family_os w = (Timeval 0 0, w)" for w by (simp add: family_os_def)
  have ms: "elapsed_ms (Timeval 0 0) (Timeval 0 0) = 0" by (simp add: elapsed_ms_def int_range_defs)
  have "\<exists>c1. connect idle_db family_os (c, w) = Inr (c1, w) \<and> qb c1 = Some example_barrel \<and> connect_time c1 = 0"
    using assms
    by (auto simp: connect_def g idle_db_def set_query_barrel_def child_copy_def new_Client_def
        ms int_range_defs chk_def Let_def)
  then obtain c1 where c1: "connect idle_db family_os (c, w) = Inr (c1, w)"
    "qb c1 = Some example_barrel" "connect_time c1 = 0" by blast
  have "is_ok (unload_query_barrel idle_db family_os (c1, w))"
    by (cases w) (simp add: unload_query_barrel_def c1(2) example_barrel_actions numeral_2_eq_2
        numeral_3_eq_3 fire_def fire_shot_def family_os_def idle_db_def run_charge_def example_query_def
        update_report_def report_update_def smap_index_def smap_find_def qtr_update_def new_qtr_def
        chk_def int_range_defs c_str_def)
  then obtain d w' where d: "unload_query_barrel idle_db family_os (c1, w) = Inr (d, w')"
    by (auto simp: is_ok_iff)
  with unload_worked [OF c1(2) example_barrel_ok, of idle_db family_os w] c1(3) have "connect_time d = 0"
    by (auto simp: worked_def)
  with c1(1) d have "smack_run idle_db family_os (c, w) = Inr (d, w') \<and> connect_time d = 0"
    by (simp add: smack_run_def)
  then show ?thesis by blast
qed

section \<open>The report of a child\<close>

text \<open>
  What a child relies on when it writes: \<open>select\<close> returns after finitely many interruptions, the semaphore
  can be locked and unlocked, \<open>write\<close> takes everything, and closing and disconnecting leave the pipe alone.
\<close>

definition child_calls :: "'w db_class \<Rightarrow> 'w os \<Rightarrow> client \<Rightarrow> ('w \<Rightarrow> string) \<Rightarrow> ('w \<Rightarrow> nat) \<Rightarrow> bool" where
  "child_calls db os c pipe intr \<longleftrightarrow>
     (\<forall>w. case os_select os True (snd (report_pipe c)) w of (r, w') \<Rightarrow>
        pipe w' = pipe w \<and> r \<noteq> Sys_error \<and> (r = Sys_intr \<longrightarrow> intr w' < intr w)) \<and>
     (\<forall>d w. fst (os_semop os (pipe_sem_id c) d w) \<noteq> -1 \<and> pipe (snd (os_semop os (pipe_sem_id c) d w)) = pipe w) \<and>
     (\<forall>s w. fst (os_write os (snd (report_pipe c)) s w) = int (length s) \<and>
        pipe (snd (os_write os (snd (report_pipe c)) s w)) = pipe w @ s) \<and>
     (\<forall>fd w. pipe (os_close os fd w) = pipe w) \<and>
     (\<forall>c' w. pipe (snd (disconnect db c' w)) = pipe w)"

lemma child_select_returns:
  assumes "child_calls db os c pipe intr"
  shows "\<exists>w'. select_wait os True (snd (report_pipe c)) w = Some (Inr w') \<and> pipe w' = pipe w"
proof (induction "intr w" arbitrary: w rule: less_induct)
  case less
  obtain r w1 where s: "os_select os True (snd (report_pipe c)) w = (r, w1)" by fastforce
  have c: "pipe w1 = pipe w" "r \<noteq> Sys_error" "r = Sys_intr \<Longrightarrow> intr w1 < intr w"
    using assms [unfolded child_calls_def, THEN conjunct1, rule_format, of w] s by auto
  show ?case
  proof (cases r)
    case Sys_ok
    with s c show ?thesis by (subst select_wait.simps) simp
  next
    case Sys_intr
    with less [of w1] s c show ?thesis by (subst select_wait.simps) simp
  qed (use c in simp)
qed



end
