(* ===== verification/Smack_Script_Run.thy ===== *)
theory Smack_Script_Run
  imports Smack_Benchmark Smack_Script_Proofs
begin

text \<open>
  The lines of a script that make up a benchmark, in the process of their client: \<open>create_threads\<close>, \<open>connect\<close>,
  \<open>unload_query_barrel\<close> and \<open>collect_threads\<close>, from the client in the pool to the printed report.
\<close>

section \<open>From line to line\<close>

lemma load_store: "load_client (store_client n c p) c = c"
  by (cases c) (simp add: load_client_def store_client_def split: option.splits)

lemma fresh_load: "fresh c b \<Longrightarrow> fresh (load_client p c) b"
  by (auto simp: fresh_def load_client_def split: option.splits)

lemma load_client_simps [simp]:
  "parent_thread (load_client p c) = parent_thread c" "report_pipe (load_client p c) = report_pipe c"
  "running_threads (load_client p c) = running_threads c"
  by (simp_all add: load_client_def split: option.splits)

lemma exec_lines_append:
  "exec_lines db os argv ls s = Some (Inr s') \<Longrightarrow> exec_lines db os argv ls' s' = r \<Longrightarrow>
   exec_lines db os argv (ls @ ls') s = r"
  by (induction ls arbitrary: s) (auto split: option.splits sum.splits)

abbreviation restarted :: "timeval \<Rightarrow> query_barrel \<Rightarrow> query_barrel" where
  "restarted t b \<equiv> b\<lparr>qr := report_start_clock t (qr b)\<rparr>"

lemma fresh_restarted:
  "fresh c b \<Longrightarrow> fresh (c\<lparr>qb := Some (restarted t b)\<rparr>) (restarted t b)"
  by (auto simp: fresh_def barrel_ok_def typed_def query_count_def report_start_clock_def)

lemma create_loop_parent:
  "create_loop os n (c, w) = Inr (c', w', r) \<Longrightarrow> parent_thread c' \<noteq> 0 \<Longrightarrow>
   \<exists>pt t. pt \<noteq> 0 \<and> c' = c\<lparr>parent_thread := pt, running_threads := t\<rparr>"
proof (induction n arbitrary: c w)
  case 0
  then show ?case by (intro exI [of _ "parent_thread c"] exI [of _ "running_threads c"]) simp
next
  case (Suc n)
  obtain pid w1 where f: "os_fork os w = (pid, w1)" by fastforce
  show ?case
  proof (cases "parent_thread c = 0")
    case True
    with Suc show ?thesis by simp
  next
    case False
    with f Suc.prems consider "pid = - 1" "create_loop os n (c, w1) = Inr (c', w', r)"
      | t where "create_loop os n (c\<lparr>parent_thread := 1, running_threads := t\<rparr>, w1) = Inr (c', w', r)"
      by (auto simp: resultE_simps split: if_splits)
    then show ?thesis
    proof cases
      case 2
      from Suc.IH [OF 2 Suc.prems(2)] show ?thesis by auto
    qed (use Suc in blast)
  qed
qed

lemma store_client_ok: "smap_ok (client_pool p) \<Longrightarrow> smap_ok (client_pool (store_client n c p))"
  by (simp add: store_client_def sm.invar_put split: option.splits)

text \<open>What the line \<open>create_threads\<close>
 leaves in the parent.\<close>

lemma create_threads_line:
  assumes "smap_find (client_pool p) cn = Some (Some cl)" "current_client p = cn" "smap_ok (client_pool p)"
    and "fresh cl b"
    and "exec_line db os argv (Call cn ''create_threads'' [e]) (p, w) = Some (Inr (p0, w0))"
    and "smap_find (client_pool p0) cn = Some (Some c0)" "parent_thread c0 \<noteq> 0"
  shows "\<exists>t. fresh c0 (restarted t b) \<and> report_pipe c0 = report_pipe cl \<and> p0 = store_client cn c0 p"
proof -
  from assms(5) obtain ps where ps: "eval_params argv p [e] = Inr ps"
    by (cases "eval_params argv p [e]") (simp_all add: exec_line_def)
  let ?c = "load_client p cl"
  have fr: "fresh ?c b" by (rule fresh_load [OF assms(4)])
  then have q: "qb ?c = Some b" by (simp add: fresh_def)
  obtain t w1 where t: "gettimeofday os w = (t, w1)" by fastforce
  let ?s = "?c\<lparr>qb := Some (restarted t b)\<rparr>"
  from exec_own_line [OF assms(1,2) ps, of "''create_threads''" db os w] assms(5)
  have "execute_method db os cn ''create_threads'' ps cl (p, w) = Inr (p0, w0)" by simp
  with q t obtain n c' where
    c': "create_threads os n (?s, w1) = Inr (c', w0)" "p0 = store_client cn c' p"
    by (auto simp: execute_method_def on_client_def client_start_clock_def need_params_def resultE_simps
        split: if_splits)
  with assms(3,6) have "c' = c0" by (simp add: store_client_find)
  with c'(1) assms(7) obtain w2 r where "create_loop os (nat (n - 1)) (?s, w1) = Inr (c0, w2, r)"
    by (auto simp: create_threads_def mapR_eq_Inr)
  from create_loop_parent [OF this assms(7)] obtain pt m where
    "c0 = ?s\<lparr>parent_thread := pt, running_threads := m\<rparr>" by blast
  with fresh_restarted [OF fr, of t] c'(2) \<open>c' = c0\<close> show ?thesis by (auto simp: fresh_def)
qed

text \<open>The two lines in between are \<open>smack_run\<close> on the client of the pool.\<close>

lemma connect_unload_eq:
  assumes "smap_find (client_pool p0) cn = Some (Some c0)" "current_client p0 = cn" "smap_ok (client_pool p0)"
  shows "exec_lines db os argv [Call cn ''connect'' [], Call cn ''unload_query_barrel'' []] (p0, w0) =
    Some (bindR (connect db os (load_client p0 c0, w0)) (\<lambda>(c', w'). mapR (\<lambda>(c, w).
      (store_client cn c (store_client cn c' p0), w)) (unload_query_barrel db os (c', w'))))"
proof -
  have "exec_line db os argv (Call cn ''connect'' []) (p0, w0) =
      Some (mapR (\<lambda>(c, w). (store_client cn c p0, w)) (connect db os (load_client p0 c0, w0)))"
    using exec_own_line [OF assms(1,2), of argv "[]" "[]" "''connect''" db os w0]
    by (simp add: execute_method_def on_client_def)
  moreover have "exec_line db os argv (Call cn ''unload_query_barrel'' []) (store_client cn c' p0, w') =
      Some (mapR (\<lambda>(c, w). (store_client cn c (store_client cn c' p0), w)) (unload_query_barrel db os (c', w')))" for c' w'
    using unload_line [OF store_client_find [OF assms(3), where c = c' and n = cn]] assms(2) by (simp add: load_store)
  ultimately show ?thesis
    by (cases "connect db os (load_client p0 c0, w0)") (auto split: sum.split)
qed

lemma connect_unload_lines:
  assumes "smap_find (client_pool p0) cn = Some (Some c0)" "current_client p0 = cn" "smap_ok (client_pool p0)"
    and "exec_lines db os argv [Call cn ''connect'' [], Call cn ''unload_query_barrel'' []] (p0, w0) = Some (Inr (p1, w1))"
  shows "\<exists>c' c1. smack_run db os (load_client p0 c0, w0) = Inr (c1, w1) \<and> p1 = store_client cn c1 (store_client cn c' p0)"
  using assms(4) unfolding connect_unload_eq [OF assms(1-3)]
  by (auto simp: smack_run_def bindR_eq_Inr mapR_eq_Inr)

text \<open>The lines after the client is set up, from \<open>create_threads\<close> to \<open>collect_threads\<close>.\<close>

lemma script_counts:
  assumes client: "smap_find (client_pool p) cn = Some (Some cl)" "current_client p = cn" "smap_ok (client_pool p)"
      "fresh cl b"
    and create: "exec_line db os argv (Call cn ''create_threads'' [e]) (p, w) = Some (Inr (p0, w0))"
      "smap_find (client_pool p0) cn = Some (Some c0)" "parent_thread c0 \<noteq> 0"
    and run: "exec_lines db os argv [Call cn ''connect'' [], Call cn ''unload_query_barrel'' []] (p0, w0) =
        Some (Inr (p1, w1))" "smap_find (client_pool p1) cn = Some (Some c1)" "0 \<le> connect_time c1"
    and kids: "\<forall>d \<in> set cs. 0 \<le> connect_time d \<and>
        (\<exists>db os v v'. smack_run db os (child_copy (load_client p0 c0), v) = Inr (d, v' :: 'v))"
    and room: "int (length cs) < INT_MAX" "connect_time c1 + sum_list (map connect_time cs) \<le> INT_MAX"
      "\<forall>k. (1 + int (length cs)) * (max 0 (num_rounds b) * shots_all k (actions b)) \<le> INT_MAX"
    and calls: "parent_calls os (fst (report_pipe c0)) children stream intr"
      "children w1 = length cs" "stream w1 = concat (map message cs)"
  shows "\<exists>c2 w2. exec_lines db os argv [Call cn ''collect_threads'' []] (p1, w1) =
      Some (mapR (\<lambda>report. (say (''Query Barrel Report for client '' @ cn @ [NL] @ print_connect_times c2 @ report)
         (store_client cn c2 p1), w2)) (print_barrel_report c2))
    \<and> num_reported_clients c2 = 1 + int (length cs)
    \<and> total_connect_time c2 = connect_time c1 + sum_list (map connect_time cs)
    \<and> (\<forall>k. count k c2 = (1 + int (length cs)) * (max 0 (num_rounds b) * shots_all k (actions b)))"
proof -
  from create_threads_line [OF client create] obtain t where
    t: "fresh c0 (restarted t b)" "report_pipe c0 = report_pipe cl" "p0 = store_client cn c0 p" by blast
  then have p0: "current_client p0 = cn" "smap_ok (client_pool p0)"
    using client(2,3) by (simp_all add: store_client_ok)
  from connect_unload_lines [OF create(2) p0 run(1)] obtain c' c where
    c: "smack_run db os (load_client p0 c0, w0) = Inr (c, w1)" "p1 = store_client cn c (store_client cn c' p0)" by blast
  have p1: "smap_ok (client_pool p1)" "current_client p1 = cn" "load_client p1 c1 = c1" "c = c1"
    using c(2) p0 run(2) by (simp_all add: store_client_ok store_client_find load_store)
  have "parent_calls os (fst (report_pipe (load_client p0 c0))) children stream intr" using calls(1) by simp
  from benchmark_sums [OF fresh_load [OF t(1)] _ kids c(1) _ room(1) _ _ this calls(2,3), unfolded p1(4)]
    create(3) run(3) room(2,3)
  obtain p' w' where p': "thread_sync db os (c1, w1) = Some (Inr (p', w'))" "num_reported_clients p' = 1 + int (length cs)"
    "total_connect_time p' = connect_time c1 + sum_list (map connect_time cs)" "qb p' \<noteq> None"
    "\<And>k. count k p' = (1 + int (length cs)) * (max 0 (num_rounds b) * shots_all k (actions b))"
    by auto
  then obtain q where q: "qb p' = Some q" by blast
  obtain now w2 where now: "gettimeofday os w' = (now, w2)" by fastforce
  let ?c2 = "p'\<lparr>qb := Some (q\<lparr>qr := report_stop_clock now (qr q)\<rparr>)\<rparr>"
  have "collect_threads db os cn c1 (p1, w1) =
      Some (mapR (\<lambda>report. (say (''Query Barrel Report for client '' @ cn @ [NL] @ print_connect_times ?c2 @ report)
         (store_client cn ?c2 p1), w2)) (print_barrel_report ?c2))"
    by (simp add: collect_threads_def p1(3) p'(1) client_stop_clock_def q now)
  moreover have "exec_lines db os argv [Call cn ''collect_threads'' []] (p1, w1) = collect_threads db os cn c1 (p1, w1)"
    using p1(2) by (simp add: exec_line_def execute_def smap_index_present [OF run(2)] split: option.split sum.split)
  moreover have "count k ?c2 = count k p'" for k
    by (simp add: count_def rep_def q report_stop_clock_def)
  ultimately show ?thesis using p' by (intro exI [of _ ?c2] exI [of _ w2]) simp
qed

section \<open>The lines before\<close>

lemma set_rounds_fresh: "fresh c b \<Longrightarrow> fresh (set_num_rounds n c) (b\<lparr>num_rounds := n\<rparr>)"
  by (auto simp: fresh_def set_num_rounds_def barrel_set_num_rounds_def barrel_ok_def typed_def query_count_def)

text \<open>After \<open>init\<close> the process is the client's, with a pipe, or still \<open>main\<close>.\<close>

lemma init_line:
  assumes "smap_find (client_pool p) cn = Some (Some cl)" "current_client p = ''main''"
    and "exec_line db os argv (Call cn ''init'' []) (p, w) = Some (Inr (p', w'))"
  shows "current_client p' = ''main'' \<or> (\<exists>fds sid. p' =
      (store_client cn ((load_client p cl)\<lparr>report_pipe := fds, pipe_sem_id := sid\<rparr>) p)\<lparr>current_client := cn\<rparr>)"
proof -
  have "exec_line db os argv (Call cn ''init'' []) (p, w) = Some (execute_method db os cn ''init'' [] cl (p, w))"
    by (simp add: exec_line_def execute_def smap_index_present [OF assms(1)])
  with assms(3) have e: "execute_init os cn cl (p, w) = Inr (p', w')" by (simp add: execute_method_def)
  obtain pid w1 where f: "os_fork os w = (pid, w1)" by fastforce
  show ?thesis
  proof (cases "pid = 0")
    case True
    with e f assms(2) obtain c' w2 where c': "client_init os (load_client p cl, w1) = Inr (c', w2)"
        "p' = (store_client cn c' p)\<lparr>current_client := cn\<rparr>"
      by (auto simp: execute_init_def on_client_def resultE_simps)
    from c'(1) have "\<exists>fds sid. c' = (load_client p cl)\<lparr>report_pipe := fds, pipe_sem_id := sid\<rparr>"
      by (auto simp: client_init_def setup_pipe_def resultE_simps Let_def split: option.splits prod.splits if_splits)
    with c'(2) show ?thesis by blast
  qed (use e f assms(2) in \<open>auto simp: execute_init_def split: if_splits\<close>)
qed

lemma main_skips:
  "current_client p \<noteq> cn \<Longrightarrow> m \<noteq> ''init'' \<Longrightarrow> exec_line db os argv (Call cn m es) (p, w) = Some (Inr (p', w')) \<Longrightarrow> p' = p"
  by (auto simp: exec_line_def execute_def split: sum.splits)

lemma started_lines:
  assumes client: "smap_find (client_pool p) cn = Some (Some cl)" "smap_ok (client_pool p)" "fresh cl b"
    and main: "current_client p = ''main''" "cn \<noteq> ''main''" and e: "\<And>p. eval argv p e = Inr v"
    and run: "exec_lines db os argv [Call cn ''init'' [], Call cn ''set_num_rounds'' [e], Call cn ''create_threads'' [e']]
        (p, w) = Some (Inr (p0, w0))" "current_client p0 = cn"
  shows "\<exists>p3 w3 c3. exec_line db os argv (Call cn ''create_threads'' [e']) (p3, w3) = Some (Inr (p0, w0))
    \<and> smap_find (client_pool p3) cn = Some (Some c3) \<and> current_client p3 = cn \<and> smap_ok (client_pool p3)
    \<and> fresh c3 (b\<lparr>num_rounds := atoi (c_str (strval v))\<rparr>)"
proof -
  from run(1) obtain p1 w1 p2 w2 where
    1: "exec_line db os argv (Call cn ''init'' []) (p, w) = Some (Inr (p1, w1))"
    and 2: "exec_line db os argv (Call cn ''set_num_rounds'' [e]) (p1, w1) = Some (Inr (p2, w2))"
    and 3: "exec_line db os argv (Call cn ''create_threads'' [e']) (p2, w2) = Some (Inr (p0, w0))"
    by (auto split: option.splits sum.splits)
  have "current_client p1 \<noteq> ''main''"
    using main_skips [OF _ _ 2] main_skips [OF _ _ 3] run(2) main(2) by auto
  with init_line [OF client(1) main(1) 1] obtain fds sid where p1: "p1 =
      (store_client cn ((load_client p cl)\<lparr>report_pipe := fds, pipe_sem_id := sid\<rparr>) p)\<lparr>current_client := cn\<rparr>" by blast
  let ?c = "(load_client p cl)\<lparr>report_pipe := fds, pipe_sem_id := sid\<rparr>"
  have f1: "smap_find (client_pool p1) cn = Some (Some ?c)" "current_client p1 = cn" "smap_ok (client_pool p1)"
    using client(2) by (simp_all add: p1 store_client_find store_client_ok)
  have "fresh ?c b" using fresh_load [OF client(3)] by (simp add: fresh_def)
  then have "fresh (set_num_rounds (atoi (c_str (strval v))) (load_client p1 ?c)) (b\<lparr>num_rounds := atoi (c_str (strval v))\<rparr>)"
    by (intro set_rounds_fresh fresh_load)
  with 2 3 f1 set_rounds_line [OF f1(1,2) e, of db os w1] show ?thesis
    by (auto simp: store_client_find store_client_ok)
qed

section \<open>The whole benchmark\<close>

text \<open>
  C2: the benchmark of a script counts processes times rounds times shots.  After the sections of a script
  have defined a client with an unused barrel, its line \<open>init\<close> forks the client's process; there
  \<open>set_num_rounds\<close> sets the rounds to a number of the command line or of the script, and \<open>create_threads\<close> forks
  children.  All of them and the parent run the lines \<open>connect\<close> and \<open>unload_query_barrel\<close> on their copies of
  the client, whatever their queries do, and get through, and the reports of the children reach the pipe.
  Then \<open>collect_threads\<close> prints, and leaves in the pool, a client with one reported client for each process,
  their connect times added up, and for every query type the number of processes times the rounds times the
  shots of the barrel.
\<close>

theorem script_benchmark:
  assumes client: "smap_find (client_pool p) cn = Some (Some cl)" "smap_ok (client_pool p)" "fresh cl b"
    and main: "current_client p = ''main''" "cn \<noteq> ''main''" and rounds: "\<And>p. eval argv p e = Inr v"
    and start: "exec_lines db os argv [Call cn ''init'' [], Call cn ''set_num_rounds'' [e], Call cn ''create_threads'' [e']]
        (p, w) = Some (Inr (p0, w0))" "current_client p0 = cn"
      "smap_find (client_pool p0) cn = Some (Some c0)" "parent_thread c0 \<noteq> 0"
    and run: "exec_lines db os argv [Call cn ''connect'' [], Call cn ''unload_query_barrel'' []] (p0, w0) =
        Some (Inr (p1, w1))" "smap_find (client_pool p1) cn = Some (Some c1)" "0 \<le> connect_time c1"
    and kids: "\<forall>d \<in> set cs. 0 \<le> connect_time d \<and>
        (\<exists>db os v v'. smack_run db os (child_copy (load_client p0 c0), v) = Inr (d, v' :: 'v))"
    and room: "int (length cs) < INT_MAX" "connect_time c1 + sum_list (map connect_time cs) \<le> INT_MAX"
      "\<forall>k. (1 + int (length cs)) * (max 0 (atoi (c_str (strval v))) * shots_all k (actions b)) \<le> INT_MAX"
    and calls: "parent_calls os (fst (report_pipe c0)) children stream intr"
      "children w1 = length cs" "stream w1 = concat (map message cs)"
  shows "\<exists>c2 w2. exec_lines db os argv [Call cn ''collect_threads'' []] (p1, w1) =
      Some (mapR (\<lambda>report. (say (''Query Barrel Report for client '' @ cn @ [NL] @ print_connect_times c2 @ report)
         (store_client cn c2 p1), w2)) (print_barrel_report c2))
    \<and> num_reported_clients c2 = 1 + int (length cs)
    \<and> total_connect_time c2 = connect_time c1 + sum_list (map connect_time cs)
    \<and> (\<forall>k. count k c2 = (1 + int (length cs)) * (max 0 (atoi (c_str (strval v))) * shots_all k (actions b)))"
proof -
  from started_lines [OF client main rounds start(1,2)] obtain p3 w3 c3 where
    c: "exec_line db os argv (Call cn ''create_threads'' [e']) (p3, w3) = Some (Inr (p0, w0))"
      "smap_find (client_pool p3) cn = Some (Some c3)" "current_client p3 = cn" "smap_ok (client_pool p3)"
      "fresh c3 (b\<lparr>num_rounds := atoi (c_str (strval v))\<rparr>)" by blast
  from script_counts [OF c(2-5,1) start(3,4) run kids room(1,2) _ calls] room(3) show ?thesis by simp
qed

text \<open>An operating system that forks the client's process first, then children that have written \<open>m\<close>.\<close>

definition fork_os :: "string \<Rightarrow> (nat \<times> string \<times> nat) os" where
  "fork_os m = family_os\<lparr>os_fork := \<lambda>(k, s, i). if i = 1 then (0, (k, s, 0)) else (5, (k + 1, s @ m, i)),
     os_pipe := \<lambda>w. (Some (3, 4), w)\<rparr>"

lemma fork_os_calls: "parent_calls (fork_os m) fd fst (\<lambda>w. fst (snd w)) (\<lambda>w. snd (snd w))"
  using family_os_calls by (simp add: parent_calls_def fork_os_def)

lemma fork_os_simps:
  "gettimeofday (fork_os m) w = (Timeval 0 0, w)" "os_sleep (fork_os m) n w = w" "os_usleep (fork_os m) n w = w"
  "os_fork (fork_os m) (k, s, i) = (if i = 1 then (0, (k, s, 0)) else (5, (k + 1, s @ m, i)))"
  "os_close (fork_os m) fd w = w" "os_pipe (fork_os m) w = (Some (3, 4), w)" "os_srand (fork_os m) w = w"
  "os_ftok (fork_os m) w = 0" "os_semget (fork_os m) key n cr w = (0, w)" "os_setval (fork_os m) sid v w = w"
  by (simp_all add: fork_os_def family_os_def)

lemma idle_smack_run:
  assumes g: "\<And>w. gettimeofday os w = (Timeval 0 0, w)" "\<And>n w. os_sleep os n w = w" "\<And>n w. os_usleep os n w = w"
    and c: "qb c = Some example_barrel" "num_reported_clients c = 0" "total_connect_time c = 0"
  shows "\<exists>d. smack_run idle_db os (c, w) = Inr (d, w) \<and> connect_time d = 0"
proof -
  have ms: "elapsed_ms (Timeval 0 0) (Timeval 0 0) = 0" by (simp add: elapsed_ms_def int_range_defs)
  have "\<exists>c1. connect idle_db os (c, w) = Inr (c1, w) \<and> qb c1 = Some example_barrel \<and> connect_time c1 = 0"
    using c by (auto simp: connect_def g idle_db_def ms int_range_defs chk_def Let_def)
  then obtain c1 where c1: "connect idle_db os (c, w) = Inr (c1, w)"
    "qb c1 = Some example_barrel" "connect_time c1 = 0" by blast
  have "\<exists>d. unload_query_barrel idle_db os (c1, w) = Inr (d, w)"
    by (simp add: unload_query_barrel_def c1(2) example_barrel_actions numeral_2_eq_2
        numeral_3_eq_3 fire_def fire_shot_def g idle_db_def run_charge_def example_query_def
        update_report_def report_update_def smap_index_def smap_find_def qtr_update_def new_qtr_def
        chk_def int_range_defs c_str_def)
  then obtain d where d: "unload_query_barrel idle_db os (c1, w) = Inr (d, w)" by blast
  with unload_worked [OF c1(2) example_barrel_ok, of idle_db os w] c1(3) have "connect_time d = 0"
    by (auto simp: worked_def)
  with c1(1) d show ?thesis by (auto simp: smack_run_def)
qed

text \<open>The first three lines under this system, and the two after them.\<close>

definition started :: "process \<Rightarrow> int \<Rightarrow> client \<Rightarrow> client" where
  "started p n c = (load_client p c)\<lparr>report_pipe := (3, 4), pipe_sem_id := 0,
     qb := map_option (\<lambda>b. restarted (Timeval 0 0) (b\<lparr>num_rounds := n\<rparr>)) (qb c),
     parent_thread := 1, running_threads := 3\<rparr>"

lemma load_store_own: "load_client ((store_client n c p)\<lparr>current_client := n'\<rparr>) c = c"
  using load_store [of n c p] by (simp add: load_client_def split: option.splits)

lemma fork_start:
  assumes c: "smap_find (client_pool p) n = Some (Some c)" "smap_ok (client_pool p)" "current_client p = ''main''"
      "qb c = Some b" "parent_thread c = 1" "running_threads c = 1"
    and e: "\<And>p. eval argv p e = Inr v" "\<And>p. eval argv p e' = Inr v'" "atoi (c_str (strval v')) = 3"
  shows "\<exists>q. exec_lines db (fork_os m) argv [Call n ''init'' [], Call n ''set_num_rounds'' [e], Call n ''create_threads'' [e']]
      (p, (0, [], 1)) = Some (Inr (store_client n (started p (atoi (c_str (strval v))) c) q, (2, m @ m, 0)))
    \<and> current_client q = n \<and> smap_ok (client_pool q)"
proof -
  let ?C = "(load_client p c)\<lparr>report_pipe := (3, 4), pipe_sem_id := 0\<rparr>" and ?n = "atoi (c_str (strval v))"
  let ?Q = "(store_client n ?C p)\<lparr>current_client := n\<rparr>"
  let ?R = "store_client n (set_num_rounds ?n ?C) ?Q"
  have qb: "qb (load_client p c) = Some b" using c(4) by (simp add: load_client_def split: option.split)
  have Q: "smap_find (client_pool ?Q) n = Some (Some ?C)" "current_client ?Q = n" "smap_ok (client_pool ?Q)"
    using c(2) by (simp_all add: store_client_find store_client_ok)
  then have R: "smap_find (client_pool ?R) n = Some (Some (set_num_rounds ?n ?C))" "current_client ?R = n"
      "smap_ok (client_pool ?R)"
    by (simp_all add: store_client_find store_client_ok)
  have 1: "exec_line db (fork_os m) argv (Call n ''init'' []) (p, (0, [], 1)) = Some (Inr (?Q, (0, [], 0)))"
    by (simp add: exec_line_def execute_def smap_index_present [OF c(1)] execute_method_def execute_init_def c(3)
        on_client_def client_init_def setup_pipe_def fork_os_simps Let_def)
  have 2: "exec_line db (fork_os m) argv (Call n ''set_num_rounds'' [e]) (?Q, (0, [], 0)) = Some (Inr (?R, (0, [], 0)))"
    unfolding set_rounds_line [OF Q(1,2) e(1)] load_store_own ..
  have 3: "exec_line db (fork_os m) argv (Call n ''create_threads'' [e']) (?R, (0, [], 0)) =
      Some (Inr (store_client n (started p ?n c) ?R, (2, m @ m, 0)))"
    using exec_own_line [OF R(1,2), of argv "[e']" "[strval v']" "''create_threads''" db "fork_os m" "(0, [], 0)"] e(2,3) c(5,6) qb
    by (simp add: execute_method_def on_client_def load_store client_start_clock_def fork_os_simps need_params_def
        set_num_rounds_def barrel_set_num_rounds_def int_val_def pchar_val_def create_threads_def numeral_2_eq_2
        int_range_defs chk_def started_def c(4))
  from R 1 2 3 show ?thesis by (intro exI [of _ ?R]) simp
qed

lemma smack_lines:
  assumes "smack_run db os (c, w) = Inr (c1, w')" "smap_ok (client_pool q)" "current_client q = n"
  shows "\<exists>p1. exec_lines db os argv [Call n ''connect'' [], Call n ''unload_query_barrel'' []] (store_client n c q, w) =
      Some (Inr (p1, w')) \<and> smap_find (client_pool p1) n = Some (Some c1)"
proof -
  have q: "smap_find (client_pool (store_client n c q)) n = Some (Some c)" "current_client (store_client n c q) = n"
      "smap_ok (client_pool (store_client n c q))"
    using assms(2,3) by (simp_all add: store_client_find store_client_ok)
  from assms(1) obtain c' w'' where "connect db os (c, w) = Inr (c', w'')"
      "unload_query_barrel db os (c', w'') = Inr (c1, w')"
    by (auto simp: smack_run_def bindR_eq_Inr)
  with q(3) show ?thesis
    unfolding connect_unload_eq [OF q] load_store by (auto simp: store_client_find store_client_ok)
qed

definition example_process :: process where
  "example_process = new_process\<lparr>client_pool := [(''c'', Some example_client)]\<rparr>"

lemma example_process_simps:
  "smap_find (client_pool example_process) ''c'' = Some (Some example_client)" "smap_ok (client_pool example_process)"
  "current_client example_process = ''main''"
  by (simp_all add: example_process_def smap_find_def smap_ok_def new_process_def)

lemma example_client_simps:
  "qb example_client = Some example_barrel" "num_reported_clients example_client = 0"
  "total_connect_time example_client = 0" "dictionaries example_client = None" "parent_thread example_client = 1"
  "running_threads example_client = 1"
  by (simp_all add: set_query_barrel_def new_Client_def)

lemma number_eval: "n \<in> {2, 3} \<Longrightarrow> eval argv p (Number (dec_int n)) = Inr (val_set_string (dec_int n) new_Val) \<and>
    atoi (c_str (strval (val_set_string (dec_int n) new_Val))) = n"
  using atoi_dec_int [of n] c_str_id [of "dec_int n"] dec_int_word [of n] by (auto simp: word_ok_def val_set_string_def int_range_defs)

text \<open>The client and its children with two rounds, whatever is in the pipe.\<close>

abbreviation example_started :: client where
  "example_started \<equiv> started example_process 2 example_client"

lemma example_started_simps:
  "qb example_started = Some example_barrel" "num_reported_clients example_started = 0"
  "total_connect_time example_started = 0" "parent_thread example_started = 1"
proof -
  have "restarted (Timeval 0 0) (example_barrel\<lparr>num_rounds := 2\<rparr>) = example_barrel"
    by (simp add: report_start_clock_def example_barrel_def barrel_set_num_rounds_def
        add_sleep_action_def add_query_charge_def new_Query_barrel_def new_Query_report_def split: prod.split)
  then show "qb example_started = Some example_barrel" by (simp add: started_def example_client_simps)
qed (simp_all add: started_def load_client_def example_client_simps)

theorem script_benchmark_witness:
  "\<exists>m p1 w1 c2 w2. exec_lines idle_db (fork_os m) [] [Call ''c'' ''init'' [], Call ''c'' ''set_num_rounds'' [Number (dec_int 2)],
        Call ''c'' ''create_threads'' [Number (dec_int 3)], Call ''c'' ''connect'' [], Call ''c'' ''unload_query_barrel'' []]
        (example_process, (0, [], 1)) = Some (Inr (p1, w1))
    \<and> exec_lines idle_db (fork_os m) [] [Call ''c'' ''collect_threads'' []] (p1, w1) =
        Some (mapR (\<lambda>report. (say (''Query Barrel Report for client c'' @ [NL] @ print_connect_times c2 @ report)
          (store_client ''c'' c2 p1), w2)) (print_barrel_report c2))
    \<and> num_reported_clients c2 = 3 \<and> count ''t'' c2 = 18"
proof -
  let ?C = example_started
  have ev: "\<And>p. eval [] p (Number (dec_int 2)) = Inr (val_set_string (dec_int 2) new_Val)"
      "atoi (c_str (strval (val_set_string (dec_int 2) new_Val))) = 2"
      "\<And>p. eval [] p (Number (dec_int 3)) = Inr (val_set_string (dec_int 3) new_Val)"
      "atoi (c_str (strval (val_set_string (dec_int 3) new_Val))) = 3"
    using number_eval [of 2] number_eval [of 3] by auto
  obtain d where d: "smack_run idle_db (fork_os []) (child_copy ?C, (0, [], 0)) = Inr (d, (0, [], 0))" "connect_time d = 0"
    using idle_smack_run [OF fork_os_simps(1-3), of "child_copy ?C" "[]" "(0, [], 0)"] example_started_simps
    by (auto simp: child_copy_def)
  let ?m = "message d" and ?w = "(2, message d @ message d, 0) :: nat \<times> string \<times> nat"
  from fork_start [OF example_process_simps(1-3) example_client_simps(1,5,6) ev(1,3,4), of idle_db ?m, unfolded ev(2)] obtain q where
    q: "exec_lines idle_db (fork_os ?m) [] [Call ''c'' ''init'' [], Call ''c'' ''set_num_rounds'' [Number (dec_int 2)],
        Call ''c'' ''create_threads'' [Number (dec_int 3)]] (example_process, (0, [], 1)) = Some (Inr (store_client ''c'' ?C q, ?w))"
      "current_client q = ''c''" "smap_ok (client_pool q)" by blast
  let ?p0 = "store_client ''c'' ?C q"
  have p0: "current_client ?p0 = ''c''" "smap_find (client_pool ?p0) ''c'' = Some (Some ?C)"
    using q(2,3) by (simp_all add: store_client_find)
  obtain c1 where c1: "smack_run idle_db (fork_os ?m) (?C, ?w) = Inr (c1, ?w)" "connect_time c1 = 0"
    using idle_smack_run [OF fork_os_simps(1-3), of ?C ?m ?w] example_started_simps by auto
  from smack_lines [OF this(1) q(3,2), of "[]"] obtain p1 where p1: "exec_lines idle_db (fork_os ?m) []
      [Call ''c'' ''connect'' [], Call ''c'' ''unload_query_barrel'' []] (?p0, ?w) = Some (Inr (p1, ?w))"
      "smap_find (client_pool p1) ''c'' = Some (Some c1)" by blast
  have shots: "shots_all k (actions example_barrel) = (if k = ''t'' then 3 else 0)" for k
    by (simp add: shots_all_def example_barrel_actions example_query_def)
  have kids: "\<forall>e \<in> set [d, d]. 0 \<le> connect_time e \<and> (\<exists>db os v v'.
      smack_run db os (child_copy (load_client ?p0 ?C), v) = Inr (e, v' :: nat \<times> string \<times> nat))"
    unfolding load_store using d by (auto simp del: split_paired_Ex)
  have "\<exists>c2 w2. exec_lines idle_db (fork_os ?m) [] [Call ''c'' ''collect_threads'' []] (p1, ?w) =
        Some (mapR (\<lambda>report. (say (''Query Barrel Report for client '' @ ''c'' @ [NL] @ print_connect_times c2 @ report)
          (store_client ''c'' c2 p1), w2)) (print_barrel_report c2))
      \<and> num_reported_clients c2 = 3 \<and> (\<forall>k. count k c2 = 3 * (2 * (if k = ''t'' then 3 else 0)))"
    using script_benchmark [OF example_process_simps(1,2) example_fresh example_process_simps(3) _ ev(1) q(1) p0 _ p1 _
        kids _ _ _ fork_os_calls, unfolded shots ev(2)] c1(2) d(2) example_started_simps(4)
    by (fastforce simp: INT_MAX_def)
  then obtain c2 w2 where "exec_lines idle_db (fork_os ?m) [] [Call ''c'' ''collect_threads'' []] (p1, ?w) =
        Some (mapR (\<lambda>report. (say (''Query Barrel Report for client c'' @ [NL] @ print_connect_times c2 @ report)
          (store_client ''c'' c2 p1), w2)) (print_barrel_report c2))"
      "num_reported_clients c2 = 3" "count ''t'' c2 = 18" by force
  moreover have "exec_lines idle_db (fork_os ?m) [] [Call ''c'' ''init'' [], Call ''c'' ''set_num_rounds'' [Number (dec_int 2)],
        Call ''c'' ''create_threads'' [Number (dec_int 3)], Call ''c'' ''connect'' [], Call ''c'' ''unload_query_barrel'' []]
        (example_process, (0, [], 1)) = Some (Inr (p1, ?w))"
    using exec_lines_append [OF q(1) p1(1)] by simp
  ultimately show ?thesis by blast
qed

section \<open>Clients as a script defines them\<close>

text \<open>Types whose names fit the byte of the wire format.\<close>

definition short_type :: "query \<Rightarrow> bool" where
  "short_type q \<longleftrightarrow> NUL \<notin> set (type_name q) \<and> length (type_name q) \<le> 255"

definition unused :: "query_barrel \<Rightarrow> bool" where
  "unused b \<longleftrightarrow> barrel_ok b \<and>
     (\<forall>k p. smap_find (type_reports (qr b)) k = Some p \<longrightarrow> p = Some new_qtr \<and> NUL \<notin> set k \<and> length k \<le> 255)"

interpretation unused_barrel: barrel_invariant short_type unused
proof
  show "unused new_Query_barrel"
    by (simp add: unused_def barrel_ok_new) (simp add: new_Query_barrel_def new_Query_report_def smap_find_def)
next
  fix b q n assume b: "unused b" and q: "short_type q"
  let ?m = "type_reports (qr b)"
  have m: "smap_ok ?m" using b by (simp add: unused_def barrel_ok_def)
  have "barrel_ok (add_query_charge q n b)" using b q by (simp add: unused_def short_type_def barrel_ok_charge)
  moreover have "smap_find (type_reports (qr (add_query_charge q n b))) k = Some p \<Longrightarrow>
      p = Some new_qtr \<and> NUL \<notin> set k \<and> length k \<le> 255" for k p
    using b q m unfolding unused_def short_type_def add_query_charge_def smap_index_def
    by (auto simp: sm.find_put sm.invar_put split: option.splits if_splits)
  ultimately show "unused (add_query_charge q n b)" unfolding unused_def by blast
next
  fix b s u assume "unused b"
  then show "unused (add_sleep_action s u b)"
    by (simp add: unused_def barrel_ok_sleep) (simp add: add_sleep_action_def)
qed

lemma unused_fresh:
  assumes "unused b" "qb c = Some b" "1 + length (body_bytes (type_reports (qr b))) \<le> MAX_REPORT_LEN"
    and "num_reported_clients c = 0" "total_connect_time c = 0" "max_connect_time c = 0"
  shows "fresh c b"
proof -
  have m: "smap_ok (type_reports (qr b))" using assms(1) by (simp add: unused_def barrel_ok_def)
  have "list_all sendable (type_reports (qr b))"
    using assms(1) smap_entries [OF m]
    by (fastforce simp: unused_def list_all_iff sendable_def new_qtr_def int_range_defs)
  moreover have "query_count k b = 0" for k
  proof (cases "smap_find (type_reports (qr b)) k")
    case (Some q)
    with assms(1) have "q = Some new_qtr" by (simp add: unused_def)
    with Some show ?thesis by (simp add: query_count_def new_qtr_def)
  qed (simp add: query_count_def)
  ultimately show
 ?thesis using assms by (simp add: fresh_def unused_def)
qed



end
