(* ===== verification/Smack_Options.thy ===== *)
theory Smack_Options
  imports Smack_GenData "HOL-Library.Sublist"
begin

text \<open>
  The command lines of both programs: \<open>getopt_long\<close> of the C library as the sources call it, with the tables
  of options of \<^verbatim>\<open>super-smack.cc\<close> and \<^verbatim>\<open>gen-data.cc\<close>.  Options and operands may be mixed (the library moves
  the operands to the end), a long name may be cut as long as it stays unique, and an unknown option or a
  missing argument is reported as \<open>?\<close>.
\<close>

section \<open>getopt_long\<close>

text \<open>An entry of the table of long options: its name, whether it needs an argument, the character for it.\<close>

type_synonym long_option = "string \<times> bool \<times> char"

text \<open>A character of the short options: \<open>Some True\<close> when a colon follows.\<close>

definition short_option :: "string \<Rightarrow> char \<Rightarrow> bool option" where
  "short_option shorts c =
     (if c = CHR '':'' then None
      else case dropWhile (\<lambda>x. x \<noteq> c) shorts of
             [] \<Rightarrow> None
           | _ # r \<Rightarrow> Some (r \<noteq> [] \<and> hd r = CHR '':''))"

text \<open>The entry of a long name: the exact one, or all names it begins when they mean the same.\<close>

definition long_option :: "long_option list \<Rightarrow> string \<Rightarrow> (bool \<times> char) option" where
  "long_option longs name =
     (case map_of longs name of
        Some e \<Rightarrow> Some e
      | None \<Rightarrow>
          (case filter (\<lambda>(n, _). prefix name n) longs of
             [] \<Rightarrow> None
           | (_, e) # es \<Rightarrow> if list_all (\<lambda>(_, e'). e' = e) es then Some e else None))"

text \<open>One argument of short options, with the arguments after it, of which the last option can take one.\<close>

fun short_cluster :: "string \<Rightarrow> string \<Rightarrow> string list \<Rightarrow> (char \<times> string) list \<times> string list" where
  "short_cluster shorts [] rest = ([], rest)"
| "short_cluster shorts (c # cs) rest =
     (case short_option shorts c of
        None \<Rightarrow> (case short_cluster shorts cs rest of (os, r) \<Rightarrow> ((CHR ''?'', '''') # os, r))
      | Some False \<Rightarrow> (case short_cluster shorts cs rest of (os, r) \<Rightarrow> ((c, '''') # os, r))
      | Some True \<Rightarrow>
          if cs \<noteq> [] then ([(c, cs)], rest)
          else (case rest of [] \<Rightarrow> ([(CHR ''?'', '''')], []) | a # r \<Rightarrow> ([(c, a)], r)))"

text \<open>One long option: its text without the dashes, split at the first \<open>=\<close>.\<close>

definition long_arg :: "long_option list \<Rightarrow> string \<Rightarrow> string list \<Rightarrow> (char \<times> string) \<times> string list" where
  "long_arg longs a rest =
     (let name = takeWhile (\<lambda>c. c \<noteq> CHR ''='') a; v = dropWhile (\<lambda>c. c \<noteq> CHR ''='') a in
      case long_option longs name of
        None \<Rightarrow> ((CHR ''?'', ''''), rest)
      | Some (False, c) \<Rightarrow> (if v = [] then (c, '''') else (CHR ''?'', ''''), rest)
      | Some (True, c) \<Rightarrow>
          if v \<noteq> [] then ((c, tl v), rest)
          else (case rest of [] \<Rightarrow> ((CHR ''?'', ''''), []) | x # r \<Rightarrow> ((c, x), r)))"

lemma short_cluster_shorter: "length (snd (short_cluster shorts cs rest)) \<le> length rest"
  by (induction shorts cs rest rule: short_cluster.induct)
     (auto split: option.splits bool.splits prod.splits list.splits)

lemma long_arg_shorter: "length (snd (long_arg longs a rest)) \<le> length rest"
  by (auto simp: long_arg_def Let_def split: option.splits bool.splits list.splits)

function getopt_args :: "string \<Rightarrow> long_option list \<Rightarrow> string list \<Rightarrow> (char \<times> string) list \<times> string list" where
  "getopt_args shorts longs [] = ([], [])"
| "getopt_args shorts longs (a # rest) =
     (if a = ''--'' then ([], rest)
      else if take 2 a = ''--'' then
        (case long_arg longs (drop 2 a) rest of (opt, rest) \<Rightarrow>
          case getopt_args shorts longs rest of (opts, args) \<Rightarrow> (opt # opts, args))
      else if take 1 a = ''-'' \<and> a \<noteq> ''-'' then
        (case short_cluster shorts (tl a) rest of (os, rest) \<Rightarrow>
          case getopt_args shorts longs rest of (opts, args) \<Rightarrow> (os @ opts, args))
      else (case getopt_args shorts longs rest of (opts, args) \<Rightarrow> (opts, a # args)))"
  by pat_completeness auto
termination
proof (relation "measure (\<lambda>(shorts, longs, as). length as)")
  fix shorts :: string and longs :: "long_option list" and a :: string and rest rest' :: "string list" and x
  show "(x, rest') = long_arg longs (drop 2 a) rest \<Longrightarrow>
      ((shorts, longs, rest'), shorts, longs, a # rest) \<in> measure (\<lambda>(shorts, longs, as). length as)"
    using long_arg_shorter [of longs "drop 2 a" rest] by (metis (no_types, lifting) case_prod_conv in_measure
        le_imp_less_Suc length_Cons snd_conv)
  show "(xs, rest') = short_cluster shorts (tl a) rest \<Longrightarrow>
      ((shorts, longs, rest'), shorts, longs, a # rest) \<in> measure (\<lambda>(shorts, longs, as). length as)" for xs
    using short_cluster_shorter [of shorts "tl a" rest] by (metis (no_types, lifting) case_prod_conv in_measure
        le_imp_less_Suc length_Cons snd_conv)
qed simp_all

section \<open>The tables\<close>

definition super_short :: string where "super_short = ''hVd:D:''"

definition super_long :: "long_option list" where
  "super_long = [(''help'', False, CHR ''h''), (''version'', False, CHR ''V''), (''db-type'', True, CHR ''d''),
     (''datadir'', True, CHR ''D'')]"

definition gen_short :: string where "gen_short = ''?Vf:n:''"

definition gen_long :: "long_option list" where
  "gen_long = [(''help'', False, CHR ''h''), (''version'', False, CHR ''V''), (''num-rows'', True, CHR ''n''),
     (''format'', True, CHR ''f'')]"

text \<open>\<open>main\<close> of \<^verbatim>\<open>gen-data.cc\<close> with its arguments; \<open>argv\<close> begins with the name of the program.\<close>

definition gen_data :: "('g \<Rightarrow> nat \<times> 'g) \<Rightarrow> string list \<Rightarrow> 'g \<Rightarrow> string result" where
  "gen_data rand argv g = gen_main rand (fst (getopt_args gen_short gen_long (tl argv))) g"

section \<open>Options that were written are read\<close>

text \<open>The four ways to write an option, as the words of a command line.\<close>

datatype spelling = Joined char string | Apart char string | Equals string string | Words string string
  | Flag char | Word string

fun spell :: "spelling \<Rightarrow> string list" where
  "spell (Joined c x) = [CHR ''-'' # c # x]"
| "spell (Apart c x) = [[CHR ''-'', c], x]"
| "spell (Equals n x) = [''--'' @ n @ ''='' @ x]"
| "spell (Words n x) = [''--'' @ n, x]"
| "spell (Flag c) = [[CHR ''-'', c]]"
| "spell (Word n) = [''--'' @ n]"

fun meaning :: "string \<Rightarrow> long_option list \<Rightarrow> spelling \<Rightarrow> (char \<times> string) option" where
  "meaning shorts longs (Joined c x) =
     (if short_option shorts c = Some True \<and> x \<noteq> [] \<and> c \<noteq> CHR ''-'' then Some (c, x) else None)"
| "meaning shorts longs (Apart c x) =
     (if short_option shorts c = Some True \<and> c \<noteq> CHR ''-'' then Some (c, x) else None)"
| "meaning shorts longs (Equals n x) =
     (case long_option longs n of
        Some (True, c) \<Rightarrow> if CHR ''='' \<in> set n then None else Some (c, x)
      | _ \<Rightarrow> None)"
| "meaning shorts longs (Words n x) =
     (case long_option longs n of
        Some (True, c) \<Rightarrow> if n = [] \<or> CHR ''='' \<in> set n then None else Some (c, x)
      | _ \<Rightarrow> None)"
| "meaning shorts longs (Flag c) =
     (if short_option shorts c = Some False \<and> c \<noteq> CHR ''-'' then Some (c, '''') else None)"
| "meaning shorts longs (Word n) =
     (case long_option longs n of
        Some (False, c) \<Rightarrow> if n = [] \<or> CHR ''='' \<in> set n then None else Some (c, '''')
      | _ \<Rightarrow> None)"

lemma split_equals:
  "CHR ''='' \<notin> set n \<Longrightarrow> takeWhile (\<lambda>c. c \<noteq> CHR ''='') (n @ CHR ''='' # x) = n"
  "CHR ''='' \<notin> set n \<Longrightarrow> dropWhile (\<lambda>c. c \<noteq> CHR ''='') (n @ CHR ''='' # x) = CHR ''='' # x"
  "CHR ''='' \<notin> set n \<Longrightarrow> takeWhile (\<lambda>c. c \<noteq> CHR ''='') n = n"
  "CHR ''='' \<notin> set n \<Longrightarrow> dropWhile (\<lambda>c. c \<noteq> CHR ''='') n = []"
  by (induction n) auto

text \<open>The two kinds of steps of the loop.\<close>

lemma getopt_long:
  "b \<noteq> [] \<Longrightarrow> long_arg longs b rest = (e, r) \<Longrightarrow>
   getopt_args shorts longs ((''--'' @ b) # rest) =
     (e # fst (getopt_args shorts longs r), snd (getopt_args shorts longs r))"
  by (simp split: prod.split)

lemma getopt_short:
  "c \<noteq> CHR ''-'' \<Longrightarrow> short_cluster shorts (c # cs) rest = (os, r) \<Longrightarrow>
   getopt_args shorts longs ((CHR ''-'' # c # cs) # rest) =
     (os @ fst (getopt_args shorts longs r), snd (getopt_args shorts longs r))"
  by (simp del: short_cluster.simps split: prod.split)

lemma getopt_spelled:
  assumes "meaning shorts longs u = Some e"
  shows "getopt_args shorts longs (spell u @ rest) =
    (e # fst (getopt_args shorts longs rest), snd (getopt_args shorts longs rest))"
proof (cases u)
  case (Joined c x)
  with assms have "c \<noteq> CHR ''-''" "short_cluster shorts (c # x) rest = ([e], rest)"
    by (auto split: if_splits)
  from getopt_short [OF this] Joined show ?thesis by simp
next
  case (Apart c x)
  with assms have "c \<noteq> CHR ''-''" "short_cluster shorts [c] (x # rest) = ([e], rest)"
    by (auto split: if_splits)
  from getopt_short [OF this] Apart show ?thesis by simp
next
  case (Flag c)
  with assms have "c \<noteq> CHR ''-''" "short_cluster shorts [c] rest = ([e], rest)"
    by (auto split: if_splits)
  from getopt_short [OF this] Flag show ?thesis by simp
next
  case (Equals n x)
  with assms have "long_arg longs (n @ CHR ''='' # x) rest = (e, rest)"
    by (auto simp: long_arg_def Let_def split_equals split: if_splits option.splits bool.splits prod.splits)
  from getopt_long [OF _ this] Equals show ?thesis by simp
next
  case (Words n x)
  with assms have "n \<noteq> []" "long_arg longs n (x # rest) = (e, rest)"
    by (auto simp: long_arg_def Let_def split_equals split: if_splits option.splits bool.splits prod.splits)
  from getopt_long [OF this] Words show ?thesis by simp
next
  case (Word n)
  with assms have "n \<noteq> []" "long_arg longs n rest = (e, rest)"
    by (auto simp: long_arg_def Let_def split_equals split: if_splits option.splits bool.splits prod.splits)
  from getopt_long [OF this] Word show ?thesis by simp
qed


definition operand :: "string \<Rightarrow> bool" where
  "operand a \<longleftrightarrow> a = ''-'' \<or> take 1 a \<noteq> ''-''"

lemma getopt_operand:
  "operand a \<Longrightarrow> getopt_args shorts longs (a # rest) =
    (fst (getopt_args shorts longs rest), a # snd (getopt_args shorts longs rest))"
  by (cases a) (auto simp: operand_def split: prod.splits)



section \<open>gen-data\<close>

text \<open>
  C30: \<open>gen-data\<close> from its command line.  In whatever spelling the two options are given, a number of rows
  \<open>n\<close> and a format with one \<open>%n\<close>, the program prints exactly \<open>n\<close> lines, numbered from 1, and text around
  the number as it stands.
\<close>

theorem gen_data_numbers_rows:
  assumes "meaning gen_short gen_long u = Some (CHR ''n'', dec_int n)"
    and "meaning gen_short gen_long v = Some (CHR ''f'', p @ ''%n'' @ q)"
    and "CHR ''%'' \<notin> set p" "CHR ''%'' \<notin> set q" "NUL \<notin> set (p @ q)" "0 < n" "n < 2147483647"
  shows "gen_data rand (prog # spell u @ spell v) g =
    Inr (concat (map (\<lambda>i. p @ dec_int (int i + 1) @ q @ [CHR 0x0A]) [0..<nat n]))"
  using getopt_spelled [OF assms(1), of "spell v"] getopt_spelled [OF assms(2), of "[]"] gen_main_rows [OF assms(3-7)]
  by (simp add: gen_data_def)

theorem gen_data_numbers_rows_witness:
  "gen_data (\<lambda>g. (0, g)) [''gen-data'', ''--num-rows=2'', ''-f'', ''row %n''] () =
     Inr (''row 1'' @ [CHR 0x0A] @ ''row 2'' @ [CHR 0x0A])"
proof -
  have d: "dec_int 1 = ''1''" "dec_int 2 = ''2''"
    by (simp_all add: dec_int_def dec.simps digit_char_def char_of_def bit_iff_odd)
  have "meaning gen_short gen_long (Equals ''num-rows'' ''2'') = Some (CHR ''n'', dec_int 2)"
    "meaning gen_short gen_long (Apart (CHR ''f'') ''row %n'') = Some (CHR ''f'', ''row '' @ ''%n'' @ [])"
    by (simp_all add: d gen_short_def gen_long_def short_option_def long_option_def)
  from gen_data_numbers_rows [OF this, of "\<lambda>g. (0, g)" "''gen-data''" "()"] show ?thesis
    by (simp add: d upt_rec)
qed

text \<open>
  The exit statuses of \<open>gen-data\<close> are the wrong way round.  An unknown option is reported by the library
  as \<open>?\<close>, which the program takes for its option \<open>-?\<close>, so it ends with success; the name \<open>--help\<close> stands for
  the letter h, which the program does not know, so asking for help ends with the status of an error.
\<close>

lemma gen_data_statuses:
  assumes "short_option gen_short c = None" "c \<noteq> CHR ''-''"
  shows "gen_data rand (prog # [CHR ''-'', c] # rest) g = Inl (Exited 0)
    \<and> gen_data rand (prog # ''--help'' # rest) g = Inl (Exited 1)"
proof
  from assms have "short_cluster gen_short [c] rest = ([(CHR ''?'', '''')], rest)" by simp
  from getopt_short [OF assms(2) this] show "gen_data rand (prog # [CHR ''-'', c] # rest) g = Inl (Exited 0)"
    by (simp add: gen_data_def gen_main_def)
  have "meaning gen_short gen_long (Word ''help'') = Some (CHR ''h'', '''')"
    by (simp add: gen_long_def long_option_def)
  from getopt_spelled [OF this, of rest] show "gen_data rand (prog # ''--help'' # rest) g = Inl (Exited 1)"
    by (simp add: gen_data_def gen_main_def)
qed

end
