(* ===== verification/Smack_Startup.thy ===== *)
theory Smack_Startup
  imports Smack_Options Smack_Script Smack_Database_Proofs
begin

text \<open>
  How \<open>super-smack\<close> starts: the two engines that static objects of \<^verbatim>\<open>mysql-client.cc\<close> and \<^verbatim>\<open>pg-client.cc\<close>
  register before \<open>main\<close>, and \<open>main\<close> on its command line.
\<close>

section \<open>The engines of the program\<close>

text \<open>\<open>mysql_engine\<close> and \<open>pg_engine\<close>; \<open>mysql_new\<close> and \<open>pg_new\<close> are values of the type of engines.\<close>

definition mysql_engine :: "'k \<Rightarrow> 'k registry \<Rightarrow> 'k registry" where
  "mysql_engine mysql_new = Engine ''MySQL'' ''mysql'' mysql_new ''1.0'' ''Sasha Pachev''"

definition pg_engine :: "'k \<Rightarrow> 'k registry \<Rightarrow> 'k registry" where
  "pg_engine pg_new = Engine ''PostgreSQL'' ''pg'' pg_new ''1.0'' ''Sasha Pachev''"

text \<open>The constructors of objects in two files run in either order.\<close>

definition static_engines :: "bool \<Rightarrow> 'k \<Rightarrow> 'k \<Rightarrow> 'k registry" where
  "static_engines mysql_first m p =
     (if mysql_first then pg_engine p (mysql_engine m new_registry)
      else mysql_engine m (pg_engine p new_registry))"

lemma static_engines_table:
  "engines (static_engines mysql_first m p) =
     (if mysql_first
      then [entry 1 (''MySQL'', ''mysql'', m, ''1.0'', ''Sasha Pachev''), entry 2 (''PostgreSQL'', ''pg'', p, ''1.0'', ''Sasha Pachev'')]
      else [entry 1 (''PostgreSQL'', ''pg'', p, ''1.0'', ''Sasha Pachev''), entry 2 (''MySQL'', ''mysql'', m, ''1.0'', ''Sasha Pachev'')])
     @ replicate 62 empty_engine"
  by (simp add: static_engines_def mysql_engine_def pg_engine_def Engine_def new_registry_def empty_engine_def
      MAX_ENGINES_def numeral_eq_Suc)

lemma static_engines_chosen:
  "set_db_type ''mysql'' (static_engines mysql_first m p) = Inr (if mysql_first then 1 else 2)"
  "set_db_type ''pg'' (static_engines mysql_first m p) = Inr (if mysql_first then 2 else 1)"
  "new_client_id 1 (static_engines mysql_first m p) = Some (if mysql_first then m else p)"
  "new_client_id 2 (static_engines mysql_first m p) = Some (if mysql_first then p else m)"
  by (simp_all add: set_db_type_def engine_id_def find_handle_def new_client_id_def MAX_ENGINES_def static_engines_table)

section \<open>The program on its command line\<close>

definition super_smack_main :: "'w db_class registry \<Rightarrow> 'w os \<Rightarrow> (int \<Rightarrow> 'w \<Rightarrow> 'w) \<Rightarrow> host \<Rightarrow> 'w shell \<Rightarrow>
    (string \<Rightarrow> string option) \<Rightarrow> string \<Rightarrow> string list \<Rightarrow> 'w \<Rightarrow> (process \<times> 'w) result option" where
  "super_smack_main r os waitpid h sh open_file input argv w =
     (case getopt_args super_short super_long (tl argv) of
        (opts, args) \<Rightarrow> super_smack r os waitpid h sh open_file input opts args w)"

text \<open>What \<open>main\<close> does after the options, with the class of the chosen engine.\<close>

definition run_script :: "'w db_class \<Rightarrow> 'w os \<Rightarrow> (int \<Rightarrow> 'w \<Rightarrow> 'w) \<Rightarrow> host \<Rightarrow> 'w shell \<Rightarrow> string list \<Rightarrow> string \<Rightarrow> 'w \<Rightarrow>
    (process \<times> 'w) result option" where
  "run_script db os waitpid h sh args text w =
     map_option (mapR (\<lambda>(p, w). if current_client p = ''main'' then wait_for_client_threads waitpid (p, w) else (p, w)))
       (do_parse db os h (sh\<lparr>sh_datadir := datadir h\<rparr>) (Some db) args text (new_process, w))"

lemma super_smack_runs:
  assumes "get_options r opts (1, datadir h) = Inr (n, dir)" "new_client_id n r = Some db"
    and "open_file f = Some text"
  shows "super_smack r os waitpid h sh open_file input opts (f # args) w =
    run_script db os waitpid (h\<lparr>datadir := dir\<rparr>) sh (f # args) text w"
  using assms by (simp add: super_smack_def run_script_def set_parse_file_def)

text \<open>
  C28: Which database a script is run on.  With both drivers linked in, in whatever order their static objects
  register, the option \<open>--db-type\<close> in any of its spellings picks the driver of that name, and the script of
  the file is run on its clients.  Without the option the program takes engine number 1, which is the driver
  whose file happens to be initialised first, an order C++ leaves open.
\<close>

theorem engine_choice:
  assumes "meaning super_short super_long u = Some (CHR ''d'', handle)" "handle \<in> {''mysql'', ''pg''}"
    and "operand f" "open_file f = Some text"
  shows "super_smack_main (static_engines mysql_first m p) os waitpid h sh open_file input (prog # spell u @ [f]) w =
      run_script (if handle = ''mysql'' then m else p) os waitpid h sh [f] text w
    \<and> super_smack_main (static_engines mysql_first m p) os waitpid h sh open_file input [prog, f] w =
      run_script (if mysql_first then m else p) os waitpid h sh [f] text w"
proof
  let ?r = "static_engines mysql_first m p"
  have f: "getopt_args super_short super_long [f] = ([], [f])"
    using getopt_operand [OF assms(3), of super_short super_long "[]"] by (simp del: getopt_args.simps(2))
  have same: "h\<lparr>datadir := datadir h\<rparr> = h" by simp
  have opt: "get_options ?r [(CHR ''d'', handle)] (1, datadir h) =
      Inr (if (handle = ''mysql'') = mysql_first then 1 else 2, datadir h)"
    using assms(2) by (auto simp: static_engines_chosen)
  have "new_client_id (if (handle = ''mysql'') = mysql_first then 1 else 2) ?r = Some (if handle = ''mysql'' then m else p)"
    by (simp add: static_engines_chosen)
  from super_smack_runs [where open_file = open_file and f = f, OF opt this assms(4)]
  show "super_smack_main ?r os waitpid h sh open_file input (prog # spell u @ [f]) w =
      run_script (if handle = ''mysql'' then m else p) os waitpid h sh [f] text w"
    by (simp only: super_smack_main_def list.sel getopt_spelled [OF assms(1)] f prod.case fst_conv snd_conv same)
  have "get_options ?r [] (1, datadir h) = Inr (1, datadir h)" by simp
  from super_smack_runs [where open_file = open_file and f = f, OF this static_engines_chosen(3) assms(4)]

  show "super_smack_main ?r os waitpid h sh open_file input [prog, f] w =
      run_script (if mysql_first then m else p) os waitpid h sh [f] text w"
    by (simp only: super_smack_main_def list.sel f prod.case same)
qed

definition quiet_mysql :: "'w mysql_lib" where
  "quiet_mysql = \<lparr>my_real_connect = \<lambda>h u p d n s w. w, my_errno = \<lambda>w. 0, my_query = \<lambda>q w. (0, w),
     my_store_result = \<lambda>w. (None, w), my_close = \<lambda>w. w, my_escape = escape_string,
     my_create = \<lambda>f w. (True, w), my_output = \<lambda>f s w. w\<rparr>"

theorem engine_choice_witness:
  "\<forall>os waitpid h sh w.
     super_smack_main (static_engines True (Mysql_client quiet_mysql) (Pg_client example_pg)) os waitpid h sh
       (\<lambda>f. Some ''main { }'') '''' [''super-smack'', ''--db-type=pg'', ''s.smack''] w =
     run_script (Pg_client example_pg) os waitpid h sh [''s.smack''] ''main { }'' w"
proof -
  have u: "meaning super_short super_long (Equals ''db-type'' ''pg'') = Some (CHR ''d'', ''pg'')"
    by (simp add: super_long_def long_option_def)
  have f: "operand ''s.smack''" by (simp add: operand_def)
  have "super_smack_main (static_engines True (Mysql_client quiet_mysql) (Pg_client example_pg)) os waitpid h sh
       (\<lambda>f. Some ''main { }'') '''' (''super-smack'' # spell (Equals ''db-type'' ''pg'') @ [''s.smack'']) w =
     run_script (if ''pg'' = ''mysql'' then Mysql_client quiet_mysql else Pg_client example_pg)
       os waitpid h sh [''s.smack''] ''main { }'' w" for os waitpid h sh w
    by (rule engine_choice [OF u _ f, THEN conjunct1]) simp_all
  then show ?thesis by simp

qed

end
