(* ===== verification/Smack_Tcp.thy ===== *)
theory Smack_Tcp
  imports Smack_Prelude
begin

text \<open>
  \<^verbatim>\<open>src/tcp_client.cc\<close> and \<^verbatim>\<open>src/tcp_client.h\<close>: a client of a TCP server with a status and a log.  The system
  calls are a record of functions; an address is a value of any type.
\<close>

section \<open>State and system calls\<close>

text \<open>A member that no constructor has set is \<open>None\<close>; \<open>tc_log\<close> says whether the log is not NULL.\<close>

record 'a tcp_client =
  socket_fd :: "int option"
  serv_addr :: "('a \<times> int) option"
  status :: int
  tc_log :: bool

text \<open>
  \<open>connect\<close> yields \<open>None\<close> when the alarm goes off before it returns; \<open>select\<close> is given the timeout, \<open>None\<close>
  to wait without limit; \<open>tc_print\<close> writes a line to the log, with the time before it and the text of
  \<open>errno\<close> after it.
\<close>

record ('a, 'w) tcp_os =
  tc_socket :: "'w \<Rightarrow> int \<times> 'w"
  tc_gethostbyname :: "string \<Rightarrow> 'w \<Rightarrow> 'a option \<times> 'w"
  tc_connect :: "int \<Rightarrow> ('a \<times> int) \<Rightarrow> 'w \<Rightarrow> int option \<times> 'w"
  tc_alarm :: "int \<Rightarrow> 'w \<Rightarrow> 'w"
  tc_write :: "int \<Rightarrow> string \<Rightarrow> 'w \<Rightarrow> int \<times> 'w"
  tc_select :: "int \<Rightarrow> (int \<times> int) option \<Rightarrow> 'w \<Rightarrow> int \<times> 'w"
  tc_read :: "int \<Rightarrow> nat \<Rightarrow> 'w \<Rightarrow> (int \<times> string) \<times> 'w"
  tc_close :: "int \<Rightarrow> 'w \<Rightarrow> 'w"
  tc_print :: "string \<Rightarrow> 'w \<Rightarrow> 'w"

section \<open>Operations\<close>

definition tcp_error :: "('a, 'w) tcp_os \<Rightarrow> string \<Rightarrow> 'a tcp_client \<times> 'w \<Rightarrow> 'a tcp_client \<times> 'w" where
  "tcp_error os msg = (\<lambda>(c, w).
     (c\<lparr>status := 0\<rparr>, if tc_log c then tc_print os (''TCP Client error:'' @ msg) w else w))"

definition tcp_warn :: "('a, 'w) tcp_os \<Rightarrow> string \<Rightarrow> 'a tcp_client \<times> 'w \<Rightarrow> 'a tcp_client \<times> 'w" where
  "tcp_warn os msg = (\<lambda>(c, w). (c, if tc_log c then tc_print os (''TCP Client warning:'' @ msg) w else w))"

definition new_TcpClient :: "'a tcp_client" where
  "new_TcpClient = \<lparr>socket_fd = None, serv_addr = None, status = 0, tc_log = False\<rparr>"

definition log_init :: "bool \<Rightarrow> 'a tcp_client \<Rightarrow> 'a tcp_client" where
  "log_init init_log c = c\<lparr>status := 0, tc_log := init_log\<rparr>"

text \<open>\<open>htons\<close> keeps the low 16 bits of the port.\<close>

definition tcp_init :: "('a, 'w) tcp_os \<Rightarrow> 'a \<Rightarrow> int \<Rightarrow> 'a tcp_client \<times> 'w \<Rightarrow> 'a tcp_client \<times> 'w" where
  "tcp_init os addr port = (\<lambda>(c, w).
     let (fd, w) = tc_socket os w; c = c\<lparr>serv_addr := Some (addr, port mod 65536), socket_fd := Some fd\<rparr>
     in if fd < 0 then tcp_error os ''TcpClient: can't open stream socket'' (c, w)
        else (c\<lparr>status := 1\<rparr>, w))"

definition TcpClient_addr :: "('a, 'w) tcp_os \<Rightarrow> 'a \<Rightarrow> int \<Rightarrow> bool \<Rightarrow> 'w \<Rightarrow> 'a tcp_client \<times> 'w" where
  "TcpClient_addr os addr port init_log w = tcp_init os addr port (log_init init_log new_TcpClient, w)"

definition TcpClient_host :: "('a, 'w) tcp_os \<Rightarrow> string \<Rightarrow> int \<Rightarrow> bool \<Rightarrow> 'w \<Rightarrow> 'a tcp_client \<times> 'w" where
  "TcpClient_host os host port init_log w =
     (let c = log_init init_log new_TcpClient in
      case tc_gethostbyname os host w of
        (None, w) \<Rightarrow> tcp_error os (''Host name lookup failure for '' @ host) (c, w)
      | (Some h, w) \<Rightarrow> tcp_init os h port (c, w))"

text \<open>The members a call reads: undefined before they are set.\<close>

definition get_fd :: "'a tcp_client \<Rightarrow> int result" where
  "get_fd c = (case socket_fd c of None \<Rightarrow> undef Uninitialized | Some fd \<Rightarrow> Inr fd)"

definition tcp_connect :: "('a, 'w) tcp_os \<Rightarrow> int \<Rightarrow> 'a tcp_client \<times> 'w \<Rightarrow> ('a tcp_client \<times> 'w) result" where
  "tcp_connect os sec_timeout = (\<lambda>(c, w).
     bindR (get_fd c) (\<lambda>fd.
     case serv_addr c of
       None \<Rightarrow> undef Uninitialized
     | Some addr \<Rightarrow>
         let w = (if sec_timeout \<noteq> 0 then tc_alarm os sec_timeout w else w);
             (r, w) = tc_connect os fd addr w;
             (c, w) = (case r of
                 None \<Rightarrow> tcp_error os ''TcpClient: connect() timed out'' (c, w)
               | Some r \<Rightarrow> if r < 0 then tcp_error os ''TcpClient: can't connect to server'' (c, w) else (c, w))
         in Inr (c, if sec_timeout \<noteq> 0 then tc_alarm os 0 w else w)))"

definition tcp_send :: "('a, 'w) tcp_os \<Rightarrow> string \<Rightarrow> 'a tcp_client \<times> 'w \<Rightarrow> (int \<times> 'a tcp_client \<times> 'w) result" where
  "tcp_send os data = (\<lambda>(c, w).
     bindR (get_fd c) (\<lambda>fd. let (n, w) = tc_write os fd data w in Inr (n, c, w)))"

text \<open>What \<open>receive\<close> returns, with the bytes it stores.\<close>

definition tcp_receive :: "('a, 'w) tcp_os \<Rightarrow> nat \<Rightarrow> int \<Rightarrow> int \<Rightarrow> 'a tcp_client \<times> 'w \<Rightarrow>
    ((int \<times> string) \<times> 'a tcp_client \<times> 'w) result" where
  "tcp_receive os num_bytes sec_timeout usec_timeout = (\<lambda>(c, w).
     bindR (get_fd c) (\<lambda>fd.
     let (r, w) = tc_select os fd (if sec_timeout \<noteq> 0 \<or> usec_timeout \<noteq> 0 then Some (sec_timeout, usec_timeout) else None) w;
         (c, w) = (if r = -1 then tcp_warn os ''Select error'' (c, w) else (c, w))
     in if r < 1 then Inr ((0, []), c, w)
        else let (res, w) = tc_read os fd num_bytes w in Inr (res, c, w)))"

definition set_log :: "bool \<Rightarrow> 'a tcp_client \<Rightarrow> 'a tcp_client" where
  "set_log new_log c = c\<lparr>tc_log := new_log\<rparr>"

text \<open>The conversion to \<open>void *\<close>.\<close>

definition is_good :: "'a tcp_client \<Rightarrow> bool" where
  "is_good c \<longleftrightarrow> status c \<noteq> 0"

definition tcp_destroy :: "('a, 'w) tcp_os \<Rightarrow> 'a tcp_client \<times> 'w \<Rightarrow> 'w result" where
  "tcp_destroy os = (\<lambda>(c, w). mapR (\<lambda>fd. if fd \<ge> 0 then tc_close os fd w else w) (get_fd c))"

section \<open>Runs of a client\<close>

inductive tcp_step :: "('a, 'w) tcp_os \<Rightarrow> 'a tcp_client \<times> 'w \<Rightarrow> 'a tcp_client \<times> 'w \<Rightarrow> bool" for os where
  step_connect: "tcp_connect os t s = Inr s' \<Longrightarrow> tcp_step os s s'"
| step_send: "tcp_send os d s = Inr (n, s') \<Longrightarrow> tcp_step os s s'"
| step_receive: "tcp_receive os n t u s = Inr (r, s') \<Longrightarrow> tcp_step os s s'"
| step_log: "tcp_step os (c, w) (set_log l c, w)"

lemma fst_tcp_report [simp]:
  "fst (tcp_error os m s) = (fst s)\<lparr>status := 0\<rparr>" "fst (tcp_warn os m s) = fst s"
  by (simp_all add: tcp_error_def tcp_warn_def case_prod_unfold)

lemma tcp_connect_keeps:
  "tcp_connect os t s = Inr s' \<Longrightarrow>
   socket_fd (fst s') = socket_fd (fst s) \<and> (status (fst s') = status (fst s) \<or> status (fst s') = 0)"
proof -
  assume a: "tcp_connect os t s = Inr s'"
  obtain c w where s: "s = (c, w)" by fastforce
  show ?thesis
  proof (cases "get_fd c")
    case (Inr fd)
    show ?thesis
    proof (cases "serv_addr c")
      case (Some addr)
      obtain r w1 where "tc_connect os fd addr (if t \<noteq> 0 then tc_alarm os t w else w) = (r, w1)" by fastforce
      with a s Inr Some show ?thesis
        by (cases r) (auto simp: tcp_connect_def Let_def case_prod_unfold split: if_splits)
    qed (use a s Inr in \<open>simp add: tcp_connect_def\<close>)
  qed (use a s in \<open>simp add: tcp_connect_def\<close>)
qed

lemma tcp_step_keeps:
  "tcp_step os s s' \<Longrightarrow> socket_fd (fst s') = socket_fd (fst s) \<and> (status (fst s') = status (fst s) \<or> status (fst s') = 0)"
proof (induction rule: tcp_step.induct)
  case (step_connect t s s')
  then show ?case by (rule tcp_connect_keeps)

next
  case (step_send d s n s')
  then show ?case by (cases s) (auto simp: tcp_send_def resultE_simps case_prod_unfold Let_def)
next
  case (step_receive n t u s r s')
  then show ?case
    by (cases s) (auto simp: tcp_receive_def resultE_simps case_prod_unfold Let_def split: if_splits)

qed (simp add: set_log_def)

lemma tcp_run_keeps:
  "(tcp_step os)\<^sup>*\<^sup>* s s' \<Longrightarrow> socket_fd (fst s') = socket_fd (fst s) \<and> (status (fst s') = status (fst s) \<or> status (fst s') = 0)"
  by (induction rule: rtranclp_induct) (auto dest!: tcp_step_keeps)

text \<open>
  A good client has an open socket, and an error is final.  Whatever is done with a client after its
  construction, it is good only if its socket was opened, and once it is not good it never is again.
\<close>

lemma tcp_good_is_open:
  assumes "(tcp_step os)\<^sup>*\<^sup>* (TcpClient_host os host port lg w) s" "(tcp_step os)\<^sup>*\<^sup>* s s'" "is_good (fst s')"
  shows "is_good (fst s) \<and> (\<exists>fd \<ge> 0. socket_fd (fst s') = Some fd)"
proof -
  have "\<exists>fd \<ge> 0. socket_fd (fst (TcpClient_host os host port lg w)) = Some fd"
    if "status (fst (TcpClient_host os host port lg w)) \<noteq> 0"
    using that by (auto simp: TcpClient_host_def tcp_init_def tcp_error_def log_init_def new_TcpClient_def Let_def
        split: option.splits prod.splits if_splits)
  with tcp_run_keeps [OF assms(1)] tcp_run_keeps [OF assms(2)] assms(3) show ?thesis
    by (auto simp: is_good_def)
qed

text \<open>
  An unknown host leaves the socket unset: the constructor returns before \<open>init\<close>, and the destructor reads
  a descriptor that was never written.
\<close>

lemma tcp_unknown_host:
  "fst (tc_gethostbyname os host w) = None \<Longrightarrow>
   tcp_destroy os (TcpClient_host os host port lg w) = undef Uninitialized"
  by (cases "tc_gethostbyname os host w")
     (simp add: TcpClient_host_def tcp_error_def log_init_def new_TcpClient_def tcp_destroy_def get_fd_def)

definition example_tcp :: "(string, nat) tcp_os" where
  "example_tcp = \<lparr>tc_socket = \<lambda>w. (3, w), tc_gethostbyname = \<lambda>h w. (Some h, w), tc_connect = \<lambda>fd a w. (Some 0, w),
     tc_alarm = \<lambda>n w. w, tc_write = \<lambda>fd s w. (int (length s), w + length s), tc_select = \<lambda>fd t w. (1, w),
     tc_read = \<lambda>fd n w. ((0, []), w), tc_close = \<lambda>fd w. w, tc_print = \<lambda>s w. w\<rparr>"

end
