(* ===== verification/Smack_Tests.thy ===== *)
theory Smack_Tests
  imports Smack_Words Smack_Database Smack_Benchmark Smack_Tcp
begin

text \<open>
  The test programs \<^verbatim>\<open>src/test-dictionary.cc\<close>, \<^verbatim>\<open>src/test-client.cc\<close> and \<^verbatim>\<open>src/test_tcp_client.cc\<close>: their \<open>main\<close>
  functions over the library, and what they print.  A result holds what was written to the standard output;
  a program that ends with a fault has lost its text in the model.
\<close>

section \<open>Dictionaries\<close>

definition words_path :: string where "words_path = ''/usr/dict/words''"

text \<open>Ten words, each on a line: the loop each of the five dictionaries is put through.\<close>

definition print_ten :: "('d \<Rightarrow> (string \<times> 'd) result) \<Rightarrow> 'd \<Rightarrow> (string \<times> 'd) result" where
  "print_ten next d = mapR (\<lambda>(ws, d). (unlines ws, d)) (draws next 10 d)"

definition test_dictionary :: "host \<Rightarrow> ('g \<Rightarrow> nat \<times> 'g) \<Rightarrow> 'g \<Rightarrow> string result" where
  "test_dictionary h rand g =
     bindR (load_file h words_path new_Rand_dictionary) (\<lambda>(_, rd).
     bindR (print_ten (rand_next_word rand) (rd, g)) (\<lambda>(s1, _, g).
     let rd1 = load_list ''sasha,sarah,matt,monty,david'' new_Rand_dictionary in
     bindR (print_ten (rand_next_word rand) (rd1, g)) (\<lambda>(s2, _, g).
     bindR (load_file h words_path new_Seq_dictionary) (\<lambda>(_, sd).
     let sd1 = load_list ''sasha,sarah,benjamin,dallin,runner,word'' new_Seq_dictionary in
     bindR (print_ten seq_next_word sd) (\<lambda>(s3, _).
     bindR (print_ten seq_next_word sd1) (\<lambda>(s4, _).
     let ud = set_template ''sasha%04d'' new_Unique_dictionary in
     bindR (print_ten unique_next_word ud) (\<lambda>(s5, _).
     Inr (unlines [''Random from file: ''] @ s1 @ unlines [''Random from list: ''] @ s2 @
          unlines [''Sequential from file: ''] @ s3 @ unlines [''Sequential from list: ''] @ s4 @
          unlines [''Unique: ''] @ s5))))))))"

text \<open>The two loads of the same file: the kind of dictionary makes no difference to its words.\<close>

lemma load_file_kinds:
  assumes "load_file h f new_Rand_dictionary = Inr (n, d)"
  shows "load_file h f new_Seq_dictionary = Inr (n, new_Seq_dictionary\<lparr>words := words d\<rparr>)"
proof (cases "data_path (datadir h) f (stack_bytes h)")
  case (Inr path)
  note defs = load_file_def new_Seq_dictionary_def new_Rand_dictionary_def new_Dictionary_def dictionary.defs
  show ?thesis
  proof (cases "files h path")
    case (Some i)
    with assms Inr show ?thesis by (cases "can_open i") (auto simp: defs mapR_eq_Inr)
  qed (use assms Inr in \<open>simp add: defs\<close>)
qed (use assms in \<open>simp add: load_file_def\<close>)

lemma test_lists:
  "words (load_list ''sasha,sarah,matt,monty,david'' new_Rand_dictionary) = [''sasha'', ''sarah'', ''matt'', ''monty'']"
  "words (load_list ''sasha,sarah,benjamin,dallin,runner,word'' new_Seq_dictionary) =
     [''sasha'', ''sarah'', ''benjamin'', ''dallin'', ''runner'']"
  by code_simp+


lemma test_unique:
  "draws unique_next_word 10 (set_template ''sasha%04d'' new_Unique_dictionary) =
     Inr (map (\<lambda>j. ''sasha000'' @ dec j) [0..<10], (set_template ''sasha%04d'' new_Unique_dictionary)\<lparr>uid := 10\<rparr>)"
proof -
  let ?d = "set_template ''sasha%04d'' new_Unique_dictionary"
  have "int_field (c_str (templ ?d)) = Some (''sasha'', ''0'', 4, CHR ''d'', [])" by code_simp
  moreover have "uid ?d = 0" by code_simp
  moreover have "map (\<lambda>j. take 511 (''sasha'' @ pad_int (CHR ''-'' \<in> set ''0'') (CHR ''0'' \<in> set ''0'') 4 (0 + int j) @ [])) [0..<10] =
      map (\<lambda>j. ''sasha000'' @ dec j) [0..<10]"
    by code_simp
  ultimately show ?thesis
    using unique_draws [of ?d "''sasha''" "''0''" 4 "CHR ''d''" "[]" 10] by (simp add: INT_MAX_def)
qed

definition dictionary_lines :: "string list \<Rightarrow> string list \<Rightarrow> string list \<Rightarrow> string list" where
  "dictionary_lines ws r1 r2 =
     [''Random from file: ''] @ r1 @ [''Random from list: ''] @ r2 @
     [''Sequential from file: ''] @ map (\<lambda>j. ws ! (j mod length ws)) [0..<10] @
     [''Sequential from list: '', ''sasha'', ''sarah'', ''benjamin'', ''dallin'', ''runner'',
        ''sasha'', ''sarah'', ''benjamin'', ''dallin'', ''runner''] @
     [''Unique: ''] @ map (\<lambda>j. ''sasha000'' @ dec j) [0..<10]"

text \<open>
  C31: What \<open>test-dictionary\<close> prints.  When the file of words is there and not empty, the program never fails:
  it prints ten random words of the file, ten of its first list, the words of the file in order and over
  again, and the generated names \<open>sasha0000\<close> to \<open>sasha0009\<close>.  Its two lists miss their last entries, so
  \<open>david\<close> and \<open>word\<close> are never printed.  When the file cannot be read, its load goes unchecked and the program
  divides by zero, whatever the generator of random numbers.
\<close>

theorem test_dictionary_prints:
  assumes "load_file h words_path new_Rand_dictionary = Inr (n, d)"
  shows "(words d \<noteq> [] \<longrightarrow> (\<exists>r1 r2. test_dictionary h rand g = Inr (unlines (dictionary_lines (words d) r1 r2))
       \<and> length r1 = 10 \<and> set r1 \<subseteq> set (words d)
       \<and> length r2 = 10 \<and> set r2 \<subseteq> {''sasha'', ''sarah'', ''matt'', ''monty''}))
    \<and> (words d = [] \<longrightarrow> test_dictionary h rand g = undef Div_by_zero)"
proof (intro conjI impI)
  assume ws: "words d \<noteq> []"
  let ?rd = "load_list ''sasha,sarah,matt,monty,david'' new_Rand_dictionary"
  let ?sd = "load_list ''sasha,sarah,benjamin,dallin,runner,word'' new_Seq_dictionary"
  let ?fd = "new_Seq_dictionary\<lparr>words := words d\<rparr>"
  obtain r1 d1 g1 where r1: "draws (rand_next_word rand) 10 (d, g) = Inr (r1, d1, g1)" "length r1 = 10"
      "set r1 \<subseteq> set (words d)"
    using rand_dictionary_words [of d rand 10 g] ws by fastforce
  obtain r2 d2 g2 where r2: "draws (rand_next_word rand) 10 (?rd, g1) = Inr (r2, d2, g2)" "length r2 = 10"
      "set r2 \<subseteq> {''sasha'', ''sarah'', ''matt'', ''monty''}"
    using rand_dictionary_words [of ?rd rand 10 g1] by (fastforce simp: test_lists)
  obtain s3 where s3: "draws seq_next_word 10 ?fd =
      Inr (map (\<lambda>j. words d ! (j mod length (words d))) [0..<10], s3)"
    using seq_dictionary_cycles [of 0 ?fd 10] ws by (simp add: new_Seq_dictionary_def dictionary.defs)
  have "cur_word_ind ?sd = int 0" by (simp add: load_list_def new_Seq_dictionary_def dictionary.defs)
  from seq_dictionary_cycles [OF _ this, of 10] obtain s4 where s4: "draws seq_next_word 10 ?sd =
      Inr ([''sasha'', ''sarah'', ''benjamin'', ''dallin'', ''runner'',
            ''sasha'', ''sarah'', ''benjamin'', ''dallin'', ''runner''], s4)"
    by (simp add: test_lists upt_rec)
  have u: "unlines (xs @ ys) = unlines xs @ unlines ys" for xs ys by (simp add: unlines_def)
  have "test_dictionary h rand g = Inr (unlines (dictionary_lines (words d) r1 r2))"
    using assms load_file_kinds [OF assms] r1(1) r2(1) s3 s4 test_unique
    by (simp add: test_dictionary_def print_ten_def dictionary_lines_def u)
  with r1 r2 show "\<exists>r1 r2. test_dictionary h rand g = Inr (unlines (dictionary_lines (words d) r1 r2))
       \<and> length r1 = 10 \<and> set r1 \<subseteq> set (words d)
       \<and> length r2 = 10 \<and> set r2 \<subseteq> {''sasha'', ''sarah'', ''matt'', ''monty''}" by blast
next
  assume "words d = []"
  then have "draws (rand_next_word rand) 10 (d, g) = undef Div_by_zero"
    by (simp add: numeral_eq_Suc rand_next_word_def split: prod.splits)
  with assms show "test_dictionary h rand g = undef Div_by_zero"
    by (simp add: test_dictionary_def print_ten_def)
qed

definition words_host :: "string \<Rightarrow> host" where
  "words_host text = \<lparr>datadir = None, files = (\<lambda>p. if p = words_path
       then Some \<lparr>st_size = int (length text), can_open = True, content = text\<rparr> else None), stack_bytes = []\<rparr>"

theorem test_dictionary_prints_witness:
  "\<exists>r1 r2. test_dictionary (words_host (''cat'' @ [NL] @ ''dog'' @ [NL])) lcg 7 =
     Inr (unlines (dictionary_lines [''cat'', ''dog''] r1 r2)) \<and> set r1 \<subseteq> {''cat'', ''dog''}"
proof -
  have "load_file (words_host (''cat'' @ [NL] @ ''dog'' @ [NL])) words_path new_Rand_dictionary =
      Inr (0, new_Rand_dictionary\<lparr>words := [''cat'', ''dog'']\<rparr>)" by code_simp
  from test_dictionary_prints [OF this, of lcg 7] show ?thesis by auto
qed

section \<open>The MySQL client\<close>

text \<open>
  \<open>main\<close> of \<^verbatim>\<open>test-client.cc\<close> up to the first report.  The program never calls \<open>init\<close>, so the pipe of its
  client is whatever the memory of the object holds: the argument \<open>garbage\<close>.
\<close>

definition test_q1 :: query where
  "test_q1 = new_Query\<lparr>query_text := ''select * from mysql_auth'', parsed := 0, query_name := ''get_all'',
     type_name := ''full_scan'', has_result_set := 1\<rparr>"

definition test_q2 :: query where
  "test_q2 = new_Query\<lparr>query_text := ''select passwd from mysql_auth where username = '' @ [SQUOTE] @ ''$words'' @ [SQUOTE],
     parsed := 1, query_name := ''get_by_username'', type_name := ''index_lookup'', has_result_set := 1\<rparr>"

definition test_qb :: query_barrel where
  "test_qb = add_query_charge test_q2 20 (add_query_charge test_q1 2 (barrel_set_num_rounds 5 new_Query_barrel))"

definition test_qb1 :: query_barrel where
  "test_qb1 = add_query_charge test_q2 20 (barrel_set_num_rounds 5 new_Query_barrel)"

definition test_select1 :: string where
  "test_select1 = ''select * from mysql_auth where username = '' @ [SQUOTE] @ ''$words'' @ [SQUOTE]"

definition test_select2 :: string where
  "test_select2 = ''select * from mysql_auth where username in('' @ [SQUOTE] @ ''$words'' @ [SQUOTE] @ '','' @
     [SQUOTE] @ ''$words'' @ [SQUOTE] @ '')''"

definition test_one_thread :: "'w db_class \<Rightarrow> 'w os \<Rightarrow> host \<Rightarrow> client \<times> 'w \<Rightarrow> (string \<times> client \<times> 'w) result" where
  "test_one_thread db os h s =
     bindR (connect_to db os ''localhost'' ''test'' ''root'' '''' s) (\<lambda>(c, w).
     bindR (load_file h words_path new_Rand_dictionary) (\<lambda>(r, d).
     if r = -1 then die Test_dictionary_missing
     else
       let c = set_dictionary ''words'' (Some (Rand_dictionary d)) c in
       bindR (safe_parsed_query db os test_select1 1024 1 (c, w)) (\<lambda>(_, c, w).
       bindR (lose_result db w) (\<lambda>w.
       bindR (safe_parsed_query db os test_select2 1024 1 (c, w)) (\<lambda>(_, c, w).
       bindR (dump_result db (Some ''/tmp/mysql-auth-test.dump'') 1 w) (\<lambda>(_, w).
       let c = set_query_barrel test_qb c in
       mapR (\<lambda>report. (unlines [''running a one threaded test:''] @ report, c, w))
         (print_barrel_report c)))))))"

text \<open>The part with several processes up to \<open>thread_sync\<close>; \<open>argv\<close> holds the name of the program too.\<close>

definition test_threads :: "'w db_class \<Rightarrow> 'w os \<Rightarrow> string list \<Rightarrow> client \<times> 'w \<Rightarrow> (string \<times> client \<times> 'w) result" where
  "test_threads db os argv = (\<lambda>(c, w).
     let (c, w) = disconnect db c w;
         num_threads = (if length argv > 1 then atoi (c_str (argv ! 1)) else 50);
         c = set_query_barrel test_qb1 c in
     bindR (client_start_clock os (c, w)) (\<lambda>s.
     bindR (create_threads os num_threads s) (\<lambda>s.
     bindR (connect db os s) (\<lambda>s.
     mapR (\<lambda>(c, w). (unlines [''running a multi-threaded test: '', ''num_threads = '' @ dec_int num_threads], c, w))
       (unload_query_barrel db os s)))))"

lemma select_wait_ends:
  assumes "select_wait os wr fd w = Some r"
  shows "r = die Select_error \<or> (\<exists>w'. r = Inr w')"
  by (rule select_wait.raw_induct [where P = "\<lambda>os wr fd w r. r = die Select_error \<or> (\<exists>w'. r = Inr w')", OF _ assms])
     (auto split: prod.splits sys.splits)

text \<open>
  Without \<open>init\<close> there is no semaphore: its id is still -1.  As long as \<open>semop\<close> rejects that id, as it does, a
  child of the program never sends its report and never exits with 0.
\<close>

lemma test_child_dies:
  assumes sem: "\<And>n w. fst (os_semop os (- 1) n w) = - 1"
    and c: "pipe_sem_id c = - 1" "parent_thread c = 0" "qb c = Some b" "barrel_ok b"
    and run: "smack_run db os (c, w) = Inr (c', w')"
  shows "thread_sync db os (c', w') \<in> {None, Some (die Select_error), Some (die Semaphore_error)}"
proof -
  from run obtain c1 w1 where 1: "connect db os (c, w) = Inr (c1, w1)"
      "unload_query_barrel db os (c1, w1) = Inr (c', w')"
    by (auto simp: smack_run_def bindR_eq_Inr)
  from connect_effect [OF 1(1)] c have c1: "pipe_sem_id c1 = - 1" "parent_thread c1 = 0" "qb c1 = Some b" by auto
  from unload_worked [OF c1(3) c(4), of db os w1] 1(2) c1 have c': "pipe_sem_id c' = - 1" "parent_thread c' = 0"
    by (auto simp: worked_def)
  have "send_report os (c', v) = die Semaphore_error" for v
    using sem [of "- 1" v] c'(1) by (simp add: send_report_def lock_pipe_sem_def case_prod_unfold)
  then show ?thesis
    using c'(2) select_wait_ends [of os True "snd (report_pipe c')" w']
    by (cases "select_wait os True (snd (report_pipe c')) w'")
       (auto simp: thread_sync_def child_sync_def transfer_report_data_def)
qed


text \<open>The end of the parent: the destructor
 of a client with a database calls \<open>clean_up\<close>.\<close>

definition test_report :: "'w db_class \<Rightarrow> 'w os \<Rightarrow> client \<times> 'w \<Rightarrow> (string \<times> client \<times> 'w) result" where
  "test_report db os s =
     bindR (client_stop_clock os s) (\<lambda>(c, w).
     mapR (\<lambda>report. (report, clean_up db os (c, w))) (print_barrel_report c))"

definition test_client :: "'w db_class \<Rightarrow> 'w os \<Rightarrow> host \<Rightarrow> int \<times> int \<Rightarrow> string list \<Rightarrow> 'w \<Rightarrow>
    (string \<times> client \<times> 'w) result option" where
  "test_client db os h garbage argv w =
     (case bindR (test_one_thread db os h (new_Client\<lparr>report_pipe := garbage\<rparr>, w)) (\<lambda>(s1, s).
             mapR (\<lambda>(s2, s). (s1 @ s2, s)) (test_threads db os argv s)) of
        Inl e \<Rightarrow> Some (Inl e)
      | Inr (s12, s) \<Rightarrow>
          map_option (\<lambda>r. bindR r (\<lambda>s. mapR (\<lambda>(s3, s). (s12 @ s3, s)) (test_report db os s))) (thread_sync db os s))"

section \<open>The TCP client\<close>

text \<open>
  The loop that copies the response: the text so far, what the last \<open>receive\<close> returned and stored.  Writing
  a negative number of characters is undefined; the first answer is written before its number is looked at.
\<close>

partial_function (option) tcp_copy :: "('a, 'w) tcp_os \<Rightarrow> string \<Rightarrow> int \<times> string \<Rightarrow> 'a tcp_client \<times> 'w \<Rightarrow>
    (string \<times> 'a tcp_client \<times> 'w) result option" where
  "tcp_copy os out r s =
     (if fst r < 0 then Some (undef Out_of_bounds)
      else
        case tcp_receive os 2048 0 0 s of
          Inl e \<Rightarrow> Some (Inl e)
        | Inr (r', s') \<Rightarrow>
            (if fst r' > 0 then tcp_copy os (out @ take (nat (fst r)) (snd r)) r' s'
             else Some (Inr (out @ take (nat (fst r)) (snd r), s'))))"

text \<open>The arguments: host, port and the name of the log; the cases of the switch fall through.\<close>

definition tcp_args :: "string list \<Rightarrow> string \<times> int \<times> string option" where
  "tcp_args argv =
     (let c = min (length argv) 5
      in (if c \<ge> 2 then argv ! 1 else ''www.mysql.com'', if c \<ge> 3 then atoi (c_str (argv ! 2)) else 80,
          if c \<ge> 4 then Some (argv ! 3) else None))"

definition http_request :: string where
  "http_request = ''GET / HTTP/1.0'' @ [NL, NL]"

definition test_tcp :: "('a, 'w) tcp_os \<Rightarrow> (string \<Rightarrow> 'w \<Rightarrow> bool \<times> 'w) \<Rightarrow> string list \<Rightarrow> 'w \<Rightarrow>
    (string \<times> 'w) result option" where
  "test_tcp os fopen argv w =
     (let (host, port, log_file) = tcp_args argv;
          (opened, w) = (case log_file of None \<Rightarrow> (True, w) | Some f \<Rightarrow> fopen f w) in
      if \<not> opened then Some (Inl (Exited 1))
      else
        let (c, w) = TcpClient_host os host port True w; (c1, w) = TcpClient_host os host port True w in
        if \<not> is_good c \<or> \<not> is_good c1 then Some (Inl (Exited 1))
        else
          case bindR (tcp_connect os 2 (c, w)) (\<lambda>(c, w).
               bindR (tcp_connect os 2 (c1, w)) (\<lambda>(c1, w).
               if \<not> is_good c \<or> \<not> is_good c1 then Inl (Exited 1)
               else
                 bindR (tcp_send os http_request (c, w)) (\<lambda>(_, s).
                 mapR (\<lambda>(r, s). (r, s, c1)) (tcp_receive os 2048 0 0 s)))) of
            Inl e \<Rightarrow> Some (Inl e)
          | Inr (r, s, c1) \<Rightarrow>
              map_option (\<lambda>m. bindR m (\<lambda>(out, c, w).
                  bindR (tcp_destroy os (c1, w)) (\<lambda>w. mapR (\<lambda>w. (out, w)) (tcp_destroy os (c, w)))))
                (tcp_copy os [] r s))"

text \<open>
  A web server behind the system calls: \<open>incoming w\<close> is what is left of the response.  The calls succeed, a
  read yields a part of what is left, at least one byte of it unless nothing is left, and the request makes the
  whole response available.
\<close>

definition web_server :: "('a, 'w) tcp_os \<Rightarrow> ('w \<Rightarrow> string) \<Rightarrow> string \<Rightarrow> bool" where
  "web_server os incoming response \<longleftrightarrow>
     (\<forall>w. fst (tc_socket os w) \<ge> 0) \<and> (\<forall>h w. fst (tc_gethostbyname os h w) \<noteq> None) \<and>
     (\<forall>fd a w. fst (tc_connect os fd a w) = Some 0) \<and>
     (\<forall>fd w. incoming (snd (tc_write os fd http_request w)) = response) \<and>
     (\<forall>fd w. fst (tc_select os fd None w) = 1 \<and> incoming (snd (tc_select os fd None w)) = incoming w) \<and>
     (\<forall>fd n w. 0 < n \<longrightarrow> (\<exists>d w'. tc_read os fd n w = ((int (length d), d), w') \<and> incoming w = d @ incoming w' \<and>
        (d = [] \<longrightarrow> incoming w = [])))"

lemma web_receive:
  assumes "web_server os incoming response" "socket_fd c = Some fd" "0 < n"
  shows "\<exists>d w'. tcp_receive os n 0 0 (c, w) = Inr ((int (length d), d), c, w') \<and> incoming w = d @ incoming w' \<and>
    (d = [] \<longrightarrow> incoming w = [])"
proof -
  obtain r w1 where s: "tc_select os fd None w = (r, w1)" by fastforce
  with assms(1) have r: "r = 1" "incoming w1 = incoming w" unfolding web_server_def by (metis fst_conv snd_conv)+
  from assms(1,3) obtain d w' where "tc_read os fd n w1 = ((int (length d), d), w')" "incoming w1 = d @ incoming w'"
      "d = [] \<longrightarrow> incoming w1 = []"
    unfolding web_server_def by blast
  with s r assms(2) show ?thesis by (simp add: tcp_receive_def get_fd_def)
qed

lemma tcp_copy_all:
  assumes "web_server os incoming response" "socket_fd c = Some fd"
  shows "\<exists>w'. tcp_copy os out (int (length d), d) (c, w) = Some (Inr (out @ d @ incoming w, c, w'))"
proof (induction "length (incoming w)" arbitrary: out d w rule: less_induct)
  case less
  from web_receive [OF assms, of 2048 w] obtain d' w1 where
    d': "tcp_receive os 2048 0 0 (c, w) = Inr ((int (length d'), d'), c, w1)" "incoming w = d' @ incoming w1"
      "d' = [] \<longrightarrow> incoming w = []" by auto
  show ?case
  proof (cases "d' = []")
    case True
    with d' show ?thesis by (subst tcp_copy.simps) simp
  next
    case False
    with d'(2) have "length (incoming w1) < length (incoming w)" by simp
    from less [OF this, of "out @ d" d'] False d' show ?thesis by (subst tcp_copy.simps) simp
  qed
qed

text \<open>
  C32: \<open>test_tcp\<close> prints the whole response and ends.  Against a server that answers its request, whatever the
  pieces in which the response arrives, the program without a log file ends normally and has written exactly
  the bytes of the response.
\<close>

theorem test_tcp_prints_response:
  assumes "web_server os incoming response" "length argv < 4"
  shows "\<exists>w'. test_tcp os fopen argv w = Some (Inr (response, w'))"
proof -
  obtain hst port where a: "tcp_args argv = (hst, port, None)" using assms(2) by (simp add: tcp_args_def Let_def)
  note server = assms(1) [unfolded web_server_def]
  have make: "\<exists>c w' fd addr. TcpClient_host os hst port True w = (c, w') \<and> is_good c \<and> 0 \<le> fd \<and> socket_fd c = Some fd
      \<and> serv_addr c = Some addr" for w
  proof -
    obtain h w1 where "tc_gethostbyname os hst w = (Some h, w1)" using server by (metis option.exhaust prod.collapse)
    moreover obtain fd w2 where "tc_socket os w1 = (fd, w2)" "0 \<le> fd" using server by (metis prod.collapse)
    ultimately show ?thesis
      by (simp add: TcpClient_host_def tcp_init_def log_init_def new_TcpClient_def is_good_def)
  qed
  have con: "\<exists>w'. tcp_connect os 2 (c, w) = Inr (c, w')" if "socket_fd c = Some fd" "serv_addr c = Some addr" for c w fd addr
  proof -
    obtain w1 where "tc_connect os fd addr (tc_alarm os 2 w) = (Some 0, w1)" using server by (metis prod.collapse)
    with that show ?thesis by (simp add: tcp_connect_def get_fd_def)
  qed
  obtain c w1 fd addr where c: "TcpClient_host os hst port True w = (c, w1)" "is_good c" "0 \<le> fd"
      "socket_fd c = Some fd" "serv_addr c = Some addr" using make by blast
  obtain c1 w2 fd1 addr1 where c1: "TcpClient_host os hst port True w1 = (c1, w2)" "is_good c1" "0 \<le> fd1"
      "socket_fd c1 = Some fd1" "serv_addr c1 = Some addr1" using make by blast
  obtain w3 where w3: "tcp_connect os 2 (c, w2) = Inr (c, w3)" using con c by blast
  obtain w4 where w4: "tcp_connect os 2 (c1, w3) = Inr (c1, w4)" using con c1 by blast
  obtain n w5 where w5: "tc_write os fd http_request w4 = (n, w5)" by fastforce
  then have "incoming w5 = response" using server by (metis snd_conv)
  moreover obtain d w6 where w6: "tcp_receive os 2048 0 0 (c, w5) = Inr ((int (length d), d), c, w6)"
      "incoming w5 = d @ incoming w6"
    using web_receive [OF assms(1) c(4), of 2048 w5] by auto
  moreover obtain w7 where "tcp_copy os [] (int (length d), d) (c, w6) = Some (Inr ([] @ d @ incoming w6, c, w7))"
    using tcp_copy_all [OF assms(1) c(4)] by blast
  ultimately show ?thesis
    using a c c1 w3 w4 w5 by (simp add: test_tcp_def tcp_send_def tcp_destroy_def get_fd_def)
qed

definition example_web :: "(string, string) tcp_os" where
  "example_web = \<lparr>tc_socket = \<lambda>w. (3, w), tc_gethostbyname = \<lambda>h w. (Some h, w), tc_connect = \<lambda>fd a w. (Some 0, w),
     tc_alarm = \<lambda>n w. w, tc_write = \<lambda>fd s w. (int (length s), ''200 OK''), tc_select = \<lambda>fd t w. (1, w),
     tc_read = \<lambda>fd n w. ((int (length (take (min n 4) w)), take (min n 4) w), drop (min n 4) w),
     tc_close = \<lambda>fd w. w, tc_print = \<lambda>s w. w\<rparr>"

lemma example_web_server: "web_server example_web (\<lambda>w. w) ''200 OK''"
proof -
  have "\<exists>d w'. tc_read example_web fd n w = ((int (length d), d), w') \<and> w = d @ w' \<and> (d = [] \<longrightarrow> w = [])" if "0 < n" for fd n w
    by (rule exI [of _ "take (min n 4) w"], rule exI [of _ "drop (min n 4) w"])
       (use that in \<open>auto simp: example_web_def min_def\<close>)

  then show ?thesis by (simp add: web_server_def) (simp add: example_web_def)
qed


theorem test_tcp_prints_response_witness:
  "\<exists>w'. test_tcp example_web (\<lambda>f w. (True, w)) [''test_tcp_client'', ''localhost''] '''' = Some (Inr (''200 OK'', w'))"
  by (rule test_tcp_prints_response [OF example_web_server]) simp

end
