(* ===== verification/Smack_Tables.thy ===== *)
theory Smack_Tables
  imports Smack_Benchmark Smack_Script_Proofs
begin

text \<open>
  Table sections (\<open>Table_def::validate_table\<close> of \<^verbatim>\<open>src/parse.cc\<close>) against an abstract database, which maps the
  names of tables to their numbers of rows.
\<close>

section \<open>The abstract operation\<close>

text \<open>A table section makes sure of its table: one with enough rows stays, any other is loaded afresh.\<close>

definition ensure_table :: "string \<Rightarrow> int \<Rightarrow> int \<Rightarrow> (string \<rightharpoonup> int) \<Rightarrow> (string \<rightharpoonup> int)" where
  "ensure_table name min_rows loaded T =
     (case T name of
        Some r \<Rightarrow> if min_rows \<le> r then T else T(name \<mapsto> loaded)
      | None \<Rightarrow> T(name \<mapsto> loaded))"

section \<open>A database behind the virtual functions\<close>

text \<open>
  What the functions of a client do to the tables and the data files (\<open>disk\<close> maps a path to the number of
  rows in the file): the statement \<open>create\<close> makes an empty table \<open>name\<close>, loading adds the rows of a file, and
  the command of the section writes \<open>gen\<close> rows to a file.
\<close>

definition sql_server :: "'w db_class \<Rightarrow> 'w os \<Rightarrow> 'w shell \<Rightarrow> string \<Rightarrow> string \<Rightarrow> string \<Rightarrow> int \<Rightarrow>
    ('w \<Rightarrow> string \<rightharpoonup> int) \<Rightarrow> ('w \<Rightarrow> string \<rightharpoonup> int) \<Rightarrow> bool" where
  "sql_server db os sh name create cmd gen tables disk \<longleftrightarrow>
     (\<forall>c w c' w'. connect db os (c, w) = Inr (c', w') \<longrightarrow> tables w' = tables w \<and> disk w' = disk w) \<and>
     (\<forall>c w. tables (snd (disconnect db c w)) = tables w) \<and>
     (\<forall>w. \<exists>i w'. get_table_info db name w = Inr (i, w') \<and> tables w' = tables w \<and> disk w' = disk w \<and>
        (case tables w name of None \<Rightarrow> fst i \<noteq> 0 | Some r \<Rightarrow> i = (0, r))) \<and>
     (\<forall>w. tables w name \<noteq> None \<longrightarrow> (\<exists>i w'. safe_query db (''drop table '' @ name) 1 w = Inr (i, w') \<and>
        tables w' = (tables w)(name := None) \<and> disk w' = disk w)) \<and>
     (\<forall>w. tables w name = None \<longrightarrow> (\<exists>i w'. safe_query db create 1 w = Inr (i, w') \<and>
        tables w' = (tables w)(name \<mapsto> 0) \<and> disk w' = disk w)) \<and>
     (\<forall>f w r n. tables w name = Some r \<longrightarrow> disk w f = Some n \<longrightarrow> (\<exists>i w'. load_table_data db name f w = Inr (i, w') \<and>
        tables w' = (tables w)(name \<mapsto> r + n))) \<and>
     (\<forall>f w. sh_stat sh f w = 0 \<longleftrightarrow> disk w f \<noteq> None) \<and>
     (\<forall>f w. fst (sh_system sh (cmd @ '' > '' @ f) w) = 0 \<and> tables (snd (sh_system sh (cmd @ '' > '' @ f) w)) = tables w \<and>
        disk (snd (sh_system sh (cmd @ '' > '' @ f) w)) = (disk w)(f \<mapsto> gen))"

lemma sql_server_laws:
  assumes "sql_server db os sh name create cmd gen tables disk"
  shows sql_connect: "connect db os (c, w) = Inr (c', w') \<Longrightarrow> tables w' = tables w \<and> disk w' = disk w"
    and sql_disconnect: "tables (snd (disconnect db c w)) = tables w"
    and sql_info: "\<exists>i w'. get_table_info db name w = Inr (i, w') \<and> tables w' = tables w \<and> disk w' = disk w \<and>
        (case tables w name of None \<Rightarrow> fst i \<noteq> 0 | Some r \<Rightarrow> i = (0, r))"
    and sql_drop: "tables w name = Some r \<Longrightarrow> \<exists>i w'. safe_query db (''drop table '' @ name) 1 w = Inr (i, w') \<and>
        tables w' = (tables w)(name := None) \<and> disk w' = disk w"
    and sql_create: "tables w name = None \<Longrightarrow> \<exists>i w'. safe_query db create 1 w = Inr (i, w') \<and>
        tables w' = (tables w)(name \<mapsto> 0) \<and> disk w' = disk w"
    and sql_load: "tables w name = Some r \<Longrightarrow> disk w f = Some n \<Longrightarrow> \<exists>i w'. load_table_data db name f w = Inr (i, w') \<and>
        tables w' = (tables w)(name \<mapsto> r + n)"
    and sql_stat: "sh_stat sh f w = 0 \<longleftrightarrow> disk w f \<noteq> None"
    and sql_system: "fst (sh_system sh (cmd @ '' > '' @ f) w) = 0 \<and> tables (snd (sh_system sh (cmd @ '' > '' @ f) w)) = tables w \<and>
        disk (snd (sh_system sh (cmd @ '' > '' @ f) w)) = (disk w)(f \<mapsto> gen)"
  using assms unfolding sql_server_def by simp_all

abbreviation file_rows :: "('w \<Rightarrow> string \<rightharpoonup> int) \<Rightarrow> string \<Rightarrow> int \<Rightarrow> 'w \<Rightarrow> int" where
  "file_rows disk dfile gen w \<equiv> (case disk w dfile of None \<Rightarrow> gen | Some n \<Rightarrow> n)"

lemma create_table_loads:
  assumes s: "sql_server db os sh name (c_str (td_create_st td)) (c_str (td_gen_data_file td)) gen tables disk"
    and path: "data_path (sh_datadir sh) (c_str (td_data_file td)) (sh_stack sh) = Inr dfile"
    and none: "tables w name = None"
  shows "\<exists>w'. create_table db sh td name w = Inr w' \<and> tables w' = (tables w)(name \<mapsto> file_rows disk dfile gen w)"
proof -
  from path obtain b p where p: "mk_data_path (sh_datadir sh) (c_str (td_data_file td)) (sh_stack sh) = Inr (b, p)"
      "read_cstr p = Inr dfile"
    by (auto simp: data_path_def bindR_eq_Inr)
  from sql_create [OF s none] obtain i w1 where 1: "safe_query db (c_str (td_create_st td)) 1 w = Inr (i, w1)"
      "tables w1 = (tables w)(name \<mapsto> 0)" "disk w1 = disk w" by blast
  define fw where "fw = (if sh_stat sh dfile w1 \<noteq> 0 then populate_data_file (sh_system sh) dfile (c_str (td_gen_data_file td)) w1
    else (0, w1))"
  have "fst fw = 0 \<and> tables (snd fw) = tables w1 \<and> disk (snd fw) dfile = Some (file_rows disk dfile gen w)"
    using sql_stat [OF s, where f = dfile and w = w1] sql_system [OF s, where f = dfile and w = w1] 1(3)
    by (auto simp: fw_def populate_data_file_def split: option.splits)
  then obtain w2 where w2: "fw = (0, w2)" "tables w2 = tables w1" "disk w2 dfile = Some (file_rows disk dfile gen w)"
    by (cases fw) auto
  from w2(2) 1(2) have "tables w2 name = Some 0" by simp
  from sql_load [OF s this w2(3)] obtain j w3 where "load_table_data db name dfile w2 = Inr (j, w3)"
      "tables w3 = (tables w2)(name \<mapsto> 0 + file_rows disk dfile gen w)" by blast
  with p 1 w2 show ?thesis by (simp add: create_table_def fw_def [symmetric])
qed

text \<open>
  C21: A table section does to the database what its abstract operation does.  With a client that is defined
  and connects, on a server whose statements work, the section of a table succeeds and leaves all tables as
  they are if its table has the required rows; otherwise exactly this table is made anew with the rows of the
  data file, which is generated first when it does not exist.  Whether those rows are enough is not checked.
\<close>

theorem table_section_ensures:
  fixes ls :: "table_def_line list"
  defines "td \<equiv> fold update_table_def ls new_Table_def"
  assumes s: "sql_server db os sh name (c_str (td_create_st td)) (c_str (td_gen_data_file td)) gen tables disk"
    and name: "NUL \<notin> set name"
    and client: "smap_find (client_pool p) (td_client td) = Some (Some c)" "connect db os (c, w) = Inr (c1, w1)"
    and path: "data_path (sh_datadir sh) (c_str (td_data_file td)) (sh_stack sh) = Inr dfile"
  shows "\<exists>pool w'. run_section db os h sh k (Table_section name ls) (p, w) = Inr (p\<lparr>client_pool := pool\<rparr>, w') \<and>
    tables w' = ensure_table name (atoi (c_str (td_min_rows td))) (file_rows disk dfile gen w) (tables w)"
proof -
  let ?lim = "atoi (c_str (td_min_rows td))" and ?n = "file_rows disk dfile gen w"
  have w1: "tables w1 = tables w" "disk w1 = disk w" using sql_connect [OF s client(2)] by simp_all
  obtain missing rows w2 where 2: "get_table_info db name w1 = Inr ((missing, rows), w2)" "tables w2 = tables w1"
      "disk w2 = disk w1" "case tables w1 name of None \<Rightarrow> missing \<noteq> 0 | Some r \<Rightarrow> missing = 0 \<and> rows = r"
    using sql_info [OF s, of w1] by (auto split: option.splits)
  have drop: "c_str (''drop table '' @ name) = ''drop table '' @ name"
    using name by (intro c_str_id) auto
  have "\<exists>w3. (if missing \<noteq> 0 then create_table db sh td name w2
      else if ?lim \<le> rows then Inr w2
      else bindR (safe_query db (c_str (''drop table '' @ name)) 1 w2) (\<lambda>(_, w). create_table db sh td name w)) = Inr w3
    \<and> tables w3 = ensure_table name ?lim ?n (tables w)"
  proof (cases "tables w name")
    case None
    then show ?thesis
      using create_table_loads [OF s path, of w2] 2 w1 by (auto simp: ensure_table_def)
  next
    case (Some r)
    with 2 w1 have m: "missing = 0" "rows = r" "tables w2 name = Some r" by auto
    obtain i w3 where 3: "safe_query db (c_str (''drop table '' @ name)) 1 w2 = Inr (i, w3)"
        "tables w3 = (tables w2)(name := None)" "disk w3 = disk w2"
      using sql_drop [OF s m(3)] unfolding drop by blast
    show ?thesis
      using create_table_loads [OF s path, of w3] 3 2 w1 m Some by (auto simp: ensure_table_def)
  qed
  then obtain w3 where 3: "(if missing \<noteq> 0 then create_table db sh td name w2
      else if ?lim \<le> rows then Inr w2
      else bindR (safe_query db (c_str (''drop table '' @ name)) 1 w2) (\<lambda>(_, w). create_table db sh td name w)) = Inr w3"
    "tables w3 = ensure_table name ?lim ?n (tables w)" by blast
  obtain c' w4 where 4: "disconnect db c1 w3 = (c', w4)" by fastforce
  with sql_disconnect [OF s, of c1 w3] have "tables w4 = tables w3" by simp
  with 3 4 show ?thesis
    using validate_table_decides [OF client 2(1), of sh]
    by (intro exI [of _ "smap_put (td_client td) (Some c') (client_pool p)"] exI [of _ w4])
       (simp add: run_section_def td_def [symmetric] case_prod_unfold)
qed

text \<open>A database in memory, with one table that the section wants larger.\<close>

definition still_os :: "'w os" where
  "still_os = \<lparr>gettimeofday = \<lambda>w. (Timeval 0 0, w), os_rand = \<lambda>w. (0, w), os_srand = \<lambda>w. w,
     os_sleep = \<lambda>n w. w, os_usleep = \<lambda>n w. w, os_fork = \<lambda>w. (- 1, w), os_wait4 = \<lambda>w. (Sys_error, w),
     os_pipe = \<lambda>w. (None, w), os_close = \<lambda>fd w. w, os_read = \<lambda>fd n w. (None, w), os_write = \<lambda>fd bs w. (- 1, w),
     os_select = \<lambda>wr fd w. (Sys_error, w), os_ftok = \<lambda>w. 0, os_semget = \<lambda>k n cr w. (0, w),
     os_setval = \<lambda>i v w. w, os_semop = \<lambda>i d w. (0, w), os_rmid = \<lambda>i w. w\<rparr>"

definition memory_db :: "((string \<rightharpoonup> int) \<times> (string \<rightharpoonup> int)) db_class" where
  "memory_db = idle_db\<lparr>
     safe_query := \<lambda>q ab (T, D). Inr (0, if q = ''drop table t'' then T(''t'' := None)
       else if q = ''create t'' then T(''t'' \<mapsto> 0) else T, D),
     get_table_info := \<lambda>n (T, D). Inr (case T n of None \<Rightarrow> (1, 0) | Some r \<Rightarrow> (0, r), T, D),
     load_table_data := \<lambda>n f (T, D). Inr (0, T(n \<mapsto> the (T n) + the (D f)), D)\<rparr>"

definition memory_shell :: "((string \<rightharpoonup> int) \<times> (string \<rightharpoonup> int)) shell" where
  "memory_shell = \<lparr>sh_stat = \<lambda>f (T, D). if D f = None then - 1 else 0,
     sh_system = \<lambda>c (T, D). (0, T, D(drop (length ''gen > '') c \<mapsto> 90)), sh_datadir = None, sh_stack = []\<rparr>"

lemma memory_server: "sql_server memory_db still_os memory_shell ''t'' ''create t'' ''gen'' 90 fst snd"
  unfolding sql_server_def
proof (intro conjI)
  show "\<forall>c w c' w'. connect memory_db still_os (c, w) = Inr (c', w') \<longrightarrow> fst w' = fst w \<and> snd w' = snd w"
    by (auto simp: connect_def still_os_def memory_db_def idle_db_def resultE_simps Let_def split: if_splits)
qed (auto simp: memory_db_def idle_db_def memory_shell_def split: option.splits)

theorem table_section_ensures_witness:
  "\<forall>h. \<exists>pool w'. run_section memory_db still_os h memory_shell (Some ()) (Table_section ''t''
       [Table_client_def_line ''c'', Table_create_def_line ''create t'', Table_min_rows_def_line ''90'',
        Table_data_file_def_line ''t.dat'', Table_gen_data_file_def_line ''gen''])
       (new_process\<lparr>client_pool := [(''c'', Some new_Client)]\<rparr>, ([''t'' \<mapsto> 5, ''u'' \<mapsto> 1], Map.empty)) =
       Inr (new_process\<lparr>client_pool := pool\<rparr>, w')
     \<and> fst w' = [''t'' \<mapsto> 90, ''u'' \<mapsto> 1]"
proof -
  have "\<exists>pool w'. run_section memory_db still_os h memory_shell (Some ()) (Table_section ''t''
       [Table_client_def_line ''c'', Table_create_def_line ''create t'', Table_min_rows_def_line ''90'',
        Table_data_file_def_line ''t.dat'', Table_gen_data_file_def_line ''gen''])
       (new_process\<lparr>client_pool := [(''c'', Some new_Client)]\<rparr>, ([''t'' \<mapsto> 5, ''u'' \<mapsto> 1], Map.empty)) =
       Inr (new_process\<lparr>client_pool := pool\<rparr>, w')
     \<and> fst w' = [''t'' \<mapsto> 90, ''u'' \<mapsto> 1]" for h
  proof -
    let ?ls = "[Table_client_def_line ''c'', Table_create_def_line ''create t'', Table_min_rows_def_line ''90'',
          Table_data_file_def_line ''t.dat'', Table_gen_data_file_def_line ''gen'']"
    let ?p = "new_process\<lparr>client_pool := [(''c'', Some new_Client)]\<rparr>"
    let ?w = "([''t'' \<mapsto> 5, ''u'' \<mapsto> 1], Map.empty) :: (string \<rightharpoonup> int) \<times> (string \<rightharpoonup> int)"
    have n: "atoi ''90'' = 90"
      using atoi_dec_int [of 90] by (simp add: dec_int_def dec.simps digit_char_def int_range_defs char_of_def bit_iff_odd)
    have "\<exists>c1. connect memory_db still_os (new_Client, ?w) = Inr (c1, ?w)"
      by (simp add: connect_def still_os_def memory_db_def idle_db_def new_Client_def elapsed_ms_def chk_def int_range_defs Let_def)
    then obtain c1 where c1: "connect memory_db still_os (new_Client, ?w) = Inr (c1, ?w)" by blast
    have "data_path (sh_datadir memory_shell) (c_str ''t.dat'') (sh_stack memory_shell) = Inr ''t.dat''"
      by (simp add: memory_shell_def data_path_def mk_data_path_def read_cstr_def c_str_def)
    with table_section_ensures [where ls = ?ls and db = memory_db and os = still_os and sh = memory_shell and name = "''t''"
        and gen = 90 and tables = fst and disk = snd and p = ?p and w = ?w and h = h and k = "Some ()"] memory_server c1
    show ?thesis
      by (simp add: new_Table_def_def smap_find_def c_str_def ensure_table_def n fun_upd_twist)
  qed
  then show ?thesis by blast
qed

end
