(* ===== verification/Smack_Lines.thy ===== *)
theory Smack_Lines
  imports Smack_Grammar
begin

text \<open>
  Scanning a text piece by piece.  A piece that ends with a newline is scanned on its own, to its tokens and
  the state it leaves the scanner in; no token goes past the newline but a string literal, whose beginning is
  the buffer.
\<close>

function scan_part :: "lex_state \<Rightarrow> string \<Rightarrow> string \<Rightarrow> token list \<times> lex_state \<times> string" where
  "scan_part st q [] = ([], st, q)"
| "scan_part INITIAL q (c # cs) =
     (if is_letter c then
        (case scan_part INITIAL q (dropWhile is_ident cs) of (ts, e) \<Rightarrow> (word_token (c # takeWhile is_ident cs) # ts, e))
      else if isdigit c then
        (case scan_part INITIAL q (dropWhile isdigit cs) of (ts, e) \<Rightarrow> (NUMBER_SYM (c # takeWhile isdigit cs) # ts, e))
      else if c = DQUOTE then scan_part Q_STR [] cs
      else if c = CHR ''#'' then scan_part COMMENT q cs
      else if c = CHR ''/'' \<and> cs \<noteq> [] \<and> hd cs = CHR ''/'' then scan_part COMMENT q (tl cs)
      else if c = CHR '':'' \<and> cs \<noteq> [] \<and> hd cs = CHR '':'' then
        (case scan_part INITIAL q (tl cs) of (ts, e) \<Rightarrow> (COL_COL_SYM # ts, e))
      else case map_of symbol_list c of
             Some t \<Rightarrow> (case scan_part INITIAL q cs of (ts, e) \<Rightarrow> (t # ts, e))
           | None \<Rightarrow> scan_part INITIAL q cs)"
| "scan_part COMMENT q (c # cs) = scan_part (if c = NL then INITIAL else COMMENT) q cs"
| "scan_part Q_STR q (c # cs) =
     (if c = BSLASH then scan_part Q_STR_ESC q cs
      else if c = DQUOTE then (case scan_part INITIAL q cs of (ts, e) \<Rightarrow> (STRING_SYM q # ts, e))
      else scan_part Q_STR (q @ c_str [c]) cs)"
| "scan_part Q_STR_ESC q (c # cs) =
     (if c = BSLASH \<or> c = DQUOTE \<or> c = NL then scan_part Q_STR (q @ [c]) cs
      else scan_part Q_STR_ESC q cs)"
  by pat_completeness auto
termination
  by (relation "measure (\<lambda>(st, q, s). length s)") (auto simp: le_imp_less_Suc length_dropWhile_le)

declare scan_part.simps(2-5) [simp del]

lemma while_to_newline:
  assumes "cs \<noteq> []" "last cs = NL" "\<not> P NL"
  shows "takeWhile P (cs @ r) = takeWhile P cs" "dropWhile P (cs @ r) = dropWhile P cs @ r"
    "dropWhile P cs \<noteq> []" "last (dropWhile P cs) = NL"
proof -
  have x: "NL \<in> set cs" using assms(1,2) last_in_set by fastforce
  then show "takeWhile P (cs @ r) = takeWhile P cs" "dropWhile P (cs @ r) = dropWhile P cs @ r"
    using assms(3) by (auto intro: takeWhile_append1 dropWhile_append1)
  show ne: "dropWhile P cs \<noteq> []" using x assms(3) by (auto simp: dropWhile_eq_Nil_conv)
  have "cs = takeWhile P cs @ dropWhile P cs" by simp
  with ne have "last cs = last (dropWhile P cs)" by (metis last_append)
  with assms(2) show "last (dropWhile P cs) = NL" by simp
qed

lemma newline_plain: "\<not> is_letter NL" "\<not> isdigit NL" "\<not> is_ident NL" "NL \<noteq> CHR ''/''" "NL \<noteq> CHR '':''" "NL \<noteq> DQUOTE"
  by (simp_all add: NL_def is_letter_def isdigit_def is_ident_def isalnum_def isupper_def islower_def)

lemma scan_part_scan:
  "t = [] \<or> last t = NL \<Longrightarrow>
   scan st q (t @ r) = (case scan_part st q t of (ts, st', q') \<Rightarrow> ts @ scan st' q' r)"
proof (induction st q t rule: scan_part.induct)
  case (2 q c cs)
  show ?case
  proof (cases "cs = []")
    case True
    with 2 have "c = NL" by simp
    with True show ?thesis
      by (simp add: scan.simps(2) scan_part.simps(2) newline_plain)
         (simp add: symbol_list_def NL_def)
  next
    case False
    with 2(9) have l: "last cs = NL" by simp
    note w = while_to_newline [where P = is_ident, OF False l newline_plain(3)] while_to_newline [where P = isdigit, OF False l newline_plain(2)]
    have t: "tl cs = [] \<or> last (tl cs) = NL" using False l by (cases cs) (auto split: if_splits)
    show ?thesis
      using 2 False l t w
      by (auto simp: scan.simps(2) scan_part.simps(2) split: prod.splits option.splits)
  qed
qed (auto simp: scan.simps(3-5) scan_part.simps(3-5) split: prod.splits if_splits)

lemma scan_initial_buffer: "st \<in> {INITIAL, COMMENT} \<Longrightarrow> scan st q s = scan st [] s"
proof (induction st q s rule: scan.induct)
  case (2 q c cs)
  then show ?case by (auto simp: scan.simps(2) split: option.splits)
qed (auto simp: scan.simps(3-5))

text \<open>A piece of text that ends between tokens, and what it is read as.\<close>

definition reads_as :: "string \<Rightarrow> token list \<Rightarrow> bool" where
  "reads_as s ts \<longleftrightarrow> s \<noteq> [] \<and> last s = NL \<and> (case scan_part INITIAL [] s of (ts', st, q) \<Rightarrow> ts' = ts \<and> st = INITIAL)"

lemma lex_pieces: "list_all2 reads_as ps tss \<Longrightarrow> lex (concat ps) = concat tss"
proof (induction rule: list_all2_induct)
  case (Cons s ps ts tss)
  then obtain q where "scan_part INITIAL [] s = (ts, INITIAL, q)" "last s = NL"
    by (cases "scan_part INITIAL [] s") (auto simp: reads_as_def)
  with scan_part_scan [of s INITIAL "[]" "concat ps"] Cons.IH scan_initial_buffer [of INITIAL q "concat ps"]
  show ?case by (simp add: lex_def)
qed (simp add: lex_def)

end
