(* ===== verification/Smack_Shipped.thy ===== *)
theory Smack_Shipped
  imports Smack_Lines Smack_Grammar_Proofs Smack_Script_Run
begin

text \<open>
  The two scripts that come with the program, \<^verbatim>\<open>smacks/select-key.smack\<close> and \<^verbatim>\<open>smacks/update-select.smack\<close>, line by
  line as they stand: what they are parsed into, and what the benchmark they describe counts.
\<close>

section \<open>The texts\<close>

text \<open>A script section by section, each as its lines.\<close>

definition select_key_admin :: "string list" where
  "select_key_admin =
    [''// this is will be used in the table section'',
     ''client \"admin\"'',
     ''{'',
     '' user \"root\";'',
     '' host \"localhost\";'',
     '' db \"test\";'',
     '' pass \"\";'',
     '' socket \"/tmp/mysql.sock\"; // this only applies to MySQL and is'',
     ''// ignored for PostgreSQL'',
     ''}'']"

definition select_key_table :: "string list" where
  "select_key_table =
    ['''',
     ''// ensure the table exists and meets the conditions'',
     ''table \"http_auth\"'',
     ''{'',
     ''  client \"admin\"; // connect with this client'',
     '' // if the table is not found or does not pass the checks, create it'',
     '' // with the following, dropping the old one if needed'',
     ''  create \"create table http_auth'',
     ''    (username char(25) not null primary key,'',
     ''     pass char(25),'',
     ''     uid integer not null,'',
     ''     gid integer not null'',
     ''    )\";'',
     ''  min_rows \"90000\"; // the table must have at least that many rows'',
     ''  data_file \"words.dat\"; // if the table is empty, load the data from'',
     ''//this file'',
     ''  gen_data_file \"gen-data -n 90000 -f %12-12s%n,%25-25s,%n,%d\";'',
     ''// if the file above does not exist, generate it with the above shell command'',
     ''// you can replace this command with anything that prints comma-delimited'',
     ''// data to stdout, just make sure you have the right number of columns'',
     ''}'']"

definition select_key_dict :: "string list" where
  "select_key_dict =
    ['''',
     '''',
     ''//define a dictionary'',
     ''dictionary \"word\"'',
     ''{'',
     ''  type \"rand\"; // words are retrieved in random order'',
     ''  source_type \"file\"; // words come from a file'',
     ''  source \"words.dat\"; // file location'',
     ''  delim \",\"; // take the part of the line before ,'',
     ''  file_size_equiv \"45000\"; // if the file is greater than this'',
     ''//divive the real file size by this value obtaining N and take every Nth'',
     ''//line skipping others. This is needed to be able to target a wide key'',
     ''// range without using up too much memory with test keys'',
     ''}  '']"

definition select_key_query :: "string list" where
  "select_key_query =
    ['''',
     ''//define a query'',
     ''query \"select_by_username\"'',
     ''{'',
     ''  query \"select * from http_auth where username = '$word'\";'',
     ''// $word will be substitute with the read from the 'word' dictionary'',
     ''  type \"select_index\";'',
     ''// query stats will be grouped by type'',
     ''  has_result_set \"y\";'',
     ''// the query is expected to return a result set'',
     ''  parsed \"y\";'',
     ''// the query string should be first processed by super-smack to do'',
     ''// dictionary substitution'',
     ''}'']"

definition select_key_client :: "string list" where
  "select_key_client =
    ['''',
     ''// define database client type'',
     ''client \"smacker1\"'',
     ''{'',
     '' user \"test\"; // connect as this user'',
     '' pass \"\"; // use this password'',
     '' host \"localhost\"; // connect to this host'',
     '' db \"test\"; // switch to this database'',
     '' socket \"/tmp/mysql.sock\"; // this only applies to MySQL and is'',
     ''// ignored for PostgreSQL'',
     '' query_barrel \"2 select_by_username\"; // on each round,'',
     ''// run select_by_username query 2 times'',
     ''}'']"

definition select_key_main :: "string list" where
  "select_key_main =
    ['''',
     ''main'',
     '' {'',
     ''  smacker1.init(); // initialize the client'',
     ''  smacker1.set_num_rounds($2); // second arg on the command line defines'',
     ''// the number of rounds for each client '',
     ''  smacker1.create_threads($1);'',
     ''// first argument on the command line defines how many client instances'',
     ''// to fork. Anything after this will be done once for each client until'',
     ''// you collect the threads'',
     ''  smacker1.connect();'',
     ''// you must connect after you fork '',
     ''  smacker1.unload_query_barrel(); // for each client fire the query barrel'',
     ''// it will now do the number of rounds specified by set_num_rounds()'',
     ''// on each round, query_barrel of the client is executed'',
     '''',
     ''  smacker1.collect_threads();'',
     ''// the master thread waits for the children, each child reports the stats'',
     ''// the stats are printed'',
     ''  smacker1.disconnect();'',
     ''// the children now disconnect and exit'',
     '' }'',
     '''',
     '''',
     '''']"

definition update_select_table :: "string list" where
  "update_select_table =
    ['''',
     ''// ensure the table exists and meets the conditions'',
     ''table \"http_auth\"'',
     ''{'',
     ''  client \"admin\"; // connect with this client'',
     '' // if the table is not found or does not pass the checks, create it'',
     '' // with the following, dropping the old one if needed'',
     ''  create \"create table http_auth'',
     ''    (username char(25) not null primary key,'',
     ''     pass char(25),'',
     ''     uid integer not null,'',
     ''     gid integer not null'',
     ''    )\";'',
     ''  min_rows \"90000\"; // the table must have at least that many rows'',
     ''  data_file \"words.dat\"; // if the table is empty, load the data from'',
     ''//this file'',
     ''  gen_data_file \"gen-data -n 90000 -f %12-12s%n,%25-25s,%n,%d\";'',
     ''// if the file above does not exist, generate it with the above command'',
     ''}'']"

definition update_select_dict :: "string list" where
  "update_select_dict =
    ['''',
     '''',
     ''//define a dictionary'',
     ''dictionary \"word\"'',
     ''{'',
     ''  type \"rand\"; // words are retrieved in random order'',
     ''  source_type \"file\"; // words come from a file'',
     ''  source \"words.dat\"; // file location'',
     ''  delim \",\"; // take the part of the line before ,'',
     ''  file_size_equiv \"45000\"; // if the file is greater than this'',
     ''//divive the real file size by this value obtaining N and take every Nth'',
     ''//line skipping others'',
     ''}  '']"

definition update_select_update :: "string list" where
  "update_select_update =
    ['''',
     ''query \"update_by_username\"'',
     ''{'',
     ''  query \"update http_auth set pass='$word' where username = '$word'\";'',
     ''// $word will be substitute with the read from the 'word' dictionary'',
     ''// note that the first word is not the same as the second, as each is'',
     ''// a separate random draw from the dictionary'',
     ''  type \"update_index\";'',
     ''// query stats will be grouped by type'',
     ''  has_result_set \"y\";'',
     ''// the query is expected to return a result set'',
     ''  parsed \"y\";'',
     ''// the query string should be first processed by super-smack to do'',
     ''// dictionary substitution'',
     ''}'']"

definition update_select_client :: "string list" where
  "update_select_client =
    ['''',
     '''',
     ''// define database client type'',
     ''client \"smacker\"'',
     ''{'',
     '' user \"test\"; // connect as this user'',
     '' pass \"\"; // use this password'',
     '' host \"localhost\"; // connect to this host'',
     '' db \"test\"; // switch to this database'',
     '' socket \"/tmp/mysql.sock\"; // this only applies to MySQL and is'',
     ''// ignored for PostgreSQL'',
     '' query_barrel \"1 select_by_username 1 update_by_username\"; // on each round,'',
     ''// run select_by_username query followed by update_by_username'',
     ''}'']"

definition update_select_main :: "string list" where
  "update_select_main =
    ['''',
     ''main'',
     '' {'',
     '''',
     ''  smacker.init(); // initialize the clients'',
     ''  smacker.set_num_rounds($2); // second arg on the command line defines'',
     ''// the number of rounds for each client'',
     ''  smacker.set_num_rounds($2);'',
     ''  smacker.create_threads($1);'',
     ''// first argument on the command line defines how many client instances'',
     ''// to fork. Anything after this will be done once for each client until'',
     ''// you collect the threads'',
     ''  smacker.connect();'',
     ''// you must connect after you fork '',
     ''  smacker.unload_query_barrel(); // for each client fire the query barrel'',
     ''// it will now do the number of rounds specified by set_num_rounds()'',
     ''// on each round, query_barrel of the client is executed'',
     '''',
     ''  smacker.collect_threads();'',
     ''// the master thread waits for the children, each child reports the stats'',
     ''// the stats are printed'',
     ''  smacker.disconnect();'',
     ''// the children now disconnect and exit'',
     '' }'']"


definition select_key :: string where
  "select_key = concat (map unlines
     [select_key_admin, select_key_table, select_key_dict, select_key_query, select_key_client, select_key_main])"

definition update_select :: string where
  "update_select = concat (map unlines
     [select_key_admin, update_select_table, update_select_dict, select_key_query, update_select_update,
      update_select_client, update_select_main])"

section \<open>What they are parsed into\<close>

definition admin_section :: script_section where
  "admin_section = Client_section ''admin''
     [Client_user_def_line ''root'', Client_host_def_line ''localhost'', Client_db_def_line ''test'',
      Client_pass_def_line '''', Client_socket_def_line ''/tmp/mysql.sock'']"

definition http_auth_section :: script_section where
  "http_auth_section = Table_section ''http_auth''
     [Table_client_def_line ''admin'',
      Table_create_def_line (''create table http_auth'' @ NL # ''    (username char(25) not null primary key,'' @
        NL # ''     pass char(25),'' @ NL # ''     uid integer not null,'' @ NL # ''     gid integer not null'' @ NL # ''    )''),
      Table_min_rows_def_line ''90000'', Table_data_file_def_line ''words.dat'',
      Table_gen_data_file_def_line ''gen-data -n 90000 -f %12-12s%n,%25-25s,%n,%d'']"

definition word_section :: script_section where
  "word_section = Dict_section ''word''
     [Dict_dict_type_def_line ''rand'', Dict_source_type_def_line ''file'', Dict_source_def_line ''words.dat'',
      Dict_delim_def_line '','', Dict_file_size_equiv_def_line ''45000'']"

definition select_section :: script_section where
  "select_section = Query_section ''select_by_username''
     [Query_query_def_line (''select * from http_auth where username = '' @ SQUOTE # ''$word'' @ [SQUOTE]),
      Query_type_def_line ''select_index'', Query_has_result_set_def_line ''y'', Query_parsed_def_line ''y'']"

definition update_section :: script_section where
  "update_section = Query_section ''update_by_username''
     [Query_query_def_line (''update http_auth set pass='' @ SQUOTE # ''$word'' @ SQUOTE # '' where username = '' @
        SQUOTE # ''$word'' @ [SQUOTE]),
      Query_type_def_line ''update_index'', Query_has_result_set_def_line ''y'', Query_parsed_def_line ''y'']"

definition smacker_section :: "string \<Rightarrow> string \<Rightarrow> script_section" where
  "smacker_section name barrel = Client_section name
     [Client_user_def_line ''test'', Client_pass_def_line '''', Client_host_def_line ''localhost'',
      Client_db_def_line ''test'', Client_socket_def_line ''/tmp/mysql.sock'', Client_query_barrel_def_line barrel]"

text \<open>The lines of a benchmark; \<open>update-select\<close> sets its rounds twice.\<close>

definition benchmark_lines :: "string \<Rightarrow> line list" where
  "benchmark_lines name =
     [Call name ''create_threads'' [Argument ''1''], Call name ''connect'' [], Call name ''unload_query_barrel'' [],
      Call name ''collect_threads'' [], Call name ''disconnect'' []]"

abbreviation main_tokens :: "line list \<Rightarrow> token list" where
  "main_tokens ls \<equiv> [MAIN_SYM, OPEN_SECT_SYM] @ concat (map line_tokens ls) @ [CLOSE_SECT_SYM]"

lemma pieces_program:
  assumes "list_all2 reads_as ps (map section_tokens ss)" "reads_as m (main_tokens ls)" "script_ok ss ls"
  shows "yyparse (concat ps @ m) = (ss, ls, True)"
proof -
  have "lex (concat (ps @ [m])) = concat (map section_tokens ss @ [main_tokens ls])"
    using assms(1,2) by (intro lex_pieces list_all2_appendI) simp_all
  then have "yyparse (concat ps @ m) = p_program (program_tokens ss ls)"
    by (simp add: yyparse_def program_tokens_def)
  with p_program_read [of ls ss] assms(3) show ?thesis by (simp add: script_ok_def)
qed

definition select_key_lines :: "line list" where
  "select_key_lines =
     [Call ''smacker1'' ''init'' [], Call ''smacker1'' ''set_num_rounds'' [Argument ''2'']] @ benchmark_lines ''smacker1''"

definition update_select_lines :: "line list" where
  "update_select_lines =
     [Call ''smacker'' ''init'' [], Call ''smacker'' ''set_num_rounds'' [Argument ''2''],
      Call ''smacker'' ''set_num_rounds'' [Argument ''2'']] @ benchmark_lines ''smacker''"

lemma admin_read: "reads_as (unlines select_key_admin) (section_tokens admin_section)" by code_simp
lemma http_auth_read: "reads_as (unlines select_key_table) (section_tokens http_auth_section)" by code_simp
lemma http_auth_read': "reads_as (unlines update_select_table) (section_tokens http_auth_section)" by code_simp
lemma word_read: "reads_as (unlines select_key_dict) (section_tokens word_section)" by code_simp
lemma word_read': "reads_as (unlines update_select_dict) (section_tokens word_section)" by code_simp
lemma select_read: "reads_as (unlines select_key_query) (section_tokens select_section)" by code_simp
lemma update_read: "reads_as (unlines update_select_update) (section_tokens update_section)" by code_simp
lemma client_read:
  "reads_as (unlines select_key_client) (section_tokens (smacker_section ''smacker1'' ''2 select_by_username''))" by code_simp
lemma client_read':
  "reads_as (unlines update_select_client)
     (section_tokens (smacker_section ''smacker'' ''1 select_by_username 1 update_by_username''))" by code_simp
lemma main_read: "reads_as (unlines select_key_main) (main_tokens select_key_lines)" by code_simp
lemma main_read': "reads_as (unlines update_select_main) (main_tokens update_select_lines)" by code_simp

lemma sections_ok:
  "section_ok admin_section" "section_ok http_auth_section" "section_ok word_section" "section_ok select_section"
  "section_ok update_section"
  by (simp_all add: admin_section_def http_auth_section_def word_section_def select_section_def update_section_def
      body_ok_def NL_def)

lemma smacker_ok: "NUL \<notin> set n \<Longrightarrow> NUL \<notin> set b \<Longrightarrow> section_ok (smacker_section n b)"
  by (simp add: smacker_section_def body_ok_def)

lemma lines_ok: "list_all line_ok select_key_lines" "list_all line_ok update_select_lines"
  by (simp_all add: select_key_lines_def update_select_lines_def benchmark_lines_def ident_ok_def number_ok_def
      keyword_list_def is_letter_def is_ident_def char_class_defs)

lemma select_key_parsed:
  "yyparse select_key =
     ([admin_section, http_auth_section, word_section, select_section,
       smacker_section ''smacker1'' ''2 select_by_username''], select_key_lines, True)"
proof -
  have "script_ok [admin_section, http_auth_section, word_section, select_section,
      smacker_section ''smacker1'' ''2 select_by_username''] select_key_lines"
    using lines_ok(1) by (simp add: script_ok_def sections_ok smacker_ok) (simp add: select_key_lines_def)
  from pieces_program [OF _ main_read this, of "map unlines
      [select_key_admin, select_key_table, select_key_dict, select_key_query, select_key_client]"]
  show ?thesis
    by (simp add: select_key_def admin_read http_auth_read word_read select_read client_read
        del: section_tokens.simps)
qed

lemma update_select_parsed:
  "yyparse update_select =
     ([admin_section, http_auth_section, word_section, select_section, update_section,
       smacker_section ''smacker'' ''1 select_by_username 1 update_by_username''], update_select_lines, True)"
proof -
  have "script_ok [admin_section, http_auth_section, word_section, select_section, update_section,
      smacker_section ''smacker'' ''1 select_by_username 1 update_by_username''] update_select_lines"
    using lines_ok(2) by (simp add: script_ok_def sections_ok smacker_ok) (simp add: update_select_lines_def)
  from pieces_program [OF _ main_read' this, of "map unlines
      [select_key_admin, update_select_table, update_select_dict, select_key_query, update_select_update,
       update_select_client]"]
  show ?thesis
    by (simp add: update_select_def admin_read http_auth_read' word_read' select_read update_read client_read'
        del: section_tokens.simps)
qed


end
