(* ===== verification/Smack_Whole.thy ===== *)
theory Smack_Whole
  imports Smack_Shipped
begin

text \<open>
  The script \<^verbatim>\<open>smacks/select-key.smack\<close> as a whole: from its text through its sections and lines to the
  report on the standard output of the process that collects its threads.
\<close>

section \<open>What its sections define\<close>

definition select_query :: query where
  "select_query = \<lparr>query_text = ''select * from http_auth where username = '' @ SQUOTE # ''$word'' @ [SQUOTE],
     query_name = ''select_by_username'', type_name = ''select_index'', has_result_set = 1, parsed = 1\<rparr>"

definition select_barrel :: query_barrel where
  "select_barrel = add_query_charge select_query 2 new_Query_barrel"

lemma select_barrel_simps:
  "actions select_barrel = [Query_charge select_query 2]"
  "type_reports (qr select_barrel) = [(''select_index'', Some new_qtr)]"
  by (simp_all add: select_barrel_def select_query_def add_query_charge_def new_Query_barrel_def new_Query_report_def
      smap_index_def smap_find_def)

lemma select_barrel_unused: "unused select_barrel"
  unfolding select_barrel_def
  by (intro unused_barrel.charge unused_barrel.empty_barrel) (simp add: short_type_def select_query_def)

lemma select_section_run:
  "run_section db os h sh k select_section (p, w) =
     Inr (p\<lparr>query_pool := smap_put ''select_by_username'' (Some select_query) (query_pool p)\<rparr>, w)"
  by (simp add: run_section_def select_section_def new_Query_def select_query_def yes_def tolower_def isupper_def)

lemma parse_select_barrel:
  assumes "smap_find pool ''select_by_username'' = Some (Some select_query)"
  shows "parse_barrel pool ''2 select_by_username'' = Inr (select_barrel, pool)"
proof -
  have "write_barrel [Shots 2 ''select_by_username''] = ''2 select_by_username''"
    by (simp add: write_barrel_def dec_int_def dec.simps digit_char_def char_of_def bit_iff_odd)
  with barrel_written [of "[Shots 2 ''select_by_username'']" pool] assms show ?thesis
    by (simp add: INT_MAX_def word_ok_def select_barrel_def)
qed

abbreviation smacker1 :: "dict option smap \<Rightarrow> client" where
  "smacker1 ds \<equiv> new_Client\<lparr>cl_name := ''smacker1'', cl_user := ''test'', cl_pass := '''', cl_db := ''test'',
     cl_host := ''localhost'', cl_socket := ''/tmp/mysql.sock'', cl_port := '''', qb := Some select_barrel,
     dictionaries := Some ds\<rparr>"

lemma smacker_section_run:
  assumes "smap_find (query_pool p) ''select_by_username'' = Some (Some select_query)"
  shows "run_section db os h sh (Some k) (smacker_section ''smacker1'' ''2 select_by_username'') (p, w) =
     Inr (p\<lparr>client_pool := smap_put ''smacker1'' (Some (smacker1 (dict_pool p))) (client_pool p)\<rparr>, w)"
  using assms
  by (simp add: run_section_def smacker_section_def parse_select_barrel make_client_def new_Client_def_def
      set_query_barrel_def set_dictionary_pool_def new_Client_def)

lemma smacker1_fresh: "fresh (smacker1 ds) select_barrel"
  using select_barrel_unused
  by (rule unused_fresh) (simp_all add: new_Client_def select_barrel_simps MAX_REPORT_LEN_def)

lemma validate_table_ok:
  "validate_table db os sh td n (pool, w) = Inr (pool', w') \<Longrightarrow> smap_ok pool \<Longrightarrow> smap_ok pool'"
  by (cases "smap_index (td_client td) pool" rule: prod.exhaust)
     (auto simp: validate_table_def resultE_simps smap_index_def sm.invar_put Let_def split: option.splits prod.splits)

lemma table_section_keeps:
  assumes "run_section db os h sh k (Table_section n ls) (p, w) = Inr (p', w')" "smap_ok (client_pool p)"
  shows "smap_ok (client_pool p') \<and> query_pool p' = query_pool p \<and> current_client p' = current_client p \<and>
    stdout p' = stdout p"
proof -
  from assms(1) obtain pool where "validate_table db os sh (fold update_table_def ls new_Table_def) n
      (client_pool p, w) = Inr (pool, w')" "p' = p\<lparr>client_pool := pool\<rparr>"
    by (auto simp: run_section_def mapR_eq_Inr)
  with validate_table_ok assms(2) show ?thesis by fastforce
qed

lemma other_sections:
  assumes "run_section db os h sh (Some k) s (p, w) = Inr (p', w')" "s \<in> {admin_section, http_auth_section, word_section}"
    and "smap_ok (client_pool p)"
  shows "smap_ok (client_pool p') \<and> query_pool p' = query_pool p \<and> current_client p' = current_client p \<and>
    stdout p' = stdout p"
proof (cases "s = http_auth_section")
  case True
  with table_section_keeps assms(1,3) show ?thesis by (simp add: http_auth_section_def)
next
  case False
  with assms show ?thesis
    by (auto simp: run_section_def admin_section_def word_section_def make_client_def sm.invar_put mapR_eq_Inr)
qed

lemma sections_define:
  assumes "foldR (run_section db os h sh (Some k))
      [admin_section, http_auth_section, word_section, select_section,
       smacker_section ''smacker1'' ''2 select_by_username''] (new_process, v) = Inr (p, w)"
  shows "smap_find (client_pool p) ''smacker1'' = Some (Some (smacker1 (dict_pool p)))" "smap_ok (client_pool p)"
    "current_client p = ''main''" "stdout p = []"
proof -
  from assms obtain p1 w1 p2 w2 p3 w3 where
    1: "run_section db os h sh (Some k) admin_section (new_process, v) = Inr (p1, w1)"
    and 2: "run_section db os h sh (Some k) http_auth_section (p1, w1) = Inr (p2, w2)"
    and 3: "run_section db os h sh (Some k) word_section (p2, w2) = Inr (p3, w3)"
    and 4: "run_section db os h sh (Some k) (smacker_section ''smacker1'' ''2 select_by_username'')
      (p3\<lparr>query_pool := smap_put ''select_by_username'' (Some select_query) (query_pool p3)\<rparr>, w3) = Inr (p, w)"
    by (auto simp: bindR_eq_Inr select_section_run)
  have new: "smap_ok (client_pool new_process)" "query_pool new_process = []" "current_client new_process = ''main''"
      "stdout new_process = []"
    by (simp_all add: new_process_def smap_ok_def)
  note p3 = other_sections [OF 1 _ new(1)] other_sections [OF 2] other_sections [OF 3]
  have "smap_find (smap_put ''select_by_username'' (Some select_query) (query_pool p3)) ''select_by_username'' =
      Some (Some select_query)"
    using p3 new by (simp add: smap_find_def)
  with 4 have "p = p3\<lparr>query_pool := smap_put ''select_by_username'' (Some select_query) (query_pool p3),
      client_pool := smap_put ''smacker1'' (Some (smacker1 (dict_pool p3))) (client_pool p3)\<rparr>"
    by (simp add: smacker_section_run)
  with p3 new show "smap_find (client_pool p) ''smacker1'' = Some (Some (smacker1 (dict_pool p)))"
      "smap_ok (client_pool p)" "current_client p = ''main''" "stdout p = []"
    by (simp_all add: sm.find_put_same sm.invar_put)
qed

section \<open>What the report shows\<close>

lemma report_lines_show:
  "report_lines pr sz m = Inr s \<Longrightarrow> (k, Some r) \<in> set m \<Longrightarrow>
   \<exists>a line b. pr r = Inr line \<and> s = a @ k @ [TAB] @ line @ b"
proof (induction m arbitrary: s)
  case (Cons x m)
  from Cons.prems(1) obtain k' r' line s' where x: "x = (k', Some r')" "pr r' = Inr line"
      "report_lines pr sz m = Inr s'" "s = k' @ [TAB] @ line @ s'"
    by (cases x) (auto simp: resultE_simps split: option.splits)
  show ?case
  proof (cases "x = (k, Some r)")
    case True
    with x have "pr r = Inr line" "s = [] @ k @ [TAB] @ line @ s'" by simp_all
    then show ?thesis by blast
  next
    case False
    with Cons x obtain a l b where "pr r = Inr l" "s' = a @ k @ [TAB] @ l @ b" by auto
    with x(4) have "pr r = Inr l \<and> s = (k' @ [TAB] @ line @ a) @ k @ [TAB] @ l @ b" by simp
    then show ?thesis by blast
  qed
qed simp

lemma report_shows:
  assumes "print_barrel_report c = Inr s" "count k c \<noteq> 0"
  shows "\<exists>a b. s = a @ k @ [TAB] @ dec_int (count k c) @ [TAB] @ b"
proof -
  from assms(2) obtain q r where q: "qb c = Some q" "smap_find (type_reports (qr q)) k = Some (Some r)"
      "count k c = num_queries r"
    by (auto simp: count_def rep_def smap_find_def split: option.splits)
  then have "(k, Some r) \<in> set (type_reports (qr q))" by (auto simp: smap_find_def dest: map_of_SomeD)
  from assms(1) q(1) obtain pr sz t h where t: "report_lines (qtr_print (fst pr) (snd pr)) sz (type_reports (qr q)) = Inr t"
      "s = h @ t"
    by (fastforce simp: print_barrel_report_def report_print_def mapR_eq_Inr)
  from report_lines_show [OF t(1) \<open>(k, Some r) \<in> _\<close>] obtain a line b where
    l: "qtr_print (fst pr) (snd pr) r = Inr line" "t = a @ k @ [TAB] @ line @ b" by blast
  then obtain x where "line = dec_int (num_queries r) @ [TAB] @ x" by (auto simp: qtr_print_def mapR_eq_Inr)
  with l(2) t(2) q(3) have "s = (h @ a) @ k @ [TAB] @ dec_int (count k c) @ [TAB] @ (x @ b)" by simp
  then show ?thesis by blast
qed

section \<open>The whole script\<close>

lemma say_store: "store_client n c (say s p) = say s (store_client n c p)"
  by (simp add: store_client_def say_def split: option.split)

lemma disconnect_line:
  assumes "smap_ok (client_pool p)" "current_client p = n" "disconnect db c w = (c', w')"
  shows "exec_line db os argv (Call n ''disconnect'' []) (say s (store_client n c p), w) =
    Some (Inr (say s (store_client n c' (store_client n c p)), w'))"
proof -
  let ?p = "store_client n c p"
  have 1: "smap_find (client_pool (say s ?p)) n = Some (Some c)" "current_client (say s ?p) = n"
    using store_client_find [OF assms(1)] assms(2) by (simp_all add: say_def)
  have 2: "load_client (say s ?p) c = c"
    using load_store [of n c p] by (simp add: load_client_def say_def split: option.splits)
  from exec_own_line [OF 1, of argv "[]" "[]" "''disconnect''" db os w] show ?thesis
    by (simp add: execute_method_def on_client_def 2 assms(3) say_store)
qed

lemma rounds_argument:
  "2 < length argv \<Longrightarrow> eval argv p (Argument ''2'') = Inr (val_set_string (argv ! 2) new_Val)"
proof -
  have "atoi (c_str ''2'') = 2"
    using atoi_dec_int [of 2] c_str_id [of "dec_int 2"] dec_int_word [of 2]
    by (simp add: word_ok_def int_range_defs dec_int_def dec.simps digit_char_def char_of_def bit_iff_odd)
  then show "2 < length argv \<Longrightarrow> ?thesis" by simp
qed

lemma select_key_slices:
  "take 3 select_key_lines = [Call ''smacker1'' ''init'' [], Call ''smacker1'' ''set_num_rounds'' [Argument ''2''],
      Call ''smacker1'' ''create_threads'' [Argument ''1'']]"
  "take 2 (drop 3 select_key_lines) = [Call ''smacker1'' ''connect'' [], Call ''smacker1'' ''unload_query_barrel'' []]"
  "select_key_lines = (take 3 select_key_lines @ take 2 (drop 3 select_key_lines)) @
      [Call ''smacker1'' ''collect_threads'' [], Call ''smacker1'' ''disconnect'' []]"
  by (simp_all add: select_key_lines_def benchmark_lines_def)

text \<open>The rounds and the report, with the processes as the lines leave them.\<close>

lemma select_key_counts:
  fixes argv
  defines "n \<equiv> atoi (c_str (argv ! 2))"
  assumes p: "smap_find (client_pool p) ''smacker1'' = Some (Some (smacker1 (dict_pool p)))" "smap_ok (client_pool p)"
      "current_client p = ''main''"
    and args: "2 < length argv" "0 < n"
    and start: "exec_lines db os argv (take 3 select_key_lines) (p, w) = Some (Inr (p0, w0))"
      "current_client p0 = ''smacker1''" "smap_find (client_pool p0) ''smacker1'' = Some (Some c0)" "parent_thread c0 \<noteq> 0"
    and run: "exec_lines db os argv (take 2 (drop 3 select_key_lines)) (p0, w0) = Some (Inr (p1, w1))"
      "smap_find (client_pool p1) ''smacker1'' = Some (Some c1)" "0 \<le> connect_time c1"
    and kids: "\<forall>d \<in> set cs. 0 \<le> connect_time d \<and>
        (\<exists>db os v v'. smack_run db os (child_copy (load_client p0 c0), v) = Inr (d, v' :: 'v))"
    and room: "int (length cs) < INT_MAX" "connect_time c1 + sum_list (map connect_time cs) \<le> INT_MAX"
      "(1 + int (length cs)) * (n * 2) \<le> INT_MAX"
    and calls: "parent_calls os (fst (report_pipe c0)) children stream intr"
      "children w1 = length cs" "stream w1 = concat (map message cs)"
  shows "\<exists>c2 w2. exec_lines db os argv [Call ''smacker1'' ''collect_threads'' []] (p1, w1) =
      Some (mapR (\<lambda>report. (say (''Query Barrel Report for client '' @ ''smacker1'' @ [NL] @ print_connect_times c2 @ report)
         (store_client ''smacker1'' c2 p1), w2)) (print_barrel_report c2))
    \<and> num_reported_clients c2 = 1 + int (length cs)
    \<and> count ''select_index'' c2 = (1 + int (length cs)) * (n * 2)
    \<and> smap_ok (client_pool p1) \<and> current_client p1 = ''smacker1''"
proof -
  let ?v = "val_set_string (argv ! 2) new_Val" and ?b = "select_barrel\<lparr>num_rounds := n\<rparr>"
  have n: "atoi (c_str (strval ?v)) = n" by (simp add: val_set_string_def n_def)
  obtain p3 w3 c3 where c: "smap_find (client_pool p3) ''smacker1'' = Some (Some c3)" "current_client p3 = ''smacker1''"
      "smap_ok (client_pool p3)" "fresh c3 ?b"
      "exec_line db os argv (Call ''smacker1'' ''create_threads'' [Argument ''1'']) (p3, w3) = Some (Inr (p0, w0))"
    using started_lines [OF p(1,2) smacker1_fresh p(3) _ rounds_argument [OF args(1)]
        start(1) [unfolded select_key_slices(1)] start(2)] n by auto
  have shots: "max 0 (num_rounds ?b) * shots_all k (actions ?b) = n * (if k = ''select_index'' then 2 else 0)" for k
    using args(2) by (simp add: shots_all_def select_barrel_simps select_query_def)
  have "\<forall>k. (1 + int (length cs)) * (n * (if k = ''select_index'' then 2 else 0)) \<le> INT_MAX"
    using room(3) by (simp add: INT_MAX_def)
  note script_counts [OF c start(3,4) run(1) [unfolded select_key_slices(2)] run(2,3) kids room(1,2) _ calls,
      unfolded shots, OF this]
  moreover have p0: "smap_ok (client_pool p0)"
    using create_threads_line [OF c start(3,4)] c(3) by (auto simp: store_client_ok)
  then have "smap_ok (client_pool p1) \<and> current_client p1 = ''smacker1''"
    using connect_unload_lines [OF start(3,2) p0 run(1) [unfolded select_key_slices(2)]] start(2)
    by (auto simp: store_client_ok)
  ultimately show ?thesis by fastforce
qed

text \<open>The last two lines.\<close>

lemma collect_disconnect:
  assumes "smap_ok (client_pool p)" "current_client p = n"
    and "exec_lines db os argv [Call n ''collect_threads'' []] (p, w) =
      Some (mapR (\<lambda>report. (say (f report) (store_client n c p), w2)) r)"
  shows "\<exists>p' w'. exec_lines db os argv [Call n ''collect_threads'' [], Call n ''disconnect'' []] (p, w) =
    Some (mapR (\<lambda>report. (say (f report) p', w')) r)"
proof -
  obtain c' w' where d: "disconnect db c w2 = (c', w')" by fastforce
  have "exec_line db os argv (Call n ''collect_threads'' []) (p, w) =
      Some (mapR (\<lambda>report. (say (f report) (store_client n c p), w2)) r)"
    using assms(3) by (auto split: option.splits sum.splits)
  with disconnect_line [OF assms(1,2) d] show ?thesis by (cases r) auto
qed

text \<open>
  C1: running \<open>smacks/select-key.smack\<close> prints the number of queries that were sent.  The sections of the script
  are accepted, its first lines fork the process of the client and its children with the rounds of the second
  argument, all of them connect and unload the barrel, and the reports of the children reach the pipe.  Then
  parsing the script to its end, which is what the process does, prints a report: it is from as many clients as
  there are processes, and the line of the query type \<open>select_index\<close> shows processes times rounds times 2.
\<close>

theorem select_key_benchmark:
  fixes argv
  defines "n \<equiv> atoi (c_str (argv ! 2))"
  assumes args: "2 < length argv" "0 < n"
    and sections: "foldR (run_section db os h sh (Some k)) (fst (yyparse select_key)) (new_process, v) = Inr (p, w)"
    and start: "exec_lines db os argv (take 3 select_key_lines) (p, w) = Some (Inr (p0, w0))"
      "current_client p0 = ''smacker1''" "smap_find (client_pool p0) ''smacker1'' = Some (Some c0)" "parent_thread c0 \<noteq> 0"
    and run: "exec_lines db os argv (take 2 (drop 3 select_key_lines)) (p0, w0) = Some (Inr (p1, w1))"
      "smap_find (client_pool p1) ''smacker1'' = Some (Some c1)" "0 \<le> connect_time c1"
    and kids: "\<forall>d \<in> set cs. 0 \<le> connect_time d \<and>
        (\<exists>db os v v'. smack_run db os (child_copy (load_client p0 c0), v) = Inr (d, v' :: 'v))"
    and room: "int (length cs) < INT_MAX" "connect_time c1 + sum_list (map connect_time cs) \<le> INT_MAX"
      "(1 + int (length cs)) * (n * 2) \<le> INT_MAX"
    and calls: "parent_calls os (fst (report_pipe c0)) children stream intr"
      "children w1 = length cs" "stream w1 = concat (map message cs)"
  shows "\<exists>c p' w'. do_parse db os h sh (Some k) argv select_key (new_process, v) =
      Some (mapR (\<lambda>report. (say (''Query Barrel Report for client smacker1'' @ [NL] @ print_connect_times c @ report) p', w'))
        (print_barrel_report c))
    \<and> num_reported_clients c = 1 + int (length cs)
    \<and> (\<forall>report. print_barrel_report c = Inr report \<longrightarrow>
        (\<exists>a b. report = a @ ''select_index'' @ [TAB] @ dec_int ((1 + int (length cs)) * (n * 2)) @ [TAB] @ b))"
proof -
  note p = sections_define [OF sections [unfolded select_key_parsed fst_conv]]
  from select_key_counts [OF p(1-3) args [unfolded n_def] start run kids room [unfolded n_def] calls]
  obtain c2 w2 where c2: "exec_lines db os argv [Call ''smacker1'' ''collect_threads'' []] (p1, w1) =
      Some (mapR (\<lambda>report. (say (''Query Barrel Report for client '' @ ''smacker1'' @ [NL] @ print_connect_times c2 @ report)
         (store_client ''smacker1'' c2 p1), w2)) (print_barrel_report c2))"
      "num_reported_clients c2 = 1 + int (length cs)" "count ''select_index'' c2 = (1 + int (length cs)) * (n * 2)"
    and p1: "smap_ok (client_pool p1)" "current_client p1 = ''smacker1''"
    unfolding n_def by blast
  from collect_disconnect [OF p1 c2(1)] obtain p' w' where
    "exec_lines db os argv select_key_lines (p, w) = Some (mapR (\<lambda>report. (say (''Query Barrel Report for client '' @
      ''smacker1'' @ [NL] @ print_connect_times c2 @ report) p', w')) (print_barrel_report c2))"
    using exec_lines_append [OF exec_lines_append [OF start(1) run(1)]] by (metis select_key_slices(3))
  then have "do_parse db os h sh (Some k) argv select_key (new_process, v) =
      Some (mapR (\<lambda>report. (say (''Query Barrel Report for client smacker1'' @ [NL] @ print_connect_times c2 @ report) p', w'))
        (print_barrel_report c2))"
    using sections by (cases "print_barrel_report c2") (simp_all add: do_parse_def select_key_parsed)
  moreover have "\<exists>a b. report = a @ ''select_index'' @ [TAB] @ dec_int ((1 + int (length cs)) * (n * 2)) @ [TAB] @ b"
    if "print_barrel_report c2 = Inr report" for report
    using report_shows [OF that, of "''select_index''"] args(2) c2(3) by simp
  ultimately show ?thesis using c2(2) by blast
qed

section \<open>A run\<close>

text \<open>A server that has the table, and a file with one word.\<close>

definition key_db :: "(nat \<times> string \<times> nat) db_class" where
  "key_db = idle_db\<lparr>get_table_info := \<lambda>t w. Inr ((0, 90000), w)\<rparr>"

definition key_words :: "dict option smap" where
  "key_words = [(''word'', Some (Rand_dictionary
     (new_Rand_dictionary\<lparr>file_size_equiv := 45000, delim := CHR '','', words := [''cat''], dict_name := ''word''\<rparr>)))]"

definition key_host :: host where
  "key_host = example_host (''cat,1'' @ [NL])"

lemma key_query:
  "parse_query (db_expander key_db (fork_os m)) MAX_QUERY (query_text select_query) (Some key_words) w =
     Inr (''select * from http_auth where username = '' @ SQUOTE # ''cat'' @ [SQUOTE], Some key_words, w)"
proof -
  let ?x = "db_expander key_db (fork_os m)"
  have x: "x_escape ?x = escape_string" "x_extra ?x = 0" "x_rand ?x = (\<lambda>w. (0, w))"
    by (simp_all add: db_expander_def key_db_def idle_db_def fork_os_def family_os_def)
  have "expand_ref (\<lambda>w. (0, w)) escape_string (c_str (query_text select_query)) (Some key_words) w =
      Inr (''select * from http_auth where username = '' @ SQUOTE # ''cat'' @ [SQUOTE], Some key_words, w)"
    by (simp add: select_query_def expand_ref.simps(2) c_str_def is_ident_def char_class_defs MAX_VAR_BUF_def var_word_def
      key_words_def smap_index_def smap_find_def next_word_def rand_next_word_def)
  with client_esc.parse_query_expand [OF x(1,2), where q = "query_text select_query" and ds = "Some key_words" and g = w
      and n = MAX_QUERY]
  show ?thesis by (simp add: x MAX_QUERY_def c_str_def)
qed

lemma key_charge:
  "dictionaries c = Some key_words \<Longrightarrow> run_charge key_db (fork_os m) select_query (c, w) = Inr (c, w)"
  using key_query by (simp add: run_charge_def safe_parsed_query_def select_query_def key_db_def idle_db_def)

lemma key_connect:
  assumes "num_reported_clients c = 0" "total_connect_time c = 0"
  shows "\<exists>c1. connect key_db (fork_os m) (c, w) = Inr (c1, w) \<and> qb c1 = qb c \<and> dictionaries c1 = dictionaries c
    \<and> connect_time c1 = 0"
proof -
  have ms: "elapsed_ms (Timeval 0 0) (Timeval 0 0) = 0" by (simp add: elapsed_ms_def int_range_defs)
  show ?thesis
    using assms
    by (auto simp: connect_def fork_os_simps key_db_def idle_db_def ms int_range_defs chk_def Let_def)
qed

lemma key_unload:
  assumes "qb c = Some b" "actions b = [Query_charge select_query 2]" "num_rounds b = 1"
    and "type_reports (qr b) = [(''select_index'', Some new_qtr)]" "dictionaries c = Some key_words"
  shows "\<exists>d. unload_query_barrel key_db (fork_os m) (c, w) = Inr (d, w)"
  using assms
  by (simp add: unload_query_barrel_def numeral_2_eq_2 fire_def fire_shot_def fork_os_simps key_charge
      select_query_def [THEN arg_cong, of type_name]
      update_report_def report_update_def smap_index_def smap_find_def qtr_update_def new_qtr_def
      chk_def int_range_defs c_str_def elapsed_ms_def)

lemma key_smack_run:
  assumes "qb c = Some b" "barrel_ok b" "actions b = [Query_charge select_query 2]" "num_rounds b = 1"
    and "type_reports (qr b) = [(''select_index'', Some new_qtr)]" "dictionaries c = Some key_words"
    and "num_reported_clients c = 0" "total_connect_time c = 0"
  shows "\<exists>d. smack_run key_db (fork_os m) (c, w) = Inr (d, w) \<and> connect_time d = 0"
proof -
  from key_connect [OF assms(7,8)] obtain c1 where
    c1: "connect key_db (fork_os m) (c, w) = Inr (c1, w)" "qb c1 = Some b" "dictionaries c1 = Some key_words"
      "connect_time c1 = 0" using assms(1,6) by metis
  from key_unload [OF c1(2) assms(3-5) c1(3)] obtain d where
    d: "unload_query_barrel key_db (fork_os m) (c1, w) = Inr (d, w)" by blast
  with unload_worked [OF c1(2) assms(2), of key_db "fork_os m" w] c1(4) have "connect_time d = 0"
    by (auto simp: worked_def)
  with c1(1) d show ?thesis by (auto simp: smack_run_def)
qed

lemma key_numbers:
  "atoi (c_str ''1'') = 1" "atoi (c_str ''3'') = 3" "atoi (c_str ''45000'') = 45000" "atoi (c_str ''90000'') = 90000"
proof -
  have "dec_int 1 = ''1''" "dec_int 3 = ''3''" "dec_int 45000 = ''45000''" "dec_int 90000 = ''90000''"
    by (simp_all add: dec_int_def dec.simps digit_char_def char_of_def bit_iff_odd)
  moreover have "atoi (c_str (dec_int n)) = n" if "n \<in> {1, 3, 45000, 90000}" for n
    using that atoi_dec_int [of n] c_str_id [of "dec_int n"] dec_int_word [of n] by (auto simp: word_ok_def int_range_defs)
  ultimately show "atoi (c_str ''1'') = 1" "atoi (c_str ''3'') = 3"
      "atoi (c_str ''45000'') = 45000" "atoi (c_str ''90000'') = 90000"
    by (metis insertCI)+
qed

lemma key_admin:
  "\<exists>c. run_section key_db (fork_os m) key_host sh (Some k) admin_section (p, w) =
      Inr (p\<lparr>client_pool := smap_put ''admin'' (Some c) (client_pool p)\<rparr>, w)
    \<and> num_reported_clients c = 0 \<and> total_connect_time c = 0"
  by (simp add: run_section_def admin_section_def make_client_def set_dictionary_pool_def new_Client_def_def new_Client_def)
     (intro exI conjI, rule refl, simp_all)

lemma key_table:
  assumes "smap_find (client_pool p) ''admin'' = Some (Some c)" "num_reported_clients c = 0" "total_connect_time c = 0"
  shows "\<exists>pool. run_section key_db (fork_os m) key_host sh (Some k) http_auth_section (p, w) =
      Inr (p\<lparr>client_pool := pool\<rparr>, w)"
proof -
  from key_connect [OF assms(2,3)] obtain c1 where c1: "connect key_db (fork_os m) (c, w) = Inr (c1, w)" by blast
  have i: "get_table_info key_db t w = Inr ((0, 90000), w)" "disconnect key_db c w = (c, w)" for t c
    by (simp_all add: key_db_def idle_db_def)
  have "\<exists>pool. validate_table key_db (fork_os m) sh td t (client_pool p, w) = Inr (pool, w)"
    if "td_client td = ''admin''" "td_min_rows td = ''90000''" for td t
    using validate_table_decides [OF _ c1 i(1), of "client_pool p" td sh t] assms(1)
    unfolding that key_numbers by (simp add: i(2))
  then obtain pool where "validate_table key_db (fork_os m) sh (fold update_table_def
      (case http_auth_section of Table_section n ls \<Rightarrow> ls) new_Table_def) ''http_auth'' (client_pool p, w) = Inr (pool, w)"
    by (fastforce simp: http_auth_section_def)
  then show ?thesis by (intro exI [of _ pool]) (simp add: run_section_def http_auth_section_def)
qed

lemma key_word:
  "run_section key_db (fork_os m) key_host sh (Some k) word_section (p, w) =
     Inr (p\<lparr>dict_pool := smap_put ''word'' (snd (hd key_words)) (dict_pool p)\<rparr>, w)"
proof -
  have "load_file key_host ''words.dat'' (new_Rand_dictionary\<lparr>file_size_equiv := 45000, delim := CHR '','' \<rparr>) =
      Inr (0, new_Rand_dictionary\<lparr>file_size_equiv := 45000, delim := CHR '','', words := [''cat'']\<rparr>)" by code_simp
  moreover have "c_str ''words.dat'' = ''words.dat''" by code_simp
  ultimately show ?thesis
    by (simp add: key_numbers run_section_def word_section_def make_dict_def fill_dict_def new_Dict_def_def key_words_def)
qed

lemma key_sections:
  "\<exists>p. foldR (run_section key_db (fork_os m) key_host sh (Some k)) (fst (yyparse select_key)) (new_process, w) = Inr (p, w)
     \<and> dict_pool p = key_words"
proof -
  let ?run = "run_section key_db (fork_os m) key_host sh (Some k)"
  obtain q c where q: "?run admin_section (new_process, w) = Inr (q, w)" "smap_find (client_pool q) ''admin'' = Some (Some c)"
      "query_pool q = []" "dict_pool q = []" and c: "num_reported_clients c = 0" "total_connect_time c = 0"
    using key_admin [of m sh k new_process w] by (auto simp: new_process_def smap_find_def)
  obtain pool where "?run http_auth_section (q, w) = Inr (q\<lparr>client_pool := pool\<rparr>, w)"
    using key_table [OF q(2) c, of m sh k w] by (rule exE)
  with q show ?thesis
    by (simp add: select_key_parsed key_word select_section_run smacker_section_run smap_find_def) (simp add: key_words_def)
qed

text \<open>The first line of its main section forks one process, the third two more: three times one round.\<close>

definition key_started :: client where
  "key_started = started (new_process\<lparr>dict_pool := key_words\<rparr>) 1 (smacker1 key_words)"

lemma key_started: "dict_pool p = key_words \<Longrightarrow> started p 1 (smacker1 key_words) = key_started"
  by (simp add: key_started_def started_def load_client_def)

lemma key_started_run:
  assumes "c \<in> {key_started, child_copy key_started}"
  shows "\<exists>d. smack_run key_db (fork_os m) (c, w) = Inr (d, w) \<and> connect_time d = 0"
proof (rule key_smack_run)
  let ?b = "restarted (Timeval 0 0) (select_barrel\<lparr>num_rounds := 1\<rparr>)"
  show "barrel_ok ?b" "actions ?b = [Query_charge select_query 2]" "num_rounds ?b = 1"
      "type_reports (qr ?b) = [(''select_index'', Some new_qtr)]"
    using select_barrel_unused select_barrel_simps
    by (simp_all add: unused_def barrel_ok_def typed_def report_start_clock_def)
  show "qb c = Some ?b" "dictionaries c = Some key_words" "num_reported_clients c = 0" "total_connect_time c = 0"
    using assms by (auto simp: key_started_def started_def load_client_def child_copy_def new_Client_def)
qed

theorem select_key_benchmark_witness:
  "\<forall>sh. \<exists>m c p' w'. do_parse key_db (fork_os m) key_host sh (Some ()) [''select-key.smack'', ''3'', ''1''] select_key
      (new_process, (0, [], 1)) = Some (mapR (\<lambda>report. (say (''Query Barrel Report for client smacker1'' @ [NL] @
        print_connect_times c @ report) p', w')) (print_barrel_report c))
    \<and> num_reported_clients c = 3
    \<and> (\<forall>report. print_barrel_report c = Inr report \<longrightarrow>
        (\<exists>a b. report = a @ ''select_index'' @ [TAB] @ ''6'' @ [TAB] @ b))"
proof
  fix sh :: "(nat \<times> string \<times> nat) shell"
  let ?argv = "[''select-key.smack'', ''3'', ''1'']" and ?w = "(0, [], 1) :: nat \<times> string \<times> nat"
  have six: "dec_int 6 = ''6''" by (simp add: dec_int_def dec.simps digit_char_def char_of_def bit_iff_odd)
  have three: "eval ?argv p (Argument ''1'') = Inr (val_set_string ''3'' new_Val)" for p
    by (simp add: key_numbers)
  obtain d where d: "smack_run key_db (fork_os []) (child_copy key_started, ?w) = Inr (d, ?w)" "connect_time d = 0"
    using key_started_run by blast
  let ?m = "message d" and ?v = "(2, message d @ message d, 0) :: nat \<times> string \<times> nat"
  obtain p where p: "foldR (run_section key_db (fork_os ?m) key_host sh (Some ())) (fst (yyparse select_key))
      (new_process, ?w) = Inr (p, ?w)" "dict_pool p = key_words"
    using key_sections [of ?m sh "()" ?w] by blast
  note defined = sections_define [OF p(1) [unfolded select_key_parsed fst_conv], unfolded p(2)]
  have c: "qb (smacker1 key_words) = Some select_barrel" "parent_thread (smacker1 key_words) = 1"
      "running_threads (smacker1 key_words) = 1" by (simp_all add: new_Client_def)
  from fork_start [OF defined(1-3) c rounds_argument three, of key_db ?m] obtain q where
    q: "exec_lines key_db (fork_os ?m) ?argv (take 3 select_key_lines) (p, ?w) =
        Some (Inr (store_client ''smacker1'' key_started q, ?v))" "current_client q = ''smacker1''" "smap_ok (client_pool q)"
    by (auto simp: val_set_string_def key_numbers key_started [OF p(2)] select_key_slices(1))
  let ?p0 = "store_client ''smacker1'' key_started q"
  have p0: "current_client ?p0 = ''smacker1''" "smap_find (client_pool ?p0) ''smacker1'' = Some (Some key_started)"
      "parent_thread key_started \<noteq> 0"
    using q(2,3) by (simp_all add: store_client_find key_started_def started_def)
  obtain c1 where c1: "smack_run key_db (fork_os ?m) (key_started, ?v) = Inr (c1, ?v)" "connect_time c1 = 0"
    using key_started_run by blast
  from smack_lines [OF this(1) q(3,2), of ?argv] obtain p1 where p1: "exec_lines key_db (fork_os ?m) ?argv
      (take 2 (drop 3 select_key_lines)) (?p0, ?v) = Some (Inr (p1, ?v))"
      "smap_find (client_pool p1) ''smacker1'' = Some (Some c1)" unfolding select_key_slices(2) by blast
  have kids: "\<forall>e \<in> set [d, d]. 0 \<le> connect_time e \<and> (\<exists>db os v v'.
      smack_run db os (child_copy (load_client ?p0 key_started), v) = Inr (e, v' :: nat \<times> string \<times> nat))"
    unfolding load_store using d by (auto simp del: split_paired_Ex)
  show "\<exists>m c p' w'. do_parse key_db (fork_os m) key_host sh (Some ()) ?argv select_key
      (new_process, ?w) = Some (mapR (\<lambda>report. (say (''Query Barrel Report for client smacker1'' @ [NL] @
        print_connect_times c @ report) p', w')) (print_barrel_report c))
    \<and> num_reported_clients c = 3
    \<and> (\<forall>report. print_barrel_report c = Inr report \<longrightarrow>
        (\<exists>a b. report = a @ ''select_index'' @ [TAB] @ ''6'' @ [TAB] @ b))"
    using select_key_benchmark [OF _ _ p(1) q(1) p0 p1 _ kids _ _ _ fork_os_calls] c1(2) d(2)
    by (force simp: key_numbers six INT_MAX_def)
qed

end
