(* ===== verification/Smack_Values.thy ===== *)
theory Smack_Values
  imports Smack_Script_Proofs
begin

text \<open>
  The memory of values: the actions of \<open>expr\<close>, \<open>simple_expr\<close> and \<open>assign_line\<close> in \<^verbatim>\<open>src/super-smack-yacc.yy\<close> on
  cells of memory that are allocated and deleted, where \<open>eval\<close> and \<open>assign\<close> of \<open>Smack_Script\<close> work on values.
  The flag \<open>delete_me_not\<close> is what keeps the cell of a variable; the constructors of \<open>Val\<close> with an argument
  (\<^verbatim>\<open>src/val.h\<close>) leave it as the memory happens to be.
\<close>

section \<open>Cells\<close>

text \<open>A cell that is \<open>None\<close> below \<open>brk\<close> has been deleted.\<close>

record heap =
  cell :: "nat \<Rightarrow> val option"
  brk :: nat

definition new_cell :: "val \<Rightarrow> heap \<Rightarrow> nat \<times> heap" where
  "new_cell v h = (brk h, h\<lparr>cell := (cell h)(brk h \<mapsto> v), brk := brk h + 1\<rparr>)"

definition deref :: "nat \<Rightarrow> heap \<Rightarrow> val result" where
  "deref a h = (case cell h a of None \<Rightarrow> undef Use_after_free | Some v \<Rightarrow> Inr v)"

definition delete_cell :: "nat \<Rightarrow> heap \<Rightarrow> heap result" where
  "delete_cell a h = mapR (\<lambda>_. h\<lparr>cell := (cell h)(a := None)\<rparr>) (deref a h)"

section \<open>The actions\<close>

text \<open>
  \<open>junk\<close> is the flag that a new cell finds in its memory.  \<open>vars\<close> is \<open>var_hash\<close>, with pointers to cells and NULL as
  \<open>None\<close>; \<open>pool\<close> is the pool of clients.
\<close>

definition new_Val_with :: "(nat \<Rightarrow> bool) \<Rightarrow> val \<Rightarrow> heap \<Rightarrow> nat \<times> heap" where
  "new_Val_with junk v h = new_cell (v\<lparr>delete_me_not := junk (brk h)\<rparr>) h"

definition delete_unless_kept :: "nat \<Rightarrow> heap \<Rightarrow> heap result" where
  "delete_unless_kept a h = bindR (deref a h) (\<lambda>v. if \<not> delete_me_not v then delete_cell a h else Inr h)"

definition concat_action :: "nat \<Rightarrow> nat \<Rightarrow> heap \<Rightarrow> (nat \<times> heap) result" where
  "concat_action a b h =
     bindR (deref a h) (\<lambda>x.
     bindR (deref b h) (\<lambda>y.
     let (c, h) = new_cell (val_concat y x) h in
     bindR (delete_unless_kept a h) (\<lambda>h.
     mapR (Pair c) (delete_unless_kept b h))))"

fun eval_mem :: "(nat \<Rightarrow> bool) \<Rightarrow> string list \<Rightarrow> client option smap \<Rightarrow> nat option smap \<Rightarrow> expr \<Rightarrow> heap \<Rightarrow>
    (nat \<times> heap) result" where
  "eval_mem junk argv pool vars (Number s) h = Inr (new_Val_with junk (val_set_string s new_Val) h)"
| "eval_mem junk argv pool vars (Str s) h = Inr (new_Val_with junk (val_set_string s new_Val) h)"
| "eval_mem junk argv pool vars (Argument s) h =
     (let n = atoi (c_str s)
      in if n \<ge> int (length argv) then die (Argument_missing n (int (length argv) - 1))
         else if n < 0 then undef Out_of_bounds
         else Inr (new_Val_with junk (val_set_string (argv ! nat n) new_Val) h))"
| "eval_mem junk argv pool vars (Variable v) h =
     (case fst (smap_index v vars) of
        None \<Rightarrow> die (Uninitialized_variable v)
      | Some a \<Rightarrow> Inr (a, h))"
| "eval_mem junk argv pool vars (Report_param a b c) h =
     (case fst (smap_index a pool) of
        None \<Rightarrow> die (Client_undefined a)
      | Some cl \<Rightarrow> mapR (\<lambda>v. new_Val_with junk v h) (get_param_val2 b c cl))"
| "eval_mem junk argv pool vars (Client_param a b) h =
     (case fst (smap_index a pool) of
        None \<Rightarrow> die (Client_undefined a)
      | Some cl \<Rightarrow> mapR (\<lambda>v. new_Val_with junk v h) (get_param_val1 b cl))"
| "eval_mem junk argv pool vars (Concat e f) h =
     bindR (eval_mem junk argv pool vars e h) (\<lambda>(a, h).
     bindR (eval_mem junk argv pool vars f h) (\<lambda>(b, h). concat_action a b h))"

definition assign_mem :: "string \<Rightarrow> nat \<Rightarrow> nat option smap \<times> heap \<Rightarrow> (nat option smap \<times> heap) result" where
  "assign_mem name a = (\<lambda>(vars, h).
     let (p, vars) = smap_index name vars;
         (b, vars, h) = (case p of
            Some b \<Rightarrow> (b, vars, h)
          | None \<Rightarrow> let (b, h) = new_cell (new_Val\<lparr>delete_me_not := True\<rparr>) h in (b, smap_put name (Some b) vars, h))
     in bindR (deref b h) (\<lambda>v.
        if a = b then Inr (vars, h)
        else mapR (\<lambda>x. (vars, h\<lparr>cell := (cell h)(b \<mapsto> val_set x v)\<rparr>)) (deref a h)))"

definition assign_line_mem :: "(nat \<Rightarrow> bool) \<Rightarrow> string list \<Rightarrow> client option smap \<Rightarrow> string \<times> expr \<Rightarrow>
    nat option smap \<times> heap \<Rightarrow> (nat option smap \<times> heap) result" where
  "assign_line_mem junk argv pool = (\<lambda>(name, e) (vars, h).
     bindR (eval_mem junk argv pool vars e h) (\<lambda>(a, h). assign_mem name a (vars, h)))"

section \<open>Evaluation\<close>

text \<open>A memory holds the variables of a process: each in a cell of its own, which is kept.\<close>

definition holds :: "nat option smap \<times> heap \<Rightarrow> val option smap \<Rightarrow> bool" where
  "holds = (\<lambda>(vars, h) vals.
     smap_ok vars \<and> smap_ok vals \<and> (\<forall>a. cell h a \<noteq> None \<longrightarrow> a < brk h) \<and>
     (\<forall>n. fst (smap_index n vars) = None \<longrightarrow> fst (smap_index n vals) = None) \<and>
     (\<forall>n a. fst (smap_index n vars) = Some a \<longrightarrow>
        (\<exists>v. cell h a = Some v \<and> delete_me_not v \<and> fst (smap_index n vals) = Some v)) \<and>
     (\<forall>n n' a. fst (smap_index n vars) = Some a \<and> fst (smap_index n' vars) = Some a \<longrightarrow> n = n'))"

definition same_value :: "val \<Rightarrow> val \<Rightarrow> bool" where
  "same_value v w \<longleftrightarrow> strval v = strval w \<and> dval v = dval w"

text \<open>The cell of a result is kept or new, and what was in memory before is still there.\<close>

definition yields :: "heap \<Rightarrow> val \<Rightarrow> nat \<times> heap \<Rightarrow> bool" where
  "yields h v = (\<lambda>(a, h'). brk h \<le> brk h' \<and> (\<forall>b < brk h. cell h' b = cell h b) \<and> (\<forall>b. cell h' b \<noteq> None \<longrightarrow> b < brk h') \<and>
     (\<exists>x. cell h' a = Some x \<and> same_value x v \<and> (brk h \<le> a \<or> delete_me_not x)))"

lemma yields_new: "holds (vars, h) vals \<Longrightarrow> yields h v (new_Val_with junk v h)"
  by (auto simp: holds_def yields_def new_Val_with_def new_cell_def same_value_def less_Suc_eq)

lemma concat_action_yields:
  assumes x: "yields h v (a, h1)" and y: "yields h1 w (b, h2)"
  shows "\<exists>r. concat_action a b h2 = Inr r \<and> yields h (val_concat w v) r"
proof -
  from x obtain c where c: "cell h1 a = Some c" "same_value c v" "brk h \<le> a \<or> delete_me_not c" "a < brk h1"
      "brk h \<le> brk h1" "\<forall>b < brk h. cell h1 b = cell h b" by (auto simp: yields_def)
  from y obtain d where d: "cell h2 b = Some d" "same_value d w" "brk h1 \<le> b \<or> delete_me_not d" "b < brk h2"
      "brk h1 \<le> brk h2" "\<forall>b < brk h1. cell h2 b = cell h1 b" "\<forall>b. cell h2 b \<noteq> None \<longrightarrow> b < brk h2" by (auto simp: yields_def)
  have a2: "cell h2 a = Some c" using c d by simp
  have same: "same_value (val_concat d c) (val_concat w v)"
    using c(2) d(2) by (simp add: same_value_def val_concat_def val_set_string_def)
  have ne: "a \<noteq> brk h2" "b \<noteq> brk h2" "brk h \<le> brk h2" using c d by auto
  have ab: "delete_me_not c" if "a = b" using that a2 c(4) d(1,3) by auto
  let ?h3 = "snd (new_cell (val_concat d c) h2)"
  let ?k1 = "if delete_me_not c then ?h3 else ?h3\<lparr>cell := (cell ?h3)(a := None)\<rparr>"
  let ?k2 = "if delete_me_not d then ?k1 else ?k1\<lparr>cell := (cell ?k1)(b := None)\<rparr>"
  have k1: "delete_unless_kept a ?h3 = Inr ?k1"
    using a2 ne by (simp add: delete_unless_kept_def delete_cell_def deref_def new_cell_def)
  have "delete_unless_kept b ?k1 = Inr ?k2"
    using d(1) ne ab by (auto simp: delete_unless_kept_def delete_cell_def deref_def new_cell_def)
  with k1 have act: "concat_action a b h2 = Inr (brk h2, ?k2)"
    using a2 d(1) by (simp add: concat_action_def deref_def new_cell_def)
  have old: "cell h2 n = cell h n" if "n < brk h" for n using that c d by simp
  have "cell ?k2 n = cell h n" if "n < brk h" for n
    using that old [OF that] ne c(1,3) d(1,3) c(5) by (auto simp: new_cell_def)
  moreover have "cell ?k2 (brk h2) = Some (val_concat d c)" "brk ?k2 = brk h2 + 1"
    using ne by (auto simp: new_cell_def)
  moreover have "n < brk ?k2" if "cell ?k2 n \<noteq> None" for n
    using that d(7) by (auto simp: new_cell_def less_Suc_eq split: if_splits)
  ultimately show ?thesis using act ne(3) same by (auto simp: yields_def)
qed

lemma holds_var:
  assumes "holds (vars, h) vals" "fst (smap_index n vars) = Some a"
  obtains v where "cell h a = Some v" "delete_me_not v" "fst (smap_index n vals) = Some v" "a < brk h"
  using assms unfolding holds_def by blast

lemma yields_var:
  assumes "holds (vars, h) vals" "fst (smap_index n vars) = Some a" "fst (smap_index n vals) = Some v"
  shows "yields h v (a, h)"
proof -
  from holds_var [OF assms(1,2)] assms(3) have "cell h a = Some v" "delete_me_not v" by auto
  moreover have "\<forall>b. cell h b \<noteq> None \<longrightarrow> b < brk h" using assms(1) by (simp add: holds_def)
  ultimately show ?thesis by (simp add: yields_def same_value_def)
qed
lemma holds_step:
  assumes "holds (vars, h) vals" "yields h v (a, h')"
  shows "holds (vars, h') vals"
proof -
  have "cell h' b = Some x" if "cell h b = Some x" for b x
    using assms that unfolding holds_def yields_def by auto
  then have "\<exists>v. cell h' a = Some v \<and> delete_me_not v \<and> fst (smap_index n vals) = Some v"
    if "fst (smap_index n vars) = Some a" for n a
    using holds_var [OF assms(1) that] by metis
  with assms show ?thesis unfolding holds_def yields_def by simp
qed

lemma eval_mem_yields:
  assumes "holds (vars, h) (var_hash p)"
  shows "case eval argv p e of
      Inl err \<Rightarrow> eval_mem junk argv (client_pool p) vars e h = Inl err
    | Inr v \<Rightarrow> \<exists>r. eval_mem junk argv (client_pool p) vars e h = Inr r \<and> yields h v r"
  using assms
proof (induction e arbitrary: h)
  case (Variable n)
  show ?case
  proof (cases "fst (smap_index n vars)")
    case None
    with Variable have "fst (smap_index n (var_hash p)) = None" by (simp add: holds_def)
    with None show ?thesis by simp
  next
    case (Some a)
    with holds_var [OF Variable] obtain v where "fst (smap_index n (var_hash p)) = Some v" by blast
    with Some yields_var [OF Variable] show ?thesis by simp
  qed
next
  case (Concat e f)
  show ?case
  proof (cases "eval argv p e")
    case (Inl err)
    with Concat.IH(1) [OF Concat.prems] show ?thesis by simp
  next
    case (Inr v)
    with Concat.IH(1) [OF Concat.prems] obtain a h1 where
      e: "eval_mem junk argv (client_pool p) vars e h = Inr (a, h1)" "yields h v (a, h1)" by auto
    note f = Concat.IH(2) [OF holds_step [OF Concat.prems e(2)]]
    show ?thesis
    proof (cases "eval argv p f")
      case (Inl err)
      with Inr e f show ?thesis by simp
    next
      case w: (Inr w)
      with f obtain b h2 where "eval_mem junk argv (client_pool p) vars f h1 = Inr (b, h2)" "yields h1 w (b, h2)" by auto
      with concat_action_yields [OF e(2)] Inr w e(1) show ?thesis by fastforce
    qed
  qed
qed (auto simp: Let_def mapR_def intro: yields_new split: option.splits sum.splits)

section \<open>Assignments\<close>

lemma index_put: "smap_ok m \<Longrightarrow> fst (smap_index k (smap_put n x m)) = (if k = n then x else fst (smap_index k m))"
  by (simp add: fst_smap_index sm.find_put)

lemma index_index: "smap_ok m \<Longrightarrow> fst (smap_index k (snd (smap_index n m))) = fst (smap_index k m)"
  by (simp add: smap_index_def sm.find_put split: option.splits)

lemma assigned:
  assumes "fst (smap_index n (var_hash p)) = v0"
  shows "var_hash (assign n v p) = smap_put n (Some (val_set v (case v0 of None \<Rightarrow> new_Val\<lparr>delete_me_not := True\<rparr> | Some v0 \<Rightarrow> v0)))
     (snd (smap_index n (var_hash p)))"
  using assms by (cases "smap_index n (var_hash p)") (auto simp: assign_def)

text \<open>Writing the cell of a variable, old or new.\<close>

lemma holds_write:
  assumes "holds (vars, h) vals" "smap_ok vars'" "smap_ok vals'" "delete_me_not x" "b < brk h'" "brk h \<le> brk h'"
    and "\<And>k. fst (smap_index k vars') = (if k = n then Some b else fst (smap_index k vars))"
    and "\<And>k. fst (smap_index k vals') = (if k = n then Some x else fst (smap_index k vals))"
    and "fst (smap_index n vars) = Some b \<or> fst (smap_index n vars) = None \<and> brk h \<le> b"
    and "cell h' b = Some x" "\<And>c. c < brk h \<Longrightarrow> c \<noteq> b \<Longrightarrow> cell h' c = cell h c" "\<And>c. cell h' c \<noteq> None \<Longrightarrow> c < brk h'"
  shows "holds (vars', h') vals'"
proof -
  have other: "b \<noteq> a \<and> a < brk h" if "fst (smap_index k vars) = Some a" "k \<noteq> n" for k a
  proof -
    have "a < brk h" by (rule holds_var [OF assms(1) that(1)])
    moreover have "b \<noteq> a" if "fst (smap_index n vars) = Some b"
      using that \<open>fst (smap_index k vars) = Some a\<close> \<open>k \<noteq> n\<close> assms(1) unfolding holds_def by auto
    ultimately show ?thesis using assms(9) by auto
  qed
  have 1: "\<exists>v. cell h' a = Some v \<and> delete_me_not v \<and> fst (smap_index k vals') = Some v"
    if "fst (smap_index k vars') = Some a" for k a
  proof (cases "k = n")
    case True
    with that assms(4,7,8,10) show ?thesis by simp
  next
    case False
    with that assms(7) have k: "fst (smap_index k vars) = Some a" by simp
    from holds_var [OF assms(1) this] obtain v where "cell h a = Some v" "delete_me_not v"
      "fst (smap_index k vals) = Some v" by blast
    with other [OF k False] assms(11) [of a] False show ?thesis by (simp add: assms(8))
  qed
  have 2: "k = k'" if "fst (smap_index k vars') = Some a" "fst (smap_index k' vars') = Some a" for k k' a
  proof -
    have "fst (smap_index k vars) = Some a \<Longrightarrow> fst (smap_index k' vars) = Some a \<Longrightarrow> k = k'"
      using assms(1) unfolding holds_def by blast
    with that other show ?thesis by (cases "k = n"; cases "k' = n") (auto simp: assms(7))
  qed
  from assms(1) have "fst (smap_index k vars') = None \<Longrightarrow> fst (smap_index k vals') = None" for k
    by (auto simp: assms(7,8) holds_def split: if_splits)
  with 1 2 assms(2,3,12) show ?thesis unfolding holds_def by simp blast
qed

lemma assign_mem_holds:
  assumes h: "holds (vars, h) (var_hash p)" and y: "yields h v (a, h')"
  shows "\<exists>m. assign_mem n a (vars, h') = Inr m \<and> holds m (var_hash (assign n v p))"
proof -
  have h': "holds (vars, h') (var_hash p)" by (rule holds_step [OF h y])
  then have ok: "smap_ok vars" "smap_ok (var_hash p)" "\<And>c. cell h' c \<noteq> None \<Longrightarrow> c < brk h'" by (auto simp: holds_def)
  from y obtain x where x: "cell h' a = Some x" "same_value x v" by (auto simp: yields_def)
  then have set: "val_set x w = val_set v w" for w by (simp add: val_set_def same_value_def)
  let ?vars = "snd (smap_index n vars)" and ?vals = "snd (smap_index n (var_hash p))"
  have ok': "smap_ok ?vars" "smap_ok ?vals" using ok by (simp_all add: smap_ok_index)
  show ?thesis
  proof (cases "fst (smap_index n vars)")
    case None
    with h' have n: "fst (smap_index n (var_hash p)) = None" by (simp add: holds_def)
    let ?x = "val_set v (new_Val\<lparr>delete_me_not := True\<rparr>)"
    let ?h = "h'\<lparr>cell := (cell h')(brk h' \<mapsto> ?x), brk := brk h' + 1\<rparr>"
    have "a \<noteq> brk h'" using ok(3) [of a] x(1) by auto
    moreover obtain m where "smap_index n vars = (None, m)" using None by (cases "smap_index n vars") simp
    ultimately have "assign_mem n a (vars, h') = Inr (smap_put n (Some (brk h')) ?vars, ?h)"
      using x(1) by (simp add: assign_mem_def new_cell_def deref_def set)
    moreover have "holds (smap_put n (Some (brk h')) ?vars, ?h) (var_hash (assign n v p))"
      unfolding assigned [OF n]
      by (rule holds_write [OF h', where b = "brk h'" and x = ?x and n = n])
         (use None n ok ok' in \<open>auto simp: index_put index_index sm.invar_put val_set_def less_Suc_eq\<close>)
    ultimately show ?thesis by blast
  next
    case (Some b)
    from holds_var [OF h' Some] obtain v0 where v0: "cell h' b = Some v0" "delete_me_not v0"
      "fst (smap_index n (var_hash p)) = Some v0" "b < brk h'" by blast
    let ?h = "if a = b then h' else h'\<lparr>cell := (cell h')(b \<mapsto> val_set x v0)\<rparr>"
    obtain m where "smap_index n vars = (Some b, m)" using Some by (cases "smap_index n vars") simp
    then have "assign_mem n a (vars, h') = Inr (?vars, ?h)"
      using x(1) v0(1) by (simp add: assign_mem_def deref_def)
    moreover have self: "a = b \<Longrightarrow> val_set v v0 = v0" using x v0(1) by (simp add: same_value_def val_set_def)
    have flag: "delete_me_not (val_set v v0)" using v0(2) by (simp add: val_set_def)
    have "holds (?vars, ?h) (var_hash (assign n v p))"
      unfolding assigned [OF v0(3)]
      by (rule holds_write [OF h', where b = b and x = "val_set v v0" and n = n])
         (use Some v0 ok ok' self flag in \<open>auto simp: index_put index_index sm.invar_put set split: if_splits\<close>)
    ultimately show ?thesis by blast
  qed
qed

lemma assign_client_pool [simp]: "client_pool (assign n v p) = client_pool p"
  by (simp add: assign_def Let_def split: prod.split)

text \<open>
  C14: deleting values is safe, whatever the constructors of \<open>Val\<close> leave in the flag \<open>delete_me_not\<close>.  Any lines that
  assign variables, run on cells of memory with the deletions of the grammar's actions, end as they end on values:
  with the same error, or with a memory that holds exactly the new variables.  No cell is used or deleted after
  it has been deleted, each variable keeps a cell of its own, also in \<open>$x = $x\<close> and \<open>$x = $y\<close>, and the undefined
  flag never shows in the result.
\<close>

theorem assignments_in_memory:
  assumes "holds m (var_hash p)"
  shows "case exec_lines db os argv (map (\<lambda>(n, e). Assign n e) ls) (p, w) of
      None \<Rightarrow> False
    | Some (Inl err) \<Rightarrow> foldR (assign_line_mem junk argv (client_pool p)) ls m = Inl err
    | Some (Inr (p', w')) \<Rightarrow> \<exists>m'. foldR (assign_line_mem junk argv (client_pool p)) ls m = Inr m' \<and> holds m' (var_hash p')"
  using assms
proof (induction ls arbitrary: p m w)
  case (Cons l ls)
  obtain n e vars h where l: "l = (n, e)" "m = (vars, h)" by (cases l; cases m) auto
  note ev = eval_mem_yields [OF Cons.prems [unfolded l(2)], where argv = argv and e = e and junk = junk]
  show ?case
  proof (cases "eval argv p e")
    case (Inl err)
    with ev show ?thesis by (simp add: l exec_line_def assign_line_mem_def)
  next
    case (Inr v)
    with ev obtain a h1 where a: "eval_mem junk argv (client_pool p) vars e h = Inr (a, h1)" "yields h v (a, h1)" by auto
    from assign_mem_holds [OF Cons.prems [unfolded l(2)] a(2)] obtain m1 where
      m1: "assign_mem n a (vars, h1) = Inr m1" "holds m1 (var_hash (assign n v p))" by blast
    with a(1) have "assign_line_mem junk argv (client_pool p) l m = Inr m1" by (simp add: assign_line_mem_def l)
    with Cons.IH [OF m1(2), of w] Inr show ?thesis
      by (auto simp: l(1) exec_line_def split: option.splits sum.splits)
  qed
qed simp

lemma empty_memory: "holds ([], \<lparr>cell = Map.empty, brk = 0\<rparr>) []"
  by (simp add: holds_def smap_index_def smap_find_def smap_ok_def)

theorem assignments_in_memory_witness:
  "\<forall>junk. \<exists>m v. foldR (assign_line_mem junk [] [])
      [(''x'', Str ''a''), (''y'', Concat (Concat (Variable ''x'') (Str ''b'')) (Variable ''x'')), (''x'', Variable ''x'')]
      ([], \<lparr>cell = Map.empty, brk = 0\<rparr>) = Inr m
    \<and> holds m [(''x'', Some ((val_set_string ''a'' new_Val)\<lparr>delete_me_not := True\<rparr>)),
        (''y'', Some ((val_set_string ''aba'' new_Val)\<lparr>delete_me_not := True\<rparr>))]"
proof
  fix junk
  have "holds ([], \<lparr>cell = Map.empty, brk = 0\<rparr>) (var_hash new_process)" "client_pool new_process = []"
    using empty_memory by (simp_all add: new_process_def)
  with assignments_in_memory [OF this(1), where db = example_db and os = example_os and argv = "[]" and ls = "[(''x'', Str ''a''),
      (''y'', Concat (Concat (Variable ''x'') (Str ''b'')) (Variable ''x'')), (''x'', Variable ''x'')]" and w = "(0, [])"
      and junk = junk]
  show "\<exists>m v. foldR (assign_line_mem junk [] [])
      [(''x'', Str ''a''), (''y'', Concat (Concat (Variable ''x'') (Str ''b'')) (Variable ''x'')), (''x'', Variable ''x'')]
      ([], \<lparr>cell = Map.empty, brk = 0\<rparr>) = Inr m
    \<and> holds m [(''x'', Some ((val_set_string ''a'' new_Val)\<lparr>delete_me_not := True\<rparr>)),
        (''y'', Some ((val_set_string ''aba'' new_Val)\<lparr>delete_me_not := True\<rparr>))]"
    by (simp add: exec_line_def assign_def smap_index_def smap_find_def new_process_def val_set_def val_set_string_def
        val_concat_def new_Val_def)
qed

text \<open>
  A copy of a variable's value is kept as the variable is: the intermediate cell of \<open>$x . "a" . "b"\<close> is lost even when
  every constructor clears the flag.
\<close>

lemma kept_copy_is_lost:
  assumes "cell h 0 = Some (v\<lparr>delete_me_not := True\<rparr>)" "brk h = 1"
  shows "\<exists>h' x. eval_mem (\<lambda>_. False) argv pool [(''x'', Some 0)]
      (Concat (Concat (Variable ''x'') (Str ''a'')) (Str ''b'')) h = Inr (4, h')
    \<and> cell h' 1 = None \<and> cell h' 2 = Some x \<and> strval x = strval v @ ''a'' \<and> cell h' 3 = None"
  using assms
  by (simp add: smap_index_def smap_find_def concat_action_def new_Val_with_def new_cell_def deref_def
      delete_unless_kept_def delete_cell_def val_concat_def val_set_string_def new_Val_def)

end
